(* ===== verification/Prelude.thy ===== *)
theory Prelude
  imports Main "HOL-Library.Word" "HOL-Library.Multiset" "HOL-Library.Signed_Division"
    "HOL-Library.Code_Target_Nat"
begin

text \<open>
  The prelude of the development: the named collections the component proofs share,
  machine-integer helpers, association lists kept in the iteration order of the hash maps of
  the program (\<open>modify\<close>, \<open>erase_key\<close>), prefix accumulation of outputs, and the
  generic transition systems with their invariant rule.
\<close>

named_theorems wire_simps "evaluation of the wire codecs on their own output"
named_theorems frame_simps "what an operation leaves unchanged"
named_theorems inv_intros "operations keep the invariants"

section \<open>Machine integers\<close>

type_synonym byte = "8 word"
type_synonym bytes = "byte list"

definition wrap_i32 :: "int \<Rightarrow> int" where
  "wrap_i32 x = sint (word_of_int x :: 32 word)"

definition wrap_u64 :: "int \<Rightarrow> nat" where
  "wrap_u64 x = nat (x mod 2 ^ 64)"

lemma wrap_i32_id: "- (2 ^ 31) \<le> x \<Longrightarrow> x < 2 ^ 31 \<Longrightarrow> wrap_i32 x = x"
  by (simp add: wrap_i32_def sint_sbintrunc' signed_take_bit_int_eq_self)

lemma wrap_u64_id: "0 \<le> x \<Longrightarrow> x < 2 ^ 64 \<Longrightarrow> wrap_u64 x = nat x"
  by (simp add: wrap_u64_def)

section \<open>Association lists in iteration order\<close>

text \<open>
  A hash map of the program is an association list with distinct keys, in the order its
  iterator visits the entries.
\<close>

abbreviation keys :: "('k \<times> 'v) list \<Rightarrow> 'k list" where
  "keys m \<equiv> map fst m"

definition modify :: "'k \<Rightarrow> ('v \<Rightarrow> 'v) \<Rightarrow> ('k \<times> 'v) list \<Rightarrow> ('k \<times> 'v) list" where
  "modify k f m = map (\<lambda>(k', v). if k' = k then (k', f v) else (k', v)) m"

definition erase_key :: "'k \<Rightarrow> ('k \<times> 'v) list \<Rightarrow> ('k \<times> 'v) list" where
  "erase_key k m = filter (\<lambda>(k', v). k' \<noteq> k) m"

lemma keys_modify [simp]: "keys (modify k f m) = keys m"
  by (induction m) (auto simp: modify_def)

lemma keys_erase_key [simp]: "keys (erase_key k m) = filter (\<lambda>k'. k' \<noteq> k) (keys m)"
  by (induction m) (auto simp: erase_key_def)

lemma map_of_modify:
  "map_of (modify k f m) k' = (if k' = k then map_option f (map_of m k) else map_of m k')"
  by (induction m) (auto simp: modify_def)

lemma map_of_modify_same [simp]: "map_of (modify k f m) k = map_option f (map_of m k)"
  by (simp add: map_of_modify)

lemma map_of_modify_other [simp]: "k' \<noteq> k \<Longrightarrow> map_of (modify k f m) k' = map_of m k'"
  by (simp add: map_of_modify)

lemma map_of_erase_key:
  "map_of (erase_key k m) k' = (if k' = k then None else map_of m k')"
  by (induction m) (auto simp: erase_key_def)

lemma map_of_erase_key_same [simp]: "map_of (erase_key k m) k = None"
  by (simp add: map_of_erase_key)

lemma map_of_erase_key_other [simp]: "k' \<noteq> k \<Longrightarrow> map_of (erase_key k m) k' = map_of m k'"
  by (simp add: map_of_erase_key)

lemma modify_absent: "k \<notin> set (keys m) \<Longrightarrow> modify k f m = m"
  by (induction m) (auto simp: modify_def)

lemma modify_modify: "modify k f (modify k g m) = modify k (f \<circ> g) m"
  by (auto simp: modify_def)

lemma erase_key_absent: "k \<notin> set (keys m) \<Longrightarrow> erase_key k m = m"
  by (induction m) (auto simp: erase_key_def)

lemma in_modifyE:
  assumes "(k', v') \<in> set (modify k f m)"
  obtains "k' \<noteq> k" "(k', v') \<in> set m" | v where "k' = k" "v' = f v" "(k, v) \<in> set m"
  using assms by (auto simp: modify_def split: if_splits)

lemma in_erase_key [simp]: "(k', v) \<in> set (erase_key k m) \<longleftrightarrow> k' \<noteq> k \<and> (k', v) \<in> set m"
  by (auto simp: erase_key_def)

lemma map_of_None_keys: "map_of m k = None \<longleftrightarrow> k \<notin> set (keys m)"
  by (auto simp: map_of_eq_None_iff)

lemma map_of_Some_keys: "map_of m k = Some v \<Longrightarrow> k \<in> set (keys m)"
  by (metis map_of_None_keys option.distinct(1))

lemma keys_map_of: "k \<in> set (keys m) \<Longrightarrow> \<exists>v. map_of m k = Some v"
  by (metis map_of_None_keys not_None_eq)

section \<open>Transition systems\<close>

text \<open>
  Every component with state is a set of start states and a step relation; its reachable
  states and the rule that lifts a per-step lemma to them are shared here.
\<close>

inductive reach :: "('s \<Rightarrow> bool) \<Rightarrow> ('s \<Rightarrow> 's \<Rightarrow> bool) \<Rightarrow> 's \<Rightarrow> bool"
  for start :: "'s \<Rightarrow> bool" and step :: "'s \<Rightarrow> 's \<Rightarrow> bool" where
  reach_start: "start s \<Longrightarrow> reach start step s"
| reach_step: "reach start step s \<Longrightarrow> step s t \<Longrightarrow> reach start step t"

locale invariant_system =
  fixes start :: "'s \<Rightarrow> bool"
    and step :: "'s \<Rightarrow> 's \<Rightarrow> bool"
    and inv :: "'s \<Rightarrow> bool"
  assumes inv_start: "start s \<Longrightarrow> inv s"
    and inv_step: "inv s \<Longrightarrow> step s t \<Longrightarrow> inv t"
begin

lemma inv_reach: "reach start step s \<Longrightarrow> inv s"
  by (induction rule: reach.induct) (auto intro: inv_start inv_step)

lemma inv_steps: "step\<^sup>*\<^sup>* s t \<Longrightarrow> inv s \<Longrightarrow> inv t"
  by (induction rule: rtranclp_induct) (auto intro: inv_step)

end

end
