(* ===== verification/Wire.thy ===== *)
theory Wire
  imports Prelude
begin

text \<open>
  Bytes on the wire and in fixed buffers: network byte order of 16- and 32-bit words
  (\<open>host_to_network_long\<close> / \<open>network_to_host_long\<close> with the pointer store or load next to
  it), host-order loads, stores into an allocated buffer that can run past its end, C strings
  in fixed fields (\<open>strnlen\<close>, \<open>strncmp\<close>), and the contract of a codec.
\<close>

section \<open>Network and host byte order\<close>

definition put_be32 :: "32 word \<Rightarrow> bytes" where
  "put_be32 w = map (\<lambda>k. ucast (drop_bit k w)) [24, 16, 8, 0]"

definition put_be16 :: "16 word \<Rightarrow> bytes" where
  "put_be16 w = map (\<lambda>k. ucast (drop_bit k w)) [8, 0]"

definition be_nat :: "bytes \<Rightarrow> nat" where
  "be_nat bs = foldl (\<lambda>n b. 256 * n + unat b) 0 bs"

definition get_be32 :: "bytes \<Rightarrow> 32 word" where
  "get_be32 bs = word_of_nat (be_nat (take 4 bs))"

definition get_be16 :: "bytes \<Rightarrow> 16 word" where
  "get_be16 bs = word_of_nat (be_nat (take 2 bs))"

datatype endian = Little_endian | Big_endian

definition load_host32 :: "endian \<Rightarrow> bytes \<Rightarrow> 32 word" where
  "load_host32 e bs =
     (case e of Little_endian \<Rightarrow> get_be32 (rev (take 4 bs)) | Big_endian \<Rightarrow> get_be32 (take 4 bs))"

lemma length_put_be32 [simp]: "length (put_be32 w) = 4"
  by (simp add: put_be32_def)

lemma length_put_be16 [simp]: "length (put_be16 w) = 2"
  by (simp add: put_be16_def)

lemma be_nat_bytes: "be_nat [a, b, c, d] = ((unat a * 256 + unat b) * 256 + unat c) * 256 + unat d"
  by (simp add: be_nat_def algebra_simps)

lemma unat_byte_at: "unat (ucast (drop_bit k (w :: 'a :: len word)) :: byte) = unat w div 2 ^ k mod 256"
proof -
  have "unat (ucast (drop_bit k w) :: byte) = take_bit 8 (unat (drop_bit k w))"
    by (simp add: unsigned_ucast_eq)
  also have "\<dots> = unat (drop_bit k w) mod 256" by (simp only: take_bit_eq_mod) simp
  also have "unat (drop_bit k w) = drop_bit k (unat w)" by (rule unat_drop_bit_eq)
  also have "\<dots> = unat w div 2 ^ k" by (rule drop_bit_eq_div)
  finally show ?thesis .
qed

lemma split_base_256:
  fixes n :: nat
  assumes "n < 256 ^ 4"
  shows "((n div 2 ^ 24 mod 256 * 256 + n div 2 ^ 16 mod 256) * 256 + n div 2 ^ 8 mod 256) * 256
           + n div 2 ^ 0 mod 256 = n"
proof -
  define p where "p = n div 256"
  define q where "q = p div 256"
  define r where "r = q div 256"
  have divs: "n div 2 ^ 24 = r" "n div 2 ^ 16 = q" "n div 2 ^ 8 = p" "n div 2 ^ 0 = n"
    by (simp_all add: p_def q_def r_def flip: div_mult2_eq)
  have "r < 256" using assms by (simp add: p_def q_def r_def flip: div_mult2_eq)
  moreover have "n = p * 256 + n mod 256" "p = q * 256 + p mod 256" "q = r * 256 + q mod 256"
    by (simp_all add: p_def q_def r_def)
  ultimately show ?thesis unfolding divs by simp
qed

lemma be_nat_put_be32 [wire_simps]: "be_nat (put_be32 w) = unat w"
proof -
  have "unat w < 256 ^ 4" using unsigned_less [of w, where ?'a = nat] by simp
  from split_base_256 [OF this] show ?thesis
    by (simp only: put_be32_def list.map be_nat_bytes unat_byte_at)
qed

lemma get_put_be32 [wire_simps]: "get_be32 (put_be32 w @ rest) = w"
  by (simp add: get_be32_def be_nat_put_be32)

lemma get_put_be32_alone [wire_simps]: "get_be32 (put_be32 w) = w"
  using get_put_be32 [of w "[]"] by simp

lemma be_nat_put_be16 [wire_simps]: "be_nat (put_be16 w) = unat w"
proof -
  have "unat w < 65536" using unsigned_less [of w, where ?'a = nat] by simp
  then have "unat w div 2 ^ 8 mod 256 = unat w div 256" "unat w div 2 ^ 0 = unat w" by simp_all
  then show ?thesis
    by (simp only: put_be16_def be_nat_def unat_byte_at list.map foldl.simps) simp
qed

lemma get_put_be16 [wire_simps]: "get_be16 (put_be16 w @ rest) = w"
  by (simp add: get_be16_def be_nat_put_be16)

lemma get_be32_take: "4 \<le> length xs \<Longrightarrow> get_be32 (xs @ ys) = get_be32 xs"
  by (simp add: get_be32_def)

lemma get_be32_of_take: "4 \<le> n \<Longrightarrow> get_be32 (take n xs) = get_be32 xs"
  by (simp add: get_be32_def min_def)

lemma put_be32_inject: "put_be32 v = put_be32 w \<longleftrightarrow> v = w"
  by (metis get_put_be32_alone)

text \<open>A host load of a network store is the identity on a big-endian host and the byte swap on
  a little-endian one; either way it is injective and keeps zero.\<close>

definition host_view :: "endian \<Rightarrow> 32 word \<Rightarrow> 32 word" where
  "host_view e w = load_host32 e (put_be32 w)"

lemma load_host32_put: "load_host32 e (put_be32 w @ rest) = host_view e w"
  by (simp add: host_view_def load_host32_def split: endian.split)

lemma byte_less: "unat (b :: byte) < 256"
  using unsigned_less [of b, where ?'a = nat] by simp

lemma be_nat_less4: "length bs = 4 \<Longrightarrow> be_nat bs < 2 ^ 32"
proof -
  assume "length bs = 4"
  then obtain a b c d where bs: "bs = [a, b, c, d]"
    by (auto simp: length_Suc_conv eval_nat_numeral)
  show ?thesis
    using byte_less [of a] byte_less [of b] byte_less [of c] byte_less [of d]
    by (simp add: bs be_nat_bytes)
qed

lemma base_256_inject:
  fixes j j' k k' :: nat
  assumes "k * 256 + j = k' * 256 + j'" and "j < 256" and "j' < 256"
  shows "k = k' \<and> j = j'"
proof -
  have "(k * 256 + j) div 256 = k" "(k' * 256 + j') div 256 = k'"
    using assms(2,3) by simp_all
  with assms(1) have "k = k'" by simp
  with assms(1) show ?thesis by simp
qed

lemma be_nat_inject4:
  assumes "length xs = 4" and "length ys = 4" and "be_nat xs = be_nat ys"
  shows "xs = ys"
proof -
  obtain a b c d a' b' c' d' where eqs: "xs = [a, b, c, d]" "ys = [a', b', c', d']"
    using assms(1,2) by (auto simp: length_Suc_conv eval_nat_numeral)
  note base = base_256_inject
  note eq1 = assms(3) [unfolded eqs be_nat_bytes]
  note eq2 = base [OF eq1 byte_less byte_less]
  note eq3 = base [OF conjunct1 [OF eq2] byte_less byte_less]
  note eq4 = base [OF conjunct1 [OF eq3] byte_less byte_less]
  from eq2 eq3 eq4 have "unat a = unat a' \<and> unat b = unat b' \<and> unat c = unat c' \<and> unat d = unat d'"
    by simp
  then show ?thesis by (simp add: eqs word_unat_eq_iff)
qed

lemma get_be32_inject4:
  assumes "length xs = 4" and "length ys = 4" and "get_be32 xs = get_be32 ys"
  shows "xs = ys"
proof -
  have "unat (get_be32 xs) = be_nat xs" "unat (get_be32 ys) = be_nat ys"
    using be_nat_less4 [OF assms(1)] be_nat_less4 [OF assms(2)] assms(1,2)
    by (simp_all add: get_be32_def unat_of_nat)
  with assms show ?thesis by (metis be_nat_inject4)
qed

lemma put_get_be32: "length bs = 4 \<Longrightarrow> put_be32 (get_be32 bs) = bs"
  by (rule get_be32_inject4) (simp_all add: get_put_be32_alone)

lemma host_view_inject: "host_view e v = host_view e w \<longleftrightarrow> v = w"
proof
  assume "host_view e v = host_view e w"
  then show "v = w"
    by (cases e)
      (auto simp: host_view_def load_host32_def put_be32_inject dest!: get_be32_inject4 [rotated 2])
qed simp

lemma host_view_zero: "host_view e w = 0 \<longleftrightarrow> w = 0"
proof -
  have "host_view e 0 = 0"
    by (cases e) (simp_all add: host_view_def load_host32_def put_be32_def get_be32_def be_nat_def)
  then show ?thesis by (metis host_view_inject)
qed

section \<open>Stores into an allocated buffer\<close>

text \<open>
  A store of \<open>bs\<close> at offset \<open>off\<close> of a heap buffer; \<open>None\<close> is a store past its end, which
  the program does not check and whose effect is undefined.
\<close>

definition poke :: "nat \<Rightarrow> bytes \<Rightarrow> bytes \<Rightarrow> bytes option" where
  "poke off bs buf =
     (if off + length bs \<le> length buf
      then Some (take off buf @ bs @ drop (off + length bs) buf) else None)"

lemma length_poke: "poke off bs buf = Some buf' \<Longrightarrow> length buf' = length buf"
  by (auto simp: poke_def split: if_splits)

lemma poke_None_iff: "poke off bs buf = None \<longleftrightarrow> length buf < off + length bs"
  by (auto simp: poke_def)

section \<open>C strings in fixed fields\<close>

text \<open>\<open>strnlen\<close> and \<open>strncmp\<close> of the C library, on the bytes from the pointer on.\<close>

definition strnlen :: "bytes \<Rightarrow> nat \<Rightarrow> nat" where
  "strnlen bs n = length (takeWhile (\<lambda>b. b \<noteq> 0) (take n bs))"

definition strncmp_eq :: "bytes \<Rightarrow> bytes \<Rightarrow> nat \<Rightarrow> bool" where
  "strncmp_eq xs ys n \<longleftrightarrow>
     takeWhile (\<lambda>b. b \<noteq> 0) (take n xs) = takeWhile (\<lambda>b. b \<noteq> 0) (take n ys)"

definition zero_padded :: "nat \<Rightarrow> bytes \<Rightarrow> bytes" where
  "zero_padded n bs = bs @ replicate (n - length bs) 0"

lemma takeWhile_zero_padded:
  "0 \<notin> set bs \<Longrightarrow> takeWhile (\<lambda>b. b \<noteq> 0) (bs @ replicate k (0 :: byte)) = bs"
  by (induction bs) auto

lemma strncmp_zero_padded:
  assumes "0 \<notin> set xs" and "0 \<notin> set ys" and "length xs \<le> n" and "length ys \<le> n"
  shows "strncmp_eq (zero_padded n xs @ us) (zero_padded n ys @ vs) n \<longleftrightarrow> xs = ys"
  using assms by (simp add: strncmp_eq_def zero_padded_def takeWhile_zero_padded)

lemma take_strnlen:
  assumes "length ks = n"
  shows "take (strnlen (ks @ r) n) (ks @ r) = takeWhile (\<lambda>b. b \<noteq> 0) ks"
proof -
  have "strnlen (ks @ r) n = length (takeWhile (\<lambda>b. b \<noteq> 0) ks)"
    using assms by (simp add: strnlen_def)
  then show ?thesis by (simp add: length_takeWhile_le takeWhile_eq_take [symmetric])
qed

section \<open>Codecs\<close>

locale codec =
  fixes enc :: "'a \<Rightarrow> bytes"
    and dec :: "bytes \<Rightarrow> 'a option"
    and valid :: "'a \<Rightarrow> bool"
  assumes dec_enc: "valid x \<Longrightarrow> dec (enc x @ rest) = Some x"
begin

lemma dec_enc_alone: "valid x \<Longrightarrow> dec (enc x) = Some x"
  using dec_enc [of x "[]"] by simp

lemma enc_prefix_free: "valid x \<Longrightarrow> valid y \<Longrightarrow> enc x @ r = enc y @ s \<Longrightarrow> x = y"
  by (metis dec_enc option.inject)

end

interpretation be32: codec put_be32 "\<lambda>bs. if 4 \<le> length bs then Some (get_be32 bs) else None"
  "\<lambda>_. True"
  by unfold_locales (simp add: wire_simps)

interpretation be16: codec put_be16 "\<lambda>bs. if 2 \<le> length bs then Some (get_be16 bs) else None"
  "\<lambda>_. True"
  by unfold_locales (simp add: wire_simps)

end
