(* ===== verification/Framing.thy ===== *)
theory Framing
  imports Wire
begin

text \<open>
  The abstract specification of a length-prefixed stream: \<open>parse_frames\<close> cuts a byte stream
  into complete frames and an incomplete rest, \<open>frames_fit\<close> says that no frame announced in it
  is longer than a bound. The locale \<open>framing\<close> is the contract of a frame header (the length
  is a function of the first \<open>H\<close> bytes); its lemmas say that cutting is compositional, which is
  what both stream readers of the program have to implement on arbitrary chunks.
\<close>

function parse_frames :: "nat \<Rightarrow> (bytes \<Rightarrow> nat) \<Rightarrow> bytes \<Rightarrow> bytes list \<times> bytes" where
  "parse_frames H flen bs =
     (if length bs < H \<or> flen bs = 0 \<or> length bs < flen bs then ([], bs)
      else (let (fs, r) = parse_frames H flen (drop (flen bs) bs) in (take (flen bs) bs # fs, r)))"
  by pat_completeness auto
termination
  by (relation "measure (\<lambda>(H, flen, bs). length bs)") auto

declare parse_frames.simps [simp del]

function frames_fit :: "nat \<Rightarrow> (bytes \<Rightarrow> nat) \<Rightarrow> nat \<Rightarrow> bytes \<Rightarrow> bool" where
  "frames_fit H flen N bs =
     (if length bs < H then True
      else if N < flen bs then False
      else if flen bs = 0 \<or> length bs < flen bs then True
      else frames_fit H flen N (drop (flen bs) bs))"
  by pat_completeness auto
termination
  by (relation "measure (\<lambda>(H, flen, N, bs). length bs)") auto

declare frames_fit.simps [simp del]

lemma parse_stuck:
  "length bs < H \<or> flen bs = 0 \<or> length bs < flen bs \<Longrightarrow> parse_frames H flen bs = ([], bs)"
  by (simp add: parse_frames.simps)

lemma parse_Cons:
  "H \<le> length bs \<Longrightarrow> 0 < flen bs \<Longrightarrow> flen bs \<le> length bs \<Longrightarrow>
     parse_frames H flen bs =
       (take (flen bs) bs # fst (parse_frames H flen (drop (flen bs) bs)),
        snd (parse_frames H flen (drop (flen bs) bs)))"
  by (subst parse_frames.simps) (simp add: case_prod_beta)

lemma parse_concat: "concat (fst (parse_frames H flen bs)) @ snd (parse_frames H flen bs) = bs"
proof (induction H flen bs rule: parse_frames.induct)
  case (1 H flen bs)
  then show ?case
    by (cases "length bs < H \<or> flen bs = 0 \<or> length bs < flen bs")
      (simp_all add: parse_stuck parse_Cons)
qed

lemma parse_rest_length: "length (snd (parse_frames H flen bs)) \<le> length bs"
  by (metis parse_concat length_append le_add2)

text \<open>The rest of a parse has no complete frame in front.\<close>

lemma parse_rest_stuck:
  "length (snd (parse_frames H flen bs)) < H \<or> flen (snd (parse_frames H flen bs)) = 0
     \<or> length (snd (parse_frames H flen bs)) < flen (snd (parse_frames H flen bs))"
proof (induction H flen bs rule: parse_frames.induct)
  case (1 H flen bs)
  show ?case
  proof (cases "length bs < H \<or> flen bs = 0 \<or> length bs < flen bs")
    case True
    then show ?thesis by (simp add: parse_stuck)
  next
    case False
    with "1.IH" show ?thesis by (simp add: parse_Cons)
  qed
qed

lemma fit_drop:
  "frames_fit H flen N bs \<Longrightarrow> H \<le> length bs \<Longrightarrow> 0 < flen bs \<Longrightarrow> flen bs \<le> length bs \<Longrightarrow>
     frames_fit H flen N (drop (flen bs) bs)"
  by (subst (asm) frames_fit.simps) (simp split: if_splits)

lemma fit_bound: "frames_fit H flen N bs \<Longrightarrow> H \<le> length bs \<Longrightarrow> flen bs \<le> N"
  by (subst (asm) frames_fit.simps) (simp split: if_splits)

lemma fit_rest: "frames_fit H flen N bs \<Longrightarrow> frames_fit H flen N (snd (parse_frames H flen bs))"
proof (induction H flen bs rule: parse_frames.induct)
  case (1 H flen bs)
  show ?case
  proof (cases "length bs < H \<or> flen bs = 0 \<or> length bs < flen bs")
    case True
    with "1.prems" show ?thesis by (simp add: parse_stuck)
  next
    case False
    with "1.IH" "1.prems" show ?thesis by (simp add: parse_Cons fit_drop)
  qed
qed

locale framing =
  fixes H :: nat
    and flen :: "bytes \<Rightarrow> nat"
  assumes flen_append: "H \<le> length xs \<Longrightarrow> flen (xs @ ys) = flen xs"
begin

lemma parse_append:
  "parse_frames H flen (xs @ ys) =
     (fst (parse_frames H flen xs) @ fst (parse_frames H flen (snd (parse_frames H flen xs) @ ys)),
      snd (parse_frames H flen (snd (parse_frames H flen xs) @ ys)))"
proof (induction "length xs" arbitrary: xs rule: less_induct)
  case less
  show ?case
  proof (cases "length xs < H \<or> flen xs = 0 \<or> length xs < flen xs")
    case True
    then show ?thesis by (simp add: parse_stuck)
  next
    case False
    then have fl: "flen (xs @ ys) = flen xs" by (simp add: flen_append)
    from False have "length (drop (flen xs) xs) < length xs" by auto
    from less [OF this] False show ?thesis
      by (simp add: parse_Cons fl)
  qed
qed

lemma fit_append_left: "frames_fit H flen N (xs @ ys) \<Longrightarrow> frames_fit H flen N xs"
proof (induction "length xs" arbitrary: xs rule: less_induct)
  case less
  show ?case
  proof (cases "length xs < H")
    case True
    then show ?thesis by (simp add: frames_fit.simps)
  next
    case False
    then have fl: "flen (xs @ ys) = flen xs" by (simp add: flen_append)
    from less.prems False fl have bound: "flen xs \<le> N"
      using fit_bound [of H flen N "xs @ ys"] by simp
    show ?thesis
    proof (cases "flen xs = 0 \<or> length xs < flen xs")
      case True
      with bound show ?thesis by (subst frames_fit.simps) simp
    next
      case complete: False
      with less.prems False fl have "frames_fit H flen N (drop (flen xs) xs @ ys)"
        using fit_drop [of H flen N "xs @ ys"] by simp
      moreover have "length (drop (flen xs) xs) < length xs" using complete by auto
      ultimately have "frames_fit H flen N (drop (flen xs) xs)" using less.hyps by blast
      with bound False complete show ?thesis by (subst frames_fit.simps) simp
    qed
  qed
qed

lemma fit_append_rest:
  "frames_fit H flen N (xs @ ys) \<Longrightarrow> frames_fit H flen N (snd (parse_frames H flen xs) @ ys)"
proof (induction "length xs" arbitrary: xs rule: less_induct)
  case less
  show ?case
  proof (cases "length xs < H \<or> flen xs = 0 \<or> length xs < flen xs")
    case True
    with less.prems show ?thesis by (simp add: parse_stuck)
  next
    case False
    then have fl: "flen (xs @ ys) = flen xs" by (simp add: flen_append)
    from False less.prems fl have "frames_fit H flen N (drop (flen xs) xs @ ys)"
      using fit_drop [of H flen N "xs @ ys"] by simp
    moreover have "length (drop (flen xs) xs) < length xs" using False by auto
    ultimately show ?thesis using less.hyps False by (simp add: parse_Cons)
  qed
qed

text \<open>The frames of a parse that are long enough to hold their header are exact.\<close>

lemma parse_lengths:
  "f \<in> set (fst (parse_frames H flen bs)) \<Longrightarrow> H \<le> length f \<Longrightarrow> flen f = length f"
proof (induction "length bs" arbitrary: bs rule: less_induct)
  case less
  show ?case
  proof (cases "length bs < H \<or> flen bs = 0 \<or> length bs < flen bs")
    case True
    with less.prems show ?thesis by (simp add: parse_stuck)
  next
    case False
    with less.prems consider "f = take (flen bs) bs"
      | "f \<in> set (fst (parse_frames H flen (drop (flen bs) bs)))" by (auto simp: parse_Cons)
    then show ?thesis
    proof cases
      case 1
      with False less.prems(2) show ?thesis
        using flen_append [of f "drop (flen bs) bs"] by simp
    next
      case 2
      moreover have "length (drop (flen bs) bs) < length bs" using False by auto
      ultimately show ?thesis using less.hyps less.prems(2) by blast
    qed
  qed
qed

text \<open>A concatenation of exact frames is cut into just these frames.\<close>

lemma parse_frame_Cons:
  assumes "H \<le> length f" and "flen f = length f" and "0 < length f"
  shows "parse_frames H flen (f @ bs) =
    (f # fst (parse_frames H flen bs), snd (parse_frames H flen bs))"
  using assms by (simp add: parse_Cons flen_append)

lemma parse_exact:
  assumes "\<And>f. f \<in> set fs \<Longrightarrow> H \<le> length f \<and> flen f = length f \<and> 0 < length f" and "0 < H"
  shows "parse_frames H flen (concat fs) = (fs, [])"
  using assms(1)
proof (induction fs)
  case Nil
  then show ?case using assms(2) by (simp add: parse_stuck)
next
  case (Cons f fs)
  then show ?case by (simp add: parse_frame_Cons)
qed

lemma fit_exact:
  assumes "\<And>f. f \<in> set fs \<Longrightarrow> H \<le> length f \<and> flen f = length f \<and> length f \<le> N" and "0 < H"
  shows "frames_fit H flen N (concat fs)"
  using assms(1)
proof (induction fs)
  case Nil
  then show ?case using assms(2) by (simp add: frames_fit.simps)
next
  case (Cons f fs)
  from Cons.prems have f: "H \<le> length f" "flen f = length f" "length f \<le> N" by auto
  from Cons have IH: "frames_fit H flen N (concat fs)" by simp
  show ?case by (subst frames_fit.simps) (use f IH in \<open>auto simp: flen_append\<close>)
qed

end

end
