(* ===== verification/Simple_Proto.thy ===== *)
theory Simple_Proto
  imports Framing
begin

text \<open>
  The simple worker protocol of src/shared: \<open>handle_simple_message\<close> cuts the read buffer into
  messages with a 4-byte length prefix, and \<open>simple_worker_proto_handler\<close> keeps the buffer,
  the offset of the bytes left over and the bytes still to be skipped between two reads.
  The main lemma is that, as long as no message is longer than the buffer, a handler fed any
  chunks of a stream delivers exactly the messages of the stream.
\<close>

section \<open>handle_simple_message\<close>

definition simple_message_header_length :: nat where
  "simple_message_header_length = 4"

definition memmove_front :: "bytes \<Rightarrow> nat \<Rightarrow> nat \<Rightarrow> bytes" where
  "memmove_front buf begin n = take n (drop begin buf) @ drop n buf"

text \<open>
  The loop of the function. \<open>N\<close> is \<open>buffer_size\<close>, \<open>begin\<close> an index into \<open>buf\<close>. The result is
  the payloads given to the handler, the buffer, and the returned pair. The second component of
  the pair is a \<open>size_t\<close> made from a \<open>long long\<close> difference, so it wraps when that is negative.
\<close>

function simple_message_loop :: "nat \<Rightarrow> bytes \<Rightarrow> nat \<Rightarrow> nat \<Rightarrow> bytes list \<times> bytes \<times> nat \<times> nat" where
  "simple_message_loop N buf begin remaining =
     (if remaining = 0 then ([], buf, 0, 0)
      else if remaining < simple_message_header_length
      then ([], memmove_front buf begin remaining, remaining, 0)
      else (let length' = unat (get_be32 (drop begin buf));
                length_with_header = length' + simple_message_header_length in
        if N < length_with_header
        then ([], buf, 0, wrap_u64 (int length' - int remaining))
        else if remaining < length_with_header
        then ([], memmove_front buf begin remaining, remaining, 0)
        else (let (ps, r) = simple_message_loop N buf (begin + length_with_header)
                              (remaining - length_with_header) in
          (take length' (drop (begin + simple_message_header_length) buf) # ps, r))))"
  by pat_completeness auto
termination
  by (relation "measure (\<lambda>(N, buf, begin, remaining). remaining)")
    (auto simp: simple_message_header_length_def)

declare simple_message_loop.simps [simp del]

definition handle_simple_message ::
    "bytes \<Rightarrow> nat \<Rightarrow> nat \<Rightarrow> nat \<Rightarrow> nat \<Rightarrow> bytes list \<times> bytes \<times> nat \<times> nat" where
  "handle_simple_message buf transferred buffer_size last_remaining_size skipping_size =
     (if transferred < skipping_size then ([], buf, 0, skipping_size - transferred)
      else simple_message_loop buffer_size buf skipping_size
             (transferred - skipping_size + last_remaining_size))"

section \<open>The messages of a stream\<close>

definition simple_frame_length :: "bytes \<Rightarrow> nat" where
  "simple_frame_length bs = unat (get_be32 bs) + 4"

definition simple_frame :: "bytes \<Rightarrow> bytes" where
  "simple_frame payload = put_be32 (word_of_nat (length payload)) @ payload"

abbreviation simple_parse :: "bytes \<Rightarrow> bytes list \<times> bytes" where
  "simple_parse \<equiv> parse_frames 4 simple_frame_length"

abbreviation simple_fit :: "nat \<Rightarrow> bytes \<Rightarrow> bool" where
  "simple_fit \<equiv> frames_fit 4 simple_frame_length"

interpretation simple: framing 4 simple_frame_length
  by unfold_locales (simp add: simple_frame_length_def get_be32_take)

lemma simple_frame_length_pos [simp]: "0 < simple_frame_length bs"
  by (simp add: simple_frame_length_def)

lemma length_simple_frame: "length (simple_frame p) = length p + 4"
  by (simp add: simple_frame_def)

lemma simple_frame_length_frame:
  "length p < 2 ^ 32 \<Longrightarrow> simple_frame_length (simple_frame p @ r) = length p + 4"
  by (simp add: simple_frame_def simple_frame_length_def get_put_be32 unat_of_nat)

lemma drop_simple_frame [simp]: "drop 4 (simple_frame p) = p"
  by (simp add: simple_frame_def)

lemma memmove_front_take:
  assumes "begin + n \<le> length buf"
  shows "take n (memmove_front buf begin n) = take n (drop begin buf)"
    and "length (memmove_front buf begin n) = length buf"
  using assms by (simp_all add: memmove_front_def)

text \<open>
  What a call must return on the bytes \<open>bs\<close> of the stream it has in front of it: the payloads of
  the complete frames, the incomplete rest moved to the front, nothing to skip.
\<close>

definition delivers :: "nat \<Rightarrow> bytes \<Rightarrow> bytes list \<times> bytes \<times> nat \<times> nat \<Rightarrow> bool" where
  "delivers N bs res \<longleftrightarrow> (case res of (ps, buf', off, skip) \<Rightarrow>
     ps = map (drop 4) (fst (simple_parse bs)) \<and> off = length (snd (simple_parse bs))
       \<and> take (length (snd (simple_parse bs))) buf' = snd (simple_parse bs) \<and> skip = 0 \<and> length buf' = N)"

lemma delivers_rest:
  assumes "simple_parse (take n (drop b buf)) = ([], take n (drop b buf))" and "b + n \<le> length buf"
  shows "delivers (length buf) (take n (drop b buf)) ([], memmove_front buf b n, n, 0)"
  using assms memmove_front_take [OF assms(2)] by (simp add: delivers_def)

lemma simple_message_loop_delivers:
  assumes "begin + remaining \<le> length buf" and "length buf = N"
    and "simple_fit N (take remaining (drop begin buf))"
  shows "delivers N (take remaining (drop begin buf)) (simple_message_loop N buf begin remaining)"
  using assms
proof (induction N buf "begin" remaining rule: simple_message_loop.induct)
  case (1 N buf b rem)
  define seg where "seg = take rem (drop b buf)"
  have len: "length seg = rem" using "1.prems"(1) by (simp add: seg_def)
  define L where "L = unat (get_be32 (drop b buf))"
  note eq = simple_message_loop.simps [of N buf b rem, unfolded Let_def
      simple_message_header_length_def, folded L_def]
  note rest = delivers_rest [of rem b buf, OF _ "1.prems"(1), folded seg_def, unfolded "1.prems"(2)]
  consider (none) "rem = 0" | (short) "0 < rem" "rem < 4" | (header) "4 \<le> rem" by linarith
  then show ?case
  proof cases
    case none
    with "1.prems"(2) show ?thesis unfolding eq by (simp add: delivers_def parse_stuck)
  next
    case short
    then have "simple_parse seg = ([], seg)" by (simp add: parse_stuck len)
    from rest [OF this] short show ?thesis by (simp add: eq flip: seg_def)
  next
    case header
    have fl: "simple_frame_length seg = L + 4"
      using header by (simp add: simple_frame_length_def L_def seg_def get_be32_of_take)
    have fits: "L + 4 \<le> N"
      using fit_bound [OF "1.prems"(3)] header len by (simp add: fl flip: seg_def)
    show ?thesis
    proof (cases "rem < L + 4")
      case True
      then have "simple_parse seg = ([], seg)" by (simp add: parse_stuck len fl)
      from rest [OF this] header True fits show ?thesis by (simp add: eq flip: seg_def)
    next
      case False
      have seg': "take (rem - (L + 4)) (drop (b + (L + 4)) buf) = drop (L + 4) seg"
        by (simp add: seg_def drop_take add.commute)
      have parse: "simple_parse seg = (take (L + 4) seg # fst (simple_parse (drop (L + 4) seg)),
          snd (simple_parse (drop (L + 4) seg)))"
        using header False len by (simp add: parse_Cons fl)
      have "simple_fit N (drop (L + 4) seg)"
        using fit_drop [OF "1.prems"(3) [folded seg_def]] header False len by (simp add: fl)
      then have IH: "delivers N (drop (L + 4) seg)
          (simple_message_loop N buf (b + (L + 4)) (rem - (L + 4)))"
        using "1.IH" [OF _ _ refl refl] header False fits "1.prems"(1,2)
        by (simp add: simple_message_header_length_def seg' flip: L_def)
      have "take L (drop (b + 4) buf) = drop 4 (take (L + 4) seg)"
        using False by (simp add: seg_def drop_take min_def add.commute)
      with IH parse header False fits show ?thesis
        by (simp add: eq delivers_def case_prod_beta flip: seg_def)
    qed
  qed
qed

lemma handle_simple_message_delivers:
  assumes "offset + transferred \<le> length buf" and "length buf = N"
    and "simple_fit N (take (offset + transferred) buf)"
  shows "delivers N (take (offset + transferred) buf)
    (handle_simple_message buf transferred N offset 0)"
  using simple_message_loop_delivers [of 0 "transferred + offset" buf N] assms
  by (simp add: handle_simple_message_def add.commute)

section \<open>simple_worker_proto_handler\<close>

text \<open>
  The object: its read buffer, the offset and the skip count of the last call, the socket its
  weak pointer refers to. A receive completion is an error code (\<open>operation_aborted\<close> apart) or
  the bytes asio wrote at the offset; \<open>alive\<close> is what \<open>lock()\<close> of the weak pointer finds.
\<close>

record proto_handler =
  read_buffer :: bytes
  read_buffer_size :: nat
  read_buffer_offset :: nat
  skipping_bytes :: nat
  ph_socket :: "nat option"
  ph_reading :: "nat option"

datatype receive_result = Receive_aborted | Receive_error | Received bytes

datatype proto_output = Message bytes | Close_handler_called | Socket_cancelled nat

definition new_proto_handler :: "bytes \<Rightarrow> nat option \<Rightarrow> proto_handler" where
  "new_proto_handler buf socket =
     \<lparr>read_buffer = buf, read_buffer_size = length buf, read_buffer_offset = 0,
      skipping_bytes = 0, ph_socket = socket, ph_reading = None\<rparr>"

definition start_async_read :: "bool \<Rightarrow> proto_handler \<Rightarrow> proto_handler" where
  "start_async_read alive h = (if ph_socket h = None \<or> \<not> alive then h
     else h\<lparr>ph_reading := ph_socket h\<rparr>)"

definition reset_proto_handler :: "bool \<Rightarrow> nat option \<Rightarrow> proto_handler \<Rightarrow> proto_handler \<times> proto_output list" where
  "reset_proto_handler old_alive socket h =
     (start_async_read True (h\<lparr>ph_socket := socket\<rparr>),
      (case ph_socket h of Some old \<Rightarrow> if old_alive then [Socket_cancelled old] else []
       | None \<Rightarrow> []))"

definition write_received :: "bytes \<Rightarrow> proto_handler \<Rightarrow> bytes" where
  "write_received chunk h =
     take (read_buffer_offset h) (read_buffer h) @ chunk
       @ drop (read_buffer_offset h + length chunk) (read_buffer h)"

definition on_receive :: "bool \<Rightarrow> receive_result \<Rightarrow> proto_handler \<Rightarrow> proto_handler \<times> proto_output list" where
  "on_receive alive r h =
     (case r of
        Receive_aborted \<Rightarrow> (h\<lparr>ph_socket := None, ph_reading := None\<rparr>, [])
      | Receive_error \<Rightarrow> (h\<lparr>ph_socket := None, ph_reading := None\<rparr>, [Close_handler_called])
      | Received chunk \<Rightarrow>
          (let (ps, buf, new_offset, new_skipping_bytes) =
             handle_simple_message (write_received chunk h) (length chunk) (read_buffer_size h)
               (read_buffer_offset h) (skipping_bytes h) in
           (start_async_read alive
              (h\<lparr>read_buffer := buf, read_buffer_offset := new_offset,
                 skipping_bytes := new_skipping_bytes, ph_reading := None\<rparr>),
            map Message ps)))"

text \<open>A read asks for the free part of the buffer, so a chunk is never longer than it.\<close>

fun receive_all :: "proto_handler \<Rightarrow> bytes list \<Rightarrow> proto_handler \<times> proto_output list" where
  "receive_all h [] = (h, [])"
| "receive_all h (c # cs) =
     (let (h', out) = on_receive True (Received c) h; (h'', out') = receive_all h' cs
      in (h'', out @ out'))"

fun chunks_fit :: "proto_handler \<Rightarrow> bytes list \<Rightarrow> bool" where
  "chunks_fit h [] \<longleftrightarrow> True"
| "chunks_fit h (c # cs) \<longleftrightarrow>
     read_buffer_offset h + length c \<le> read_buffer_size h
       \<and> chunks_fit (fst (on_receive True (Received c) h)) cs"

definition buffered :: "proto_handler \<Rightarrow> bytes" where
  "buffered h = take (read_buffer_offset h) (read_buffer h)"

definition handler_ok :: "proto_handler \<Rightarrow> bool" where
  "handler_ok h \<longleftrightarrow> length (read_buffer h) = read_buffer_size h
     \<and> read_buffer_offset h \<le> read_buffer_size h \<and> skipping_bytes h = 0
     \<and> fst (simple_parse (buffered h)) = []"

lemma start_async_read_buffer [simp]:
  "read_buffer (start_async_read a h) = read_buffer h"
  "read_buffer_size (start_async_read a h) = read_buffer_size h"
  "read_buffer_offset (start_async_read a h) = read_buffer_offset h"
  "skipping_bytes (start_async_read a h) = skipping_bytes h"
  "ph_socket (start_async_read a h) = ph_socket h"
  by (simp_all add: start_async_read_def)

lemma parse_of_rest: "fst (simple_parse (snd (simple_parse bs))) = []"
proof -
  have "snd (simple_parse bs) = snd (simple_parse (bs @ []))" by simp
  then show ?thesis using parse_rest_stuck [of 4 simple_frame_length bs]
    by (simp add: parse_stuck)
qed

lemma write_received_take:
  assumes "handler_ok h" and "read_buffer_offset h + length chunk \<le> read_buffer_size h"
  shows "take (read_buffer_offset h + length chunk) (write_received chunk h) = buffered h @ chunk"
    and "length (write_received chunk h) = read_buffer_size h"
  using assms by (simp_all add: write_received_def buffered_def handler_ok_def)

lemma on_receive_chunk:
  assumes ok: "handler_ok h" and fit: "read_buffer_offset h + length chunk \<le> read_buffer_size h"
    and small: "simple_fit (read_buffer_size h) (buffered h @ chunk)"
    and step: "on_receive alive (Received chunk) h = (h', out)"
  shows "handler_ok h' \<and> read_buffer_size h' = read_buffer_size h
    \<and> buffered h' = snd (simple_parse (buffered h @ chunk))
    \<and> out = map (Message \<circ> drop 4) (fst (simple_parse (buffered h @ chunk)))"
proof -
  obtain ps buf off skip where run:
    "handle_simple_message (write_received chunk h) (length chunk) (read_buffer_size h)
       (read_buffer_offset h) 0 = (ps, buf, off, skip)"
    by (metis prod_cases4)
  have "delivers (read_buffer_size h) (buffered h @ chunk) (ps, buf, off, skip)"
    using handle_simple_message_delivers [of "read_buffer_offset h" "length chunk"
        "write_received chunk h" "read_buffer_size h"] write_received_take [OF ok fit] fit small
    by (simp add: run)
  then have r: "ps = map (drop 4) (fst (simple_parse (buffered h @ chunk)))"
      "off = length (snd (simple_parse (buffered h @ chunk)))"
      "take off buf = snd (simple_parse (buffered h @ chunk))"
      "skip = 0" "length buf = read_buffer_size h"
    unfolding delivers_def prod.case by metis+
  from ok have "skipping_bytes h = 0" by (simp add: handler_ok_def)
  with step run have h': "h' = start_async_read alive (h\<lparr>read_buffer := buf, read_buffer_offset := off,
      skipping_bytes := skip, ph_reading := None\<rparr>)" and out: "out = map Message ps"
    by (simp_all add: on_receive_def)
  have "off \<le> length buf" using r(2,3) by (metis length_take min.absorb_iff2 min.commute)
  have buf': "buffered h' = snd (simple_parse (buffered h @ chunk))"
    using r(3) by (simp add: h' buffered_def)
  have "handler_ok h'" unfolding handler_ok_def buf'
    using r \<open>off \<le> length buf\<close> by (simp add: h' parse_of_rest)
  with buf' show ?thesis by (simp add: h' out r(1))
qed

lemma receive_all_parse:
  assumes "handler_ok h" and "chunks_fit h cs"
    and "simple_fit (read_buffer_size h) (buffered h @ concat cs)"
    and "receive_all h cs = (h', out)"
  shows "buffered h' = snd (simple_parse (buffered h @ concat cs))
    \<and> out = map (Message \<circ> drop 4) (fst (simple_parse (buffered h @ concat cs)))"
  using assms
proof (induction cs arbitrary: h h' out)
  case Nil
  then have "fst (simple_parse (buffered h)) = []" by (simp add: handler_ok_def)
  with parse_concat [of 4 simple_frame_length "buffered h"] Nil show ?case by simp
next
  case (Cons c cs)
  obtain h1 o1 where first: "on_receive True (Received c) h = (h1, o1)"
    by (cases "on_receive True (Received c) h")
  obtain h2 o2 where rest: "receive_all h1 cs = (h2, o2)"
    by (cases "receive_all h1 cs")
  have eq: "buffered h @ concat (c # cs) = (buffered h @ c) @ concat cs" by simp
  from Cons.prems(3) have small: "simple_fit (read_buffer_size h) (buffered h @ c)"
    unfolding eq by (rule simple.fit_append_left)
  from on_receive_chunk [OF Cons.prems(1) _ small first] Cons.prems(2)
  have h1: "handler_ok h1" "read_buffer_size h1 = read_buffer_size h"
      "buffered h1 = snd (simple_parse (buffered h @ c))"
      "o1 = map (Message \<circ> drop 4) (fst (simple_parse (buffered h @ c)))"
    by simp_all
  have "simple_fit (read_buffer_size h1) (buffered h1 @ concat cs)"
    using Cons.prems(3) unfolding eq h1(2,3) by (rule simple.fit_append_rest)
  moreover have "chunks_fit h1 cs" using Cons.prems(2) first by simp
  ultimately have "buffered h2 = snd (simple_parse (buffered h1 @ concat cs))"
    "o2 = map (Message \<circ> drop 4) (fst (simple_parse (buffered h1 @ concat cs)))"
    using Cons.IH [OF h1(1) _ _ rest] Cons.prems(4) first rest by simp_all
  with Cons.prems(4) first rest h1 show ?case
    unfolding eq by (subst (1 2) simple.parse_append) simp
qed

lemma new_proto_handler_ok: "handler_ok (new_proto_handler buf s)"
  by (simp add: handler_ok_def new_proto_handler_def buffered_def parse_stuck)


lemma concat_frames_parse:
  assumes "\<And>p. p \<in> set ps \<Longrightarrow> length p + 4 \<le> N" and "N < 2 ^ 32"
  shows "simple_parse (concat (map simple_frame ps)) = (map simple_frame ps, [])"
    and "simple_fit N (concat (map simple_frame ps))"
proof -
  have len: "simple_frame_length (simple_frame p) = length (simple_frame p)" if "p \<in> set ps" for p
    using assms(1) [OF that] assms(2) simple_frame_length_frame [of p "[]"]
    by (simp add: length_simple_frame)
  show "simple_parse (concat (map simple_frame ps)) = (map simple_frame ps, [])"
    by (rule simple.parse_exact) (auto simp: len length_simple_frame dest: arg_cong [where f = length])
  show "simple_fit N (concat (map simple_frame ps))"
    by (rule simple.fit_exact) (auto simp: len length_simple_frame assms)
qed

lemma stream_reassembly_lemma:
  assumes "\<And>p. p \<in> set ps \<Longrightarrow> length p + 4 \<le> length buf" and "length buf < 2 ^ 32"
    and "concat cs = concat (map simple_frame ps)"
    and "chunks_fit (new_proto_handler buf s) cs"
    and "receive_all (new_proto_handler buf s) cs = (h, out)"
  shows "out = map Message ps" and "buffered h = []"
proof -
  note parse = concat_frames_parse [of ps "length buf", OF assms(1,2)]
  have "buffered (new_proto_handler buf s) = []" "read_buffer_size (new_proto_handler buf s) = length buf"
    by (simp_all add: buffered_def new_proto_handler_def)
  with receive_all_parse [OF new_proto_handler_ok assms(4) _ assms(5)] parse
  show "out = map Message ps" "buffered h = []" by (simp_all add: assms(3) comp_def)
qed

end
