(* ===== verification/Simple_Proto_Props.thy ===== *)
theory Simple_Proto_Props
  imports Simple_Proto
begin

text \<open>
  The properties of the message readers of src/shared: reassembly of a chunked stream, room to
  read, and the two ways in which a reader loses its place in the stream.
\<close>

section \<open>Properties of the readers\<close>

text \<open>C3 Stream reassembly. Whatever chunks the socket delivers, a fresh handler whose buffer can
  hold every message gives its callback exactly the messages that were sent, in order, and is left
  with an empty buffer.\<close>

theorem stream_reassembly:
  assumes "\<And>p. p \<in> set ps \<Longrightarrow> length p + 4 \<le> length buf" and "length buf < 2 ^ 32"
    and "concat cs = concat (map simple_frame ps)"
    and "chunks_fit (new_proto_handler buf s) cs"
    and "receive_all (new_proto_handler buf s) cs = (h, out)"
  shows "out = map Message ps \<and> buffered h = []"
  using stream_reassembly_lemma [OF assms] by blast

theorem stream_reassembly_witness:
  "snd (receive_all (new_proto_handler (replicate 8 0) None)
     [[0, 0], [0, 2, 7], [8, 0, 0], [0, 1, 9]]) = [Message [7, 8], Message [9]]"
proof -
  let ?h = "new_proto_handler (replicate 8 0) None"
  let ?cs = "[[0, 0], [0, 2, 7], [8, 0, 0], [0, 1, 9]] :: bytes list"
  have fits: "chunks_fit ?h ?cs" by code_simp
  have conc: "concat ?cs = concat (map simple_frame [[7, 8], [9]])" by code_simp
  obtain h out where run: "receive_all ?h ?cs = (h, out)" by (cases "receive_all ?h ?cs")
  have "out = map Message [[7, 8], [9]] \<and> buffered h = []"
    by (rule stream_reassembly [OF _ _ conc fits run]) auto
  then show ?thesis unfolding run by simp
qed

text \<open>Room to read. After any chunk the offset of the next read is strictly below the buffer size,
  so the reader never asks the socket for zero bytes and a partial message can always be
  completed.\<close>

theorem read_space_left:
  assumes "handler_ok h" and "read_buffer_offset h + length c \<le> read_buffer_size h"
    and "simple_fit (read_buffer_size h) (buffered h @ c)" and "4 \<le> read_buffer_size h"
  shows "read_buffer_offset (fst (on_receive alive (Received c) h)) < read_buffer_size h"
proof -
  let ?r = "snd (simple_parse (buffered h @ c))"
  obtain h' out where step: "on_receive alive (Received c) h = (h', out)"
    by (cases "on_receive alive (Received c) h")
  from on_receive_chunk [OF assms(1-3) step] have h': "handler_ok h'" "buffered h' = ?r"
      "read_buffer_size h' = read_buffer_size h" by simp_all
  then have "read_buffer_offset h' = length ?r"
    by (metis buffered_def handler_ok_def length_take min.absorb_iff2 min.commute)
  moreover have "length ?r < read_buffer_size h"
    using parse_rest_stuck [of 4 simple_frame_length "buffered h @ c"]
      fit_bound [OF fit_rest [OF assms(3)]] assms(4) simple_frame_length_pos [of ?r] by linarith
  ultimately show ?thesis by (simp add: step)
qed

theorem read_space_left_witness:
  "read_buffer_offset (fst (on_receive True (Received [0, 0, 0, 2, 7]) (new_proto_handler (replicate 8 0) None))) < 8"
proof -
  let ?h = "new_proto_handler (replicate 8 0) None"
  have "buffered ?h = []" by code_simp
  moreover have "simple_fit 8 [0, 0, 0, 2, 7]" by code_simp
  moreover have "read_buffer_size ?h = 8" "read_buffer_offset ?h = 0"
    by (simp_all add: new_proto_handler_def)
  ultimately show ?thesis
    using read_space_left [of ?h "[0, 0, 0, 2, 7]" True, OF new_proto_handler_ok] by simp
qed

text \<open>Oversized messages. A message longer than the buffer is dropped, but the number of bytes
  the function asks to skip is four short of what is left of that message: the length prefix
  counts the payload only and the bytes already read include the prefix, so its last four bytes
  are later read as the length of the next message.\<close>

theorem oversize_skip_short:
  assumes "length bs = transferred" and "4 \<le> transferred" and "bs @ later = simple_frame p"
    and "length p < 2 ^ 32" and "N < length p + 4" and "transferred \<le> length p"
  shows "\<exists>skip. handle_simple_message (bs @ junk) transferred N 0 0 = ([], bs @ junk, 0, skip)
    \<and> length later = skip + 4"
proof -
  have "get_be32 (bs @ junk) = get_be32 (bs @ later)"
    using assms(1,2) by (simp add: get_be32_take)
  then have L: "unat (get_be32 (bs @ junk)) = length p"
    using assms(4) by (simp add: assms(3) simple_frame_def get_put_be32 unat_of_nat)
  have "length bs + length later = length p + 4"
    by (metis assms(3) length_append length_simple_frame)
  moreover have "wrap_u64 (int (length p) - int transferred) = length p - transferred"
    using assms(4,6) by (subst wrap_u64_id) auto
  ultimately show ?thesis using assms L
    by (simp add: handle_simple_message_def simple_message_loop.simps [of N "bs @ junk" 0 transferred]
        simple_message_header_length_def)
qed

theorem oversize_skip_short_witness:
  "(\<exists>skip. handle_simple_message ([0, 0, 0, 6, 1, 1] @ []) 6 8 0 0 = ([], [0, 0, 0, 6, 1, 1] @ [], 0, skip)
     \<and> length [1, 1, 0, 0 :: byte] = skip + 4)
   \<and> snd (receive_all (new_proto_handler (replicate 8 0) None)
       [[0, 0, 0, 6, 1, 1], [1, 1, 0, 0], [0, 0, 0, 1, 5]]) = []"
proof
  have frame: "[0, 0, 0, 6, 1, 1] @ [1, 1, 0, 0] = simple_frame [1, 1, 1, 1, 0, 0]"
    by code_simp
  show "\<exists>skip. handle_simple_message ([0, 0, 0, 6, 1, 1] @ []) 6 8 0 0 = ([], [0, 0, 0, 6, 1, 1] @ [], 0, skip)
     \<and> length [1, 1, 0, 0 :: byte] = skip + 4"
    by (rule oversize_skip_short [OF _ _ frame]) simp_all
  show "snd (receive_all (new_proto_handler (replicate 8 0) None)
       [[0, 0, 0, 6, 1, 1], [1, 1, 0, 0], [0, 0, 0, 1, 5]]) = []"
    by code_simp
qed

text \<open>Reconnection. \<open>reset\<close> after a lost connection keeps the bytes of the message that was
  incomplete on the old connection: the first bytes of the new one are read as its continuation.\<close>

theorem reset_keeps_partial_message:
  assumes "handler_ok h" and "read_buffer_offset h + length c \<le> read_buffer_size h"
    and "simple_fit (read_buffer_size h) (buffered h @ c)"
  shows "snd (on_receive True (Received c)
      (fst (reset_proto_handler old_alive (Some s) (fst (on_receive alive Receive_error h)))))
    = map (Message \<circ> drop 4) (fst (simple_parse (buffered h @ c)))"
proof -
  let ?h = "fst (reset_proto_handler old_alive (Some s) (fst (on_receive alive Receive_error h)))"
  have same: "buffered ?h = buffered h" "read_buffer_size ?h = read_buffer_size h"
      "read_buffer_offset ?h = read_buffer_offset h"
    by (simp_all add: reset_proto_handler_def on_receive_def buffered_def)
  have "handler_ok ?h" using assms(1)
    by (simp add: reset_proto_handler_def on_receive_def handler_ok_def buffered_def)
  moreover obtain h' out where "on_receive True (Received c) ?h = (h', out)"
    by (cases "on_receive True (Received c) ?h")
  ultimately show ?thesis using on_receive_chunk [of ?h c True h' out] assms(2,3) same by simp
qed

definition partly_read :: proto_handler where
  "partly_read = fst (on_receive True (Received [0, 0, 0, 5, 7]) (new_proto_handler (replicate 16 0) (Some 1)))"

theorem reset_keeps_partial_message_witness:
  "snd (on_receive True (Received (simple_frame [5, 6]))
      (fst (reset_proto_handler False (Some 2) (fst (on_receive True Receive_error partly_read)))))
    = [Message [7, 0, 0, 0, 2]]"
proof -
  have "handler_ok partly_read" by code_simp
  moreover have "read_buffer_offset partly_read + length (simple_frame [5, 6]) \<le> read_buffer_size partly_read"
    by code_simp
  moreover have "simple_fit (read_buffer_size partly_read) (buffered partly_read @ simple_frame [5, 6])"
    by code_simp
  ultimately show ?thesis
    using reset_keeps_partial_message [of partly_read "simple_frame [5, 6]" False 2 True] by code_simp
qed

end
