(* ===== verification/Proto_Packets.thy ===== *)
theory Proto_Packets
  imports Simple_Proto "HOL-Library.Monad_Syntax"
begin

text \<open>
  The packets that worker and supervisor exchange: the generators of both programs
  (src/worker and src/supervisor \<open>simple_worker_proto_generator\<close>), the reading of a packet in
  \<open>supervisor_session::on_supervisor_message\<close>, and the field reads of the supervisor's
  \<open>scheduler_session::handle_buffer\<close>. A generator writes into a buffer it has just allocated;
  the buffer's initial contents are the parameter \<open>mem\<close> and a write past its end is \<open>None\<close>.
\<close>

type_synonym room_id = "32 word"
type_synonym checksum = "32 word"

definition routing_key_max_size :: nat where "routing_key_max_size = 32"
definition auth_code_size :: nat where "auth_code_size = 32"

definition worker_ready_code :: byte where "worker_ready_code = 1"
definition room_failed_code :: byte where "room_failed_code = 2"
definition worker_data_code :: byte where "worker_data_code = 0"
definition assign_room_code :: byte where "assign_room_code = ucast (0x10000001 :: 32 word)"
definition unassign_room_code :: byte where "unassign_room_code = ucast (0x10000002 :: 32 word)"

definition crc_32_length :: nat where "crc_32_length = 4"
definition room_id_length :: nat where "room_id_length = 4"
definition worker_ready_payload_length :: nat where
  "worker_ready_payload_length = 1 + room_id_length + auth_code_size"
definition room_failed_payload_length :: nat where
  "room_failed_payload_length = 1 + room_id_length"
definition assign_unassign_payload_length :: nat where
  "assign_unassign_payload_length = 1 + room_id_length"
definition worker_data_payload_header_length :: nat where
  "worker_data_payload_header_length = 1 + room_id_length + crc_32_length + routing_key_max_size"

lemmas proto_lengths = routing_key_max_size_def auth_code_size_def crc_32_length_def
  room_id_length_def worker_ready_payload_length_def room_failed_payload_length_def
  assign_unassign_payload_length_def worker_data_payload_header_length_def
  simple_message_header_length_def

lemmas op_codes = worker_ready_code_def room_failed_code_def worker_data_code_def
  assign_room_code_def unassign_room_code_def

section \<open>Generators of the worker\<close>

definition new_buffer :: "(nat \<Rightarrow> byte) \<Rightarrow> nat \<Rightarrow> bytes" where
  "new_buffer mem n = map mem [0..<n]"

definition generate_room_basic_packet :: "(nat \<Rightarrow> byte) \<Rightarrow> 32 word \<Rightarrow> nat \<Rightarrow> bytes option" where
  "generate_room_basic_packet mem room_place payload_size =
     do { p \<leftarrow> poke 0 (put_be32 (word_of_nat payload_size))
                (new_buffer mem (simple_message_header_length + payload_size));
          poke (simple_message_header_length + 1) (put_be32 room_place) p }"

definition generate_room_failed_packet :: "(nat \<Rightarrow> byte) \<Rightarrow> room_id \<Rightarrow> bytes option" where
  "generate_room_failed_packet mem room_id =
     do { p \<leftarrow> generate_room_basic_packet mem room_id room_failed_payload_length;
          poke simple_message_header_length [room_failed_code] p }"

definition generate_worker_ready_packet :: "(nat \<Rightarrow> byte) \<Rightarrow> 32 word \<Rightarrow> bytes \<Rightarrow> bytes option" where
  "generate_worker_ready_packet mem max_rooms auth_code =
     do { p \<leftarrow> generate_room_basic_packet mem max_rooms worker_ready_payload_length;
          p \<leftarrow> poke simple_message_header_length [worker_ready_code] p;
          p \<leftarrow> poke (simple_message_header_length + 5) (replicate auth_code_size 0) p;
          poke (simple_message_header_length + 5) auth_code p }"

text \<open>A message as the generator sees it: \<open>crc32\<close>, the whole key array, the bytes \<open>write\<close> makes.\<close>

record borrowed_message =
  bm_crc32 :: checksum
  bm_routing_key :: bytes
  bm_body :: bytes

definition generate_worker_data_packet :: "(nat \<Rightarrow> byte) \<Rightarrow> room_id \<Rightarrow> borrowed_message \<Rightarrow> bytes option" where
  "generate_worker_data_packet mem room_id msg =
     (let payload_length = worker_data_payload_header_length + length (bm_body msg);
          packet_length = simple_message_header_length + payload_length;
          ptr1 = simple_message_header_length; ptr2 = ptr1 + 1; ptr3 = ptr2 + room_id_length;
          ptr4 = ptr3 + crc_32_length; ptr5 = ptr4 + routing_key_max_size in
      do { p \<leftarrow> poke 0 (put_be32 (word_of_nat payload_length)) (new_buffer mem packet_length);
           p \<leftarrow> poke ptr1 [worker_data_code] p;
           p \<leftarrow> poke ptr2 (put_be32 room_id) p;
           p \<leftarrow> poke ptr3 (put_be32 (bm_crc32 msg)) p;
           p \<leftarrow> poke ptr4 (take routing_key_max_size (bm_routing_key msg)) p;
           poke ptr5 (bm_body msg) p })"

section \<open>Generators of the supervisor\<close>

text \<open>
  The supervisor stores through a pointer to \<open>unsigned long\<close>, \<open>ulong\<close> bytes wide: 4 on Windows,
  8 on 64-bit Unix (little-endian), where the 32-bit value is widened with zeros.
\<close>

definition store_ulong :: "nat \<Rightarrow> nat \<Rightarrow> 32 word \<Rightarrow> bytes \<Rightarrow> bytes option" where
  "store_ulong ulong off w buf = poke off (put_be32 w @ replicate (ulong - 4) 0) buf"

definition generate_assign_unassign_base_packet ::
    "nat \<Rightarrow> (nat \<Rightarrow> byte) \<Rightarrow> room_id \<Rightarrow> bytes option" where
  "generate_assign_unassign_base_packet ulong mem room_id =
     do { p \<leftarrow> store_ulong ulong 0 (word_of_nat assign_unassign_payload_length)
                (new_buffer mem (simple_message_header_length + assign_unassign_payload_length));
          store_ulong ulong (simple_message_header_length + 1) room_id p }"

definition generate_assign_packet :: "nat \<Rightarrow> (nat \<Rightarrow> byte) \<Rightarrow> room_id \<Rightarrow> bytes option" where
  "generate_assign_packet ulong mem room_id =
     do { p \<leftarrow> generate_assign_unassign_base_packet ulong mem room_id;
          poke simple_message_header_length [assign_room_code] p }"

definition generate_unassign_packet :: "nat \<Rightarrow> (nat \<Rightarrow> byte) \<Rightarrow> room_id \<Rightarrow> bytes option" where
  "generate_unassign_packet ulong mem room_id =
     do { p \<leftarrow> generate_assign_unassign_base_packet ulong mem room_id;
          poke simple_message_header_length [unassign_room_code] p }"

section \<open>Readers\<close>

datatype room_operation = Open_connection room_id | Close_connection room_id

definition on_supervisor_message :: "bytes \<Rightarrow> room_operation option" where
  "on_supervisor_message msg =
     (if length msg < assign_unassign_payload_length then None
      else let op_code = hd msg; room_id = get_be32 (drop 1 msg) in
        if op_code = assign_room_code then Some (Open_connection room_id)
        else if op_code = unassign_room_code then Some (Close_connection room_id)
        else None)"

definition payload_op_code :: "bytes \<Rightarrow> byte" where
  "payload_op_code payload = hd payload"

definition payload_room_id :: "bytes \<Rightarrow> room_id" where
  "payload_room_id payload = get_be32 (drop 1 payload)"

definition payload_crc32 :: "endian \<Rightarrow> bytes \<Rightarrow> checksum" where
  "payload_crc32 e payload = load_host32 e (drop 5 payload)"

definition payload_routing_key :: "bytes \<Rightarrow> bytes" where
  "payload_routing_key payload =
     take (strnlen (drop 9 payload) routing_key_max_size) (drop 9 payload)"

definition payload_data :: "bytes \<Rightarrow> bytes" where
  "payload_data payload = drop worker_data_payload_header_length payload"

definition auth_accepted :: "bytes \<Rightarrow> bytes \<Rightarrow> bool" where
  "auth_accepted auth_code payload \<longleftrightarrow>
     worker_ready_payload_length \<le> length payload
       \<and> strncmp_eq auth_code (drop 5 payload) auth_code_size"

section \<open>What the generators write\<close>

lemma length_new_buffer [simp]: "length (new_buffer mem n) = n"
  by (simp add: new_buffer_def)

lemma poke_poke_cover:
  assumes "length buf = length pre + length bs + length post"
  shows "\<exists>r. poke (length pre) bs buf = Some (take (length pre) buf @ bs @ r) \<and> length r = length post"
  using assms by (simp add: poke_def)

text \<open>A store just behind a known prefix extends the prefix.\<close>

definition has_prefix :: "nat \<Rightarrow> bytes \<Rightarrow> bytes option \<Rightarrow> bool" where
  "has_prefix n pre r \<longleftrightarrow> (\<exists>junk. r = Some (pre @ junk) \<and> length (pre @ junk) = n)"

lemma has_prefix_buffer: "has_prefix n [] (Some (new_buffer mem n))"
  by (simp add: has_prefix_def)

lemma has_prefix_poke:
  assumes "has_prefix n pre r" and "off = length pre" and "off + length bs \<le> n"
  shows "has_prefix n (pre @ bs) (r \<bind> poke off bs)"
  using assms by (auto simp: has_prefix_def poke_def)

lemma has_prefix_all: "has_prefix (length pre) pre r \<Longrightarrow> r = Some pre"
  by (auto simp: has_prefix_def)

lemma poke_past_end: "has_prefix n pre r \<Longrightarrow> n < off + length bs \<Longrightarrow> (r \<bind> poke off bs) = None"
  by (auto simp: has_prefix_def poke_def)

lemma poke_inside: "off + length bs \<le> length buf \<Longrightarrow>
    poke off bs buf = Some (take off buf @ bs @ drop (off + length bs) buf)"
  by (simp add: poke_def)

text \<open>The base packets of the worker leave one byte, the operation code, to be written.\<close>

lemma basic_packet:
  assumes "5 \<le> n"
  shows "\<exists>op tl. generate_room_basic_packet mem room n
    = Some (put_be32 (word_of_nat n) @ [op] @ put_be32 room @ tl) \<and> length tl = n - 5"
proof -
  define rest where "rest = drop 4 (new_buffer mem (4 + n))"
  have "length rest = n" by (simp add: rest_def)
  then obtain op where "take 1 rest = [op]"
    using assms by (cases rest) auto
  moreover have "generate_room_basic_packet mem room n
    = Some (put_be32 (word_of_nat n) @ take 1 rest @ put_be32 room @ drop 5 rest)"
    by (use assms in \<open>simp add: generate_room_basic_packet_def simple_message_header_length_def
        poke_def rest_def\<close>)
  ultimately show ?thesis using \<open>length rest = n\<close> by auto
qed

lemma room_failed_packet:
  "generate_room_failed_packet mem room = Some (simple_frame (room_failed_code # put_be32 room))"
proof -
  obtain op tl where "generate_room_basic_packet mem room 5
      = Some (put_be32 (word_of_nat 5) @ [op] @ put_be32 room @ tl)" "length tl = 0"
    using basic_packet [of 5 mem room] by auto
  then show ?thesis
    by (simp add: generate_room_failed_packet_def proto_lengths poke_def simple_frame_def)
qed

lemma worker_ready_packet:
  "generate_worker_ready_packet mem max_rooms auth =
     (if length auth \<le> 32
      then Some (simple_frame (worker_ready_code # put_be32 max_rooms @ zero_padded 32 auth)) else None)"
proof -
  obtain op tl where base: "generate_room_basic_packet mem max_rooms 37
      = Some (put_be32 (word_of_nat 37) @ [op] @ put_be32 max_rooms @ tl)" and "length tl = 32"
    using basic_packet [of 37 mem max_rooms] by auto
  moreover have "drop (5 + length auth) (worker_ready_code # put_be32 max_rooms @ replicate 32 0)
      = replicate (32 - length auth) 0"
    by (simp add: drop_Cons')
  ultimately show ?thesis
    by (simp add: generate_worker_ready_packet_def proto_lengths poke_def simple_frame_def
        zero_padded_def)
qed

lemma worker_data_packet:
  assumes "length (bm_routing_key msg) = 32"
  shows "generate_worker_data_packet mem room msg =
    Some (simple_frame (worker_data_code # put_be32 room @ put_be32 (bm_crc32 msg)
            @ bm_routing_key msg @ bm_body msg))"
  using assms
  by (simp add: generate_worker_data_packet_def proto_lengths poke_def simple_frame_def Let_def
      add.commute add.left_commute)

lemma assign_packets:
  shows "generate_assign_packet 4 mem room = Some (simple_frame (assign_room_code # put_be32 room))"
    and "generate_unassign_packet 4 mem room = Some (simple_frame (unassign_room_code # put_be32 room))"
  by (simp_all add: generate_assign_packet_def generate_unassign_packet_def proto_lengths
      generate_assign_unassign_base_packet_def store_ulong_def poke_def simple_frame_def)

lemma assign_packets_wide_ulong:
  shows "generate_assign_packet 8 mem room = None"
    and "generate_unassign_packet 8 mem room = None"
  by (simp_all add: generate_assign_packet_def generate_unassign_packet_def proto_lengths
      generate_assign_unassign_base_packet_def store_ulong_def poke_def)

definition supervisor_payload :: "room_operation \<Rightarrow> bytes" where
  "supervisor_payload op = (case op of
     Open_connection r \<Rightarrow> assign_room_code # put_be32 r
   | Close_connection r \<Rightarrow> unassign_room_code # put_be32 r)"

interpretation supervisor_message: codec supervisor_payload on_supervisor_message "\<lambda>_. True"
  by unfold_locales (auto simp: supervisor_payload_def on_supervisor_message_def proto_lengths
      op_codes wire_simps split: room_operation.split)

end
