(* ===== verification/Proto_Packets_Props.thy ===== *)
theory Proto_Packets_Props
  imports Proto_Packets
begin

text \<open>
  The properties of the packets: what one side writes, the other reads back, through the stream
  reader and at the byte level, and the writes that run past their buffer.
\<close>

definition generate_operation :: "nat \<Rightarrow> (nat \<Rightarrow> byte) \<Rightarrow> room_operation \<Rightarrow> bytes option" where
  "generate_operation ulong mem op = (case op of
     Open_connection r \<Rightarrow> generate_assign_packet ulong mem r
   | Close_connection r \<Rightarrow> generate_unassign_packet ulong mem r)"

definition executed :: "proto_output \<Rightarrow> room_operation option" where
  "executed out = (case out of Message m \<Rightarrow> on_supervisor_message m | _ \<Rightarrow> None)"

lemma generate_operation_frame:
  "generate_operation 4 mem op = Some (simple_frame (supervisor_payload op))"
  by (cases op) (simp_all add: generate_operation_def assign_packets supervisor_payload_def)

lemma length_supervisor_payload: "length (supervisor_payload op) = 5"
  by (cases op) (simp_all add: supervisor_payload_def)

text \<open>Room operations. With a 4-byte \<open>unsigned long\<close>, the packets the supervisor generates for any
  sequence of assignments and unassignments make the worker execute exactly these operations, in
  order, however the stream is cut into chunks.\<close>

theorem operations_reach_worker:
  assumes "list_all2 (\<lambda>op p. generate_operation 4 mem op = Some p) ops packets"
    and "9 \<le> length buf" and "length buf < 2 ^ 32" and "concat cs = concat packets"
    and "chunks_fit (new_proto_handler buf s) cs"
    and "receive_all (new_proto_handler buf s) cs = (h, out)"
  shows "map executed out = map Some ops"
proof -
  have "packets = map simple_frame (map supervisor_payload ops)"
    using assms(1) by (induction) (simp_all add: generate_operation_frame)
  with assms(4) have "concat cs = concat (map simple_frame (map supervisor_payload ops))" by simp
  moreover have "\<And>p. p \<in> set (map supervisor_payload ops) \<Longrightarrow> length p + 4 \<le> length buf"
    using assms(2) by (auto simp: length_supervisor_payload)
  ultimately have "out = map Message (map supervisor_payload ops)"
    using stream_reassembly_lemma(1) [OF _ assms(3) _ assms(5,6)] by blast
  then show ?thesis by (simp add: executed_def supervisor_message.dec_enc_alone)
qed

theorem operations_reach_worker_witness:
  "map executed (snd (receive_all (new_proto_handler (replicate 12 0) None)
     [[0, 0, 0, 5, 1, 0, 0], [2, 3, 0], [0, 0, 5, 2, 0, 0, 2, 3]]))
   = [Some (Open_connection 515), Some (Close_connection 515)]"
proof -
  let ?h = "new_proto_handler (replicate 12 0) None"
  let ?cs = "[[0, 0, 0, 5, 1, 0, 0], [2, 3, 0], [0, 0, 5, 2, 0, 0, 2, 3]] :: bytes list"
  let ?ops = "[Open_connection 515, Close_connection 515]"
  let ?packets = "[[0, 0, 0, 5, 1, 0, 0, 2, 3], [0, 0, 0, 5, 2, 0, 0, 2, 3]] :: bytes list"
  have packets: "list_all2 (\<lambda>op p. generate_operation 4 (\<lambda>_. 0) op = Some p) ?ops ?packets"
    by code_simp
  have fits: "chunks_fit ?h ?cs" by code_simp
  have conc: "concat ?cs = concat ?packets" by simp
  obtain h out where run: "receive_all ?h ?cs = (h, out)" by (cases "receive_all ?h ?cs")
  have "map executed out = map Some ?ops"
    by (rule operations_reach_worker [OF packets _ _ conc fits run]) simp_all
  then show ?thesis unfolding run by simp
qed

text \<open>C12 Data packets. From the packet a worker generates for a message, the supervisor reads the
  operation code, the room, the text of the routing key and the body of that message; the checksum
  it reads is the worker's in host order (reversed on a little-endian host, since it is stored in
  network order and loaded without conversion), it is zero exactly when the worker's is, and
  different checksums stay different.\<close>

theorem worker_data_read_back:
  assumes "length (bm_routing_key msg) = 32"
  shows "\<exists>payload. generate_worker_data_packet mem room msg = Some (simple_frame payload)
    \<and> worker_data_payload_header_length \<le> length payload
    \<and> payload_op_code payload = worker_data_code
    \<and> payload_room_id payload = room
    \<and> payload_crc32 e payload = host_view e (bm_crc32 msg)
    \<and> (payload_crc32 e payload = 0 \<longleftrightarrow> bm_crc32 msg = 0)
    \<and> inj (host_view e)
    \<and> payload_routing_key payload = takeWhile (\<lambda>b. b \<noteq> 0) (bm_routing_key msg)
    \<and> payload_data payload = bm_body msg"
proof -
  let ?p = "worker_data_code # put_be32 room @ put_be32 (bm_crc32 msg) @ bm_routing_key msg @ bm_body msg"
  have key: "drop 9 ?p = bm_routing_key msg @ bm_body msg" by simp
  have "payload_crc32 e ?p = host_view e (bm_crc32 msg)"
    by (simp add: payload_crc32_def load_host32_put)
  moreover have "payload_routing_key ?p = takeWhile (\<lambda>b. b \<noteq> 0) (bm_routing_key msg)"
    unfolding payload_routing_key_def key using assms
    by (simp only: routing_key_max_size_def take_strnlen [OF assms])
  moreover have "inj (host_view e)" by (simp add: inj_def host_view_inject)
  ultimately show ?thesis
    by (intro exI [of _ ?p])
      (simp add: worker_data_packet [OF assms] assms payload_op_code_def payload_room_id_def
        payload_data_def proto_lengths host_view_zero wire_simps)
qed

definition sample_message :: borrowed_message where
  "sample_message = \<lparr>bm_crc32 = 258, bm_routing_key = zero_padded 32 [98, 108, 118], bm_body = [1, 2]\<rparr>"

theorem worker_data_read_back_witness:
  "\<exists>payload. generate_worker_data_packet (\<lambda>_. 0) 7 sample_message = Some (simple_frame payload)
    \<and> payload_crc32 Little_endian payload = 0x02010000
    \<and> payload_routing_key payload = [98, 108, 118] \<and> payload_data payload = [1, 2]"
proof -
  have "length (bm_routing_key sample_message) = 32" by code_simp
  from worker_data_read_back [OF this, of "\<lambda>_. 0" 7 Little_endian]
  obtain payload where p: "generate_worker_data_packet (\<lambda>_. 0) 7 sample_message = Some (simple_frame payload)"
    "payload_crc32 Little_endian payload = host_view Little_endian (bm_crc32 sample_message)"
    "payload_routing_key payload = takeWhile (\<lambda>b. b \<noteq> 0) (bm_routing_key sample_message)"
    "payload_data payload = bm_body sample_message" by blast
  moreover have "host_view Little_endian (bm_crc32 sample_message) = 0x02010000" by code_simp
  moreover have "takeWhile (\<lambda>b. b \<noteq> 0) (bm_routing_key sample_message) = [98, 108, 118]" by code_simp
  moreover have "bm_body sample_message = [1, 2]" by code_simp
  ultimately show ?thesis by auto
qed

text \<open>C13 Authentication. The ready packet of a worker whose code has at most 32 bytes, none of them
  zero, is accepted by a supervisor with such a code exactly when the codes are equal; the
  supervisor then reads the worker's room limit from it.\<close>

theorem ready_packet_accepted_iff:
  assumes "0 \<notin> set worker_code" and "length worker_code \<le> 32"
    and "0 \<notin> set auth_code" and "length auth_code \<le> 32"
  shows "\<exists>payload. generate_worker_ready_packet mem max_rooms worker_code = Some (simple_frame payload)
    \<and> payload_op_code payload = worker_ready_code \<and> payload_room_id payload = max_rooms
    \<and> (auth_accepted (zero_padded 33 auth_code) payload \<longleftrightarrow> worker_code = auth_code)"
proof -
  let ?p = "worker_ready_code # put_be32 max_rooms @ zero_padded 32 worker_code"
  have pad: "zero_padded 33 auth_code = zero_padded 32 auth_code @ [0]"
  proof -
    have "33 - length auth_code = Suc (32 - length auth_code)" using assms(4) by simp
    then show ?thesis by (simp add: zero_padded_def replicate_append_same)
  qed
  have "auth_accepted (zero_padded 33 auth_code) ?p \<longleftrightarrow> worker_code = auth_code"
    using strncmp_zero_padded [of auth_code worker_code 32 "[0]" "[]"] assms
    by (auto simp: auth_accepted_def proto_lengths pad) (simp_all add: zero_padded_def)
  then show ?thesis
    using assms(2) by (intro exI [of _ ?p])
      (simp add: worker_ready_packet payload_op_code_def payload_room_id_def wire_simps)
qed

theorem ready_packet_accepted_iff_witness:
  "\<exists>payload. generate_worker_ready_packet (\<lambda>_. 9) 500 [97, 98] = Some (simple_frame payload)
    \<and> auth_accepted (zero_padded 33 [97, 98]) payload"
  using ready_packet_accepted_iff [of "[97, 98]" "[97, 98]" "\<lambda>_. 9" 500] by auto

text \<open>Buffer overruns of the generators. With an 8-byte \<open>unsigned long\<close> every assignment or
  unassignment packet is written past the end of its 9-byte buffer, whatever the room; and a
  worker writes past the end of its ready packet exactly when its code has more than 32 bytes.\<close>

theorem generators_overrun:
  "generate_operation 8 mem op = None
   \<and> (generate_worker_ready_packet mem max_rooms code = None \<longleftrightarrow> 32 < length code)"
  by (cases op) (simp_all add: generate_operation_def assign_packets_wide_ulong worker_ready_packet)

end
