(* ===== verification/Sched_Types.thy ===== *)
theory Sched_Types
  imports Proto_Packets
begin

text \<open>
  The data of the supervisor's scheduler (src/supervisor/worker_scheduler_types.h, the fields of
  \<open>scheduler_session\<close>, diagnostic_context) and its environment.

  Times are nanoseconds since the epoch. Every call of \<open>system_clock::now()\<close> reads the next value
  of \<open>system_clock\<close>; \<open>clock_reads\<close> counts the calls, so no two reads are assumed to be equal or
  ordered. The hash containers are third-party code: their iteration order is a parameter. A map is
  the list of its entries in iteration order; an insertion gives \<open>place_task\<close>, \<open>place_worker\<close>,
  \<open>place_room\<close> (any rearrangement of the old entries and the new one), the order of the tasks of
  one room in the room index is \<open>range_order\<close>, and \<open>shifts_back\<close> says whether erasing an entry of
  the worker map moves the next entry into the erased slot (robin-hood backward shift).
\<close>

type_synonym identifier_t = "64 word"
type_synonym time = int

definition seconds :: "int \<Rightarrow> time" where "seconds n = n * 1000000000"
definition milliseconds :: "int \<Rightarrow> time" where "milliseconds n = n * 1000000"
definition minutes :: "int \<Rightarrow> time" where "minutes n = n * 60000000000"

lemmas durations = seconds_def milliseconds_def minutes_def

record room_task =
  rt_identifier :: identifier_t
  rt_room_id :: room_id
  rt_last_received :: time

record worker_status =
  ws_identifier :: identifier_t
  ws_last_received :: time
  ws_initialized :: bool
  ws_max_rooms :: int
  ws_current_connections :: int
  ws_remaining_this_bunch :: int
  ws_allow_new_task_after :: time
  ws_punished :: bool

record room_status =
  rs_room_id :: room_id
  rs_active :: bool
  rs_last_empty_crc_received :: time
  rs_current_connections :: int

definition new_room_task :: "identifier_t \<Rightarrow> room_id \<Rightarrow> time \<Rightarrow> room_task" where
  "new_room_task i r now = \<lparr>rt_identifier = i, rt_room_id = r, rt_last_received = now\<rparr>"

definition new_worker_status :: "identifier_t \<Rightarrow> time \<Rightarrow> worker_status" where
  "new_worker_status i first_received =
     \<lparr>ws_identifier = i, ws_last_received = first_received, ws_initialized = False,
      ws_max_rooms = -1, ws_current_connections = 0, ws_remaining_this_bunch = 0,
      ws_allow_new_task_after = 0, ws_punished = False\<rparr>"

definition new_room_status :: "room_id \<Rightarrow> room_status" where
  "new_room_status r =
     \<lparr>rs_room_id = r, rs_active = True, rs_last_empty_crc_received = 0, rs_current_connections = 0\<rparr>"

type_synonym tasks_set = "room_task list"
type_synonym workers_map = "(identifier_t \<times> worker_status) list"
type_synonym rooms_map = "(room_id \<times> room_status) list"

abbreviation task_key :: "room_task \<Rightarrow> identifier_t \<times> room_id" where
  "task_key t \<equiv> (rt_identifier t, rt_room_id t)"

record diagnostics =
  dg_room_statuses :: "(room_id \<times> int) list"
  dg_worker_statuses :: "(identifier_t \<times> int \<times> int \<times> int) list"
  dg_tasks :: "(room_id \<times> identifier_t) list"
  dg_max_tasks_per_room :: int

datatype sched_output =
    Send_assign identifier_t room_id
  | Send_unassign identifier_t room_id
  | Disconnect_worker identifier_t
  | Worker_data checksum bytes bytes
  | Diagnostics diagnostics

record sched_config =
  worker_timeout_sec :: int
  min_check_interval_msec :: int
  worker_penalty_min :: int
  max_new_tasks_per_bunch :: int
  min_interval_popularity_sec :: int
  cfg_auth_code :: bytes

record sched_env = sched_config +
  system_clock :: "nat \<Rightarrow> time"
  place_task :: "tasks_set \<Rightarrow> room_task \<Rightarrow> tasks_set"
  place_worker :: "workers_map \<Rightarrow> identifier_t \<times> worker_status \<Rightarrow> workers_map"
  place_room :: "rooms_map \<Rightarrow> room_id \<times> room_status \<Rightarrow> rooms_map"
  range_order :: "tasks_set \<Rightarrow> tasks_set"
  shifts_back :: "workers_map \<Rightarrow> identifier_t \<Rightarrow> bool"
  tie_workers :: "(identifier_t \<times> int) list \<Rightarrow> (identifier_t \<times> int) list"
  tie_rooms :: "(room_id \<times> int) list \<Rightarrow> (room_id \<times> int) list"
  host_endian :: endian

record sched =
  tasks :: tasks_set
  rooms :: rooms_map
  workers :: workers_map
  last_checked :: time
  auth_code_field :: bytes
  clock_reads :: nat
  outputs :: "sched_output list"

text \<open>What the containers guarantee: an insertion adds one entry, a range is the entries asked for.\<close>

definition containers_ok :: "sched_env \<Rightarrow> bool" where
  "containers_ok env \<longleftrightarrow>
     (\<forall>ts t. mset (place_task env ts t) = add_mset t (mset ts))
   \<and> (\<forall>ws w. mset (place_worker env ws w) = add_mset w (mset ws))
   \<and> (\<forall>rs r. mset (place_room env rs r) = add_mset r (mset rs))
   \<and> (\<forall>ts. mset (range_order env ts) = mset ts)
   \<and> (\<forall>ws. mset (tie_workers env ws) = mset ws)
   \<and> (\<forall>rs. mset (tie_rooms env rs) = mset rs)"

definition read_clock :: "sched_env \<Rightarrow> sched \<Rightarrow> time \<times> sched" where
  "read_clock env s = (system_clock env (clock_reads s), s\<lparr>clock_reads := Suc (clock_reads s)\<rparr>)"

definition emit :: "sched_output \<Rightarrow> sched \<Rightarrow> sched" where
  "emit out s = s\<lparr>outputs := outputs s @ [out]\<rparr>"

definition upd_worker :: "identifier_t \<Rightarrow> (worker_status \<Rightarrow> worker_status) \<Rightarrow> sched \<Rightarrow> sched" where
  "upd_worker i f s = s\<lparr>workers := modify i f (workers s)\<rparr>"

definition upd_room :: "room_id \<Rightarrow> (room_status \<Rightarrow> room_status) \<Rightarrow> sched \<Rightarrow> sched" where
  "upd_room r f s = s\<lparr>rooms := modify r f (rooms s)\<rparr>"

lemma emit_fields [simp]:
  "tasks (emit out s) = tasks s" "rooms (emit out s) = rooms s" "workers (emit out s) = workers s"
  "last_checked (emit out s) = last_checked s" "clock_reads (emit out s) = clock_reads s"
  "auth_code_field (emit out s) = auth_code_field s" "outputs (emit out s) = outputs s @ [out]"
  by (simp_all add: emit_def)

lemma upd_worker_fields [simp]:
  "tasks (upd_worker i f s) = tasks s" "rooms (upd_worker i f s) = rooms s"
  "workers (upd_worker i f s) = modify i f (workers s)"
  "last_checked (upd_worker i f s) = last_checked s" "clock_reads (upd_worker i f s) = clock_reads s"
  "auth_code_field (upd_worker i f s) = auth_code_field s" "outputs (upd_worker i f s) = outputs s"
  by (simp_all add: upd_worker_def)

lemma upd_room_fields [simp]:
  "tasks (upd_room r g s) = tasks s" "rooms (upd_room r g s) = modify r g (rooms s)"
  "workers (upd_room r g s) = workers s"
  "last_checked (upd_room r g s) = last_checked s" "clock_reads (upd_room r g s) = clock_reads s"
  "auth_code_field (upd_room r g s) = auth_code_field s" "outputs (upd_room r g s) = outputs s"
  by (simp_all add: upd_room_def)

lemma read_clock_fields [simp]:
  "tasks (snd (read_clock env s)) = tasks s" "rooms (snd (read_clock env s)) = rooms s"
  "workers (snd (read_clock env s)) = workers s"
  "last_checked (snd (read_clock env s)) = last_checked s"
  "auth_code_field (snd (read_clock env s)) = auth_code_field s"
  "outputs (snd (read_clock env s)) = outputs s"
  "clock_reads (snd (read_clock env s)) = Suc (clock_reads s)"
  "fst (read_clock env s) = system_clock env (clock_reads s)"
  by (simp_all add: read_clock_def)

section \<open>The container contract, once for the three containers\<close>

locale placing =
  fixes place :: "'e list \<Rightarrow> 'e \<Rightarrow> 'e list"
  assumes mset_place: "mset (place xs x) = add_mset x (mset xs)"
begin

lemma set_place [simp]: "set (place xs x) = insert x (set xs)"
  by (metis mset_place set_mset_add_mset_insert set_mset_mset)

lemma distinct_map_place:
  "distinct (map f (place xs x)) \<longleftrightarrow> f x \<notin> f ` set xs \<and> distinct (map f xs)"
proof -
  have "mset (map f (place xs x)) = mset (f x # map f xs)"
    by (simp add: mset_place)
  then have "distinct (map f (place xs x)) \<longleftrightarrow> distinct (f x # map f xs)"
    by (metis mset_eq_imp_distinct_iff)
  then show ?thesis by simp
qed

lemma filter_place: "mset (filter P (place xs x)) = mset (filter P (x # xs))"
  by (simp add: mset_place)

lemma length_filter_place: "length (filter P (place xs x)) = length (filter P (x # xs))"
  by (metis filter_place size_mset)

end

text \<open>An insertion at the end is such a container; witnesses use it.\<close>

definition place_last :: "'e list \<Rightarrow> 'e \<Rightarrow> 'e list" where
  "place_last xs x = xs @ [x]"

interpretation place_last: placing place_last
  by unfold_locales (simp add: place_last_def)

lemma containers_placing:
  assumes "containers_ok env"
  shows "placing (place_task env)" and "placing (place_worker env)" and "placing (place_room env)"
  using assms by (simp_all add: containers_ok_def placing_def)

lemma range_order_set: "containers_ok env \<Longrightarrow> set (range_order env ts) = set ts"
  by (metis containers_ok_def set_mset_mset)

lemma tie_set:
  assumes "containers_ok env"
  shows "set (tie_workers env ws) = set ws" and "set (tie_rooms env rs) = set rs"
  using assms by (metis containers_ok_def set_mset_mset)+

lemma range_order_distinct:
  "containers_ok env \<Longrightarrow> distinct (map f (range_order env ts)) \<longleftrightarrow> distinct (map f ts)"
  by (metis containers_ok_def mset_eq_imp_distinct_iff mset_map)

end
