(* ===== verification/Sched_Ops.thy ===== *)
theory Sched_Ops
  imports Sched_Types
begin

text \<open>
  The elementary operations of \<open>scheduler_session\<close> (src/supervisor/worker_scheduler.cpp): clearing,
  resetting and deleting workers, deleting and assigning tasks, the counters, the timeout check.
  A pointer to a worker or room is its key: the maps give stable element addresses, and every
  write through a pointer goes to the element of that key. A write through a pointer whose element
  has been erased goes to freed memory; it changes no element of the maps (\<open>modify\<close> of an absent
  key is the identity).
\<close>

section \<open>Workers\<close>

definition clear_worker_tasks :: "identifier_t \<Rightarrow> sched \<Rightarrow> sched" where
  "clear_worker_tasks i s = s\<lparr>tasks := filter (\<lambda>t. rt_identifier t \<noteq> i) (tasks s)\<rparr>"

definition reset_worker :: "sched_env \<Rightarrow> identifier_t \<Rightarrow> sched \<Rightarrow> sched" where
  "reset_worker env i s =
     (let s = clear_worker_tasks i s;
          s = upd_worker i (\<lambda>w. w\<lparr>ws_initialized := False, ws_current_connections := 0,
                                  ws_max_rooms := -1\<rparr>) s;
          (now, s) = read_clock env s in
      upd_worker i (\<lambda>w. w\<lparr>ws_allow_new_task_after := now, ws_punished := False\<rparr>) s)"

definition delete_worker :: "sched_env \<Rightarrow> identifier_t \<Rightarrow> sched \<Rightarrow> sched" where
  "delete_worker env i s =
     (let s = reset_worker env i s in s\<lparr>workers := erase_key i (workers s)\<rparr>)"

definition delete_and_disconnect_worker :: "sched_env \<Rightarrow> identifier_t \<Rightarrow> sched \<Rightarrow> sched" where
  "delete_and_disconnect_worker env i s = emit (Disconnect_worker i) (delete_worker env i s)"

section \<open>Tasks\<close>

definition find_task :: "identifier_t \<Rightarrow> room_id \<Rightarrow> sched \<Rightarrow> room_task option" where
  "find_task i r s = find (\<lambda>t. task_key t = (i, r)) (tasks s)"

text \<open>The counters of the worker and of the room of a deleted task, and the worker's penalty.\<close>

definition penalize :: "sched_env \<Rightarrow> identifier_t \<Rightarrow> worker_status \<Rightarrow> sched \<Rightarrow> sched" where
  "penalize env i w s =
     (if \<not> ws_punished w
      then (let (now, s) = read_clock env s in
        upd_worker i (\<lambda>w. w\<lparr>ws_allow_new_task_after := now + minutes (worker_penalty_min env)\<rparr>) s)
      else upd_worker i (\<lambda>w. w\<lparr>ws_allow_new_task_after :=
             ws_allow_new_task_after w + minutes (worker_penalty_min env)\<rparr>) s)"

definition delete_task_at :: "sched_env \<Rightarrow> room_task option \<Rightarrow> bool \<Rightarrow> sched \<Rightarrow> sched" where
  "delete_task_at env iter desc_rank s =
     (case iter of None \<Rightarrow> s
      | Some t \<Rightarrow>
        (let i = rt_identifier t; room = rt_room_id t;
             s = s\<lparr>tasks := filter (\<lambda>u. task_key u \<noteq> (i, room)) (tasks s)\<rparr>;
             s = (case map_of (workers s) i of None \<Rightarrow> s
                  | Some w \<Rightarrow>
                     (let s = (if desc_rank then penalize env i w s else s) in
                      upd_worker i (\<lambda>w. w\<lparr>ws_current_connections := ws_current_connections w - 1\<rparr>) s)) in
         (case map_of (rooms s) room of None \<Rightarrow> s
          | Some _ \<Rightarrow> upd_room room (\<lambda>x. x\<lparr>rs_current_connections := rs_current_connections x - 1\<rparr>) s)))"

definition delete_task :: "sched_env \<Rightarrow> identifier_t \<Rightarrow> room_id \<Rightarrow> bool \<Rightarrow> sched \<Rightarrow> sched" where
  "delete_task env i r desc_rank s = delete_task_at env (find_task i r s) desc_rank s"

definition send_assign :: "identifier_t \<Rightarrow> room_id \<Rightarrow> sched \<Rightarrow> sched" where
  "send_assign i r s = emit (Send_assign i r) s"

definition send_unassign :: "identifier_t \<Rightarrow> room_id \<Rightarrow> sched \<Rightarrow> sched" where
  "send_unassign i r s = emit (Send_unassign i r) s"

definition assign_task :: "sched_env \<Rightarrow> identifier_t \<Rightarrow> room_id \<Rightarrow> time \<Rightarrow> sched \<Rightarrow> bool \<times> sched" where
  "assign_task env i r now s =
     (if find_task i r s \<noteq> None then (False, s)
      else
        (let s = s\<lparr>tasks := place_task env (tasks s) (new_room_task i r now)\<rparr>;
             s = send_assign i r s;
             s = upd_worker i (\<lambda>w. w\<lparr>ws_current_connections := ws_current_connections w + 1\<rparr>) s;
             s = upd_room r (\<lambda>x. x\<lparr>rs_current_connections := rs_current_connections x + 1\<rparr>) s;
             s = upd_worker i (\<lambda>w. w\<lparr>ws_remaining_this_bunch := ws_remaining_this_bunch w - 1\<rparr>) s in
         (True, s)))"

section \<open>Counters and limits\<close>

definition worker_task_count :: "identifier_t \<Rightarrow> tasks_set \<Rightarrow> int" where
  "worker_task_count i ts = int (length (filter (\<lambda>t. rt_identifier t = i) ts))"

definition room_task_count :: "room_id \<Rightarrow> tasks_set \<Rightarrow> int" where
  "room_task_count r ts = int (length (filter (\<lambda>t. rt_room_id t = r) ts))"

definition refresh_counts :: "sched \<Rightarrow> sched" where
  "refresh_counts s =
     s\<lparr>workers := map (\<lambda>(i, w). (i, w\<lparr>ws_current_connections := worker_task_count i (tasks s)\<rparr>)) (workers s),
       rooms := map (\<lambda>(r, x). (r, x\<lparr>rs_current_connections := room_task_count r (tasks s)\<rparr>)) (rooms s)\<rparr>"

definition calculate_max_workers_per_room :: "workers_map \<Rightarrow> int \<Rightarrow> int" where
  "calculate_max_workers_per_room workers_available room_count =
     (if room_count = 0 then 0
      else wrap_i32 (sum_list (map (\<lambda>(_, w). ws_max_rooms w) workers_available) sdiv room_count) + 1)"

section \<open>Timeouts\<close>

text \<open>
  The loop over the worker map erases the current element. When the erase has moved the next entry
  into the freed slot, the loop's increment steps over that entry.
\<close>

fun expire_workers :: "sched_env \<Rightarrow> time \<Rightarrow> workers_map \<Rightarrow> sched \<Rightarrow> sched" where
  "expire_workers env now [] s = s"
| "expire_workers env now [(i, w)] s =
     (if now - ws_last_received w > seconds (worker_timeout_sec env)
      then delete_and_disconnect_worker env i s else s)"
| "expire_workers env now ((i, w) # e # es) s =
     (if now - ws_last_received w > seconds (worker_timeout_sec env)
      then expire_workers env now (if shifts_back env (workers s) i then es else e # es)
             (delete_and_disconnect_worker env i s)
      else expire_workers env now (e # es) s)"

fun expire_tasks :: "sched_env \<Rightarrow> time \<Rightarrow> tasks_set \<Rightarrow> sched \<Rightarrow> sched" where
  "expire_tasks env now [] s = s"
| "expire_tasks env now (t # ts) s =
     (if now - rt_last_received t < seconds (worker_timeout_sec env)
      then expire_tasks env now ts s
      else expire_tasks env now ts
             (send_unassign (rt_identifier t) (rt_room_id t) (delete_task_at env (Some t) True s)))"

definition check_worker_task_interval :: "sched_env \<Rightarrow> sched \<Rightarrow> sched" where
  "check_worker_task_interval env s =
     (let (now, s) = read_clock env s;
          s = expire_workers env now (workers s) s in
      expire_tasks env now (tasks s) s)"

section \<open>Diagnostics\<close>

definition update_diagnostics :: "int \<Rightarrow> sched \<Rightarrow> sched" where
  "update_diagnostics max_tasks s = emit (Diagnostics
     \<lparr>dg_room_statuses = map (\<lambda>(r, x). (r, rs_current_connections x)) (rooms s),
      dg_worker_statuses = map (\<lambda>(i, w). (i, ws_current_connections w,
         ws_allow_new_task_after w sdiv 1000000000, ws_max_rooms w)) (workers s),
      dg_tasks = map (\<lambda>t. (rt_room_id t, rt_identifier t)) (tasks s),
      dg_max_tasks_per_room = max_tasks\<rparr>) s"

end
