(* ===== verification/Sched_Check.thy ===== *)
theory Sched_Check
  imports Sched_Ops
begin

text \<open>
  \<open>scheduler_session::check_all_states\<close>, the periodic scheduling pass, with its phases as separate
  definitions in the order of the code: rate limit, timeouts, counters, available workers, limits,
  deletion of inactive rooms, then per room either one new task or the removal of surplus tasks.
\<close>

section \<open>Collecting workers and rooms\<close>

definition is_available :: "time \<Rightarrow> worker_status \<Rightarrow> bool" where
  "is_available current_time w \<longleftrightarrow>
     ws_current_connections w < ws_max_rooms w \<and> ws_allow_new_task_after w < current_time"

definition free_slots :: "identifier_t \<Rightarrow> sched \<Rightarrow> int" where
  "free_slots i s = (case map_of (workers s) i of None \<Rightarrow> 0
     | Some w \<Rightarrow> ws_max_rooms w - ws_current_connections w)"

definition sort_workers :: "sched_env \<Rightarrow> sched \<Rightarrow> identifier_t list \<Rightarrow> identifier_t list" where
  "sort_workers env s avail =
     map fst (sort_key (\<lambda>(i, k). - k) (tie_workers env (map (\<lambda>i. (i, free_slots i s)) avail)))"

definition collect_available :: "sched_env \<Rightarrow> time \<Rightarrow> sched \<Rightarrow> identifier_t list \<times> sched" where
  "collect_available env current_time s =
     (let avail = [i. (i, w) \<leftarrow> workers s, is_available current_time w];
          s = s\<lparr>workers := map (\<lambda>(i, w). (i, if is_available current_time w
                then w\<lparr>ws_punished := False, ws_remaining_this_bunch := max_new_tasks_per_bunch env\<rparr>
                else w)) (workers s)\<rparr> in
      (sort_workers env s avail, s))"

fun unassign_all :: "sched_env \<Rightarrow> tasks_set \<Rightarrow> sched \<Rightarrow> sched" where
  "unassign_all env [] s = s"
| "unassign_all env (t # ts) s =
     unassign_all env ts
       (delete_task_at env (Some t) True (send_unassign (rt_identifier t) (rt_room_id t) s))"

definition room_range :: "sched_env \<Rightarrow> room_id \<Rightarrow> sched \<Rightarrow> tasks_set" where
  "room_range env r s = range_order env (filter (\<lambda>t. rt_room_id t = r) (tasks s))"

definition delete_room :: "sched_env \<Rightarrow> room_id \<Rightarrow> sched \<Rightarrow> sched" where
  "delete_room env r s =
     (let s = unassign_all env (room_range env r s) s in s\<lparr>rooms := erase_key r (rooms s)\<rparr>)"

fun collect_rooms :: "sched_env \<Rightarrow> rooms_map \<Rightarrow> room_id list \<Rightarrow> int \<Rightarrow> sched \<Rightarrow> room_id list \<times> int \<times> sched" where
  "collect_rooms env [] need_proc min_tasks s = (need_proc, min_tasks, s)"
| "collect_rooms env ((r, x) # rs) need_proc min_tasks s =
     (if rs_active x
      then collect_rooms env rs (need_proc @ [r]) (min min_tasks (rs_current_connections x)) s
      else collect_rooms env rs need_proc min_tasks (delete_room env r s))"

definition room_connections :: "room_id \<Rightarrow> sched \<Rightarrow> int" where
  "room_connections r s =
     (case map_of (rooms s) r of None \<Rightarrow> 0 | Some x \<Rightarrow> rs_current_connections x)"

definition sort_rooms :: "sched_env \<Rightarrow> sched \<Rightarrow> room_id list \<Rightarrow> room_id list" where
  "sort_rooms env s rs =
     map fst (sort_key snd (tie_rooms env (map (\<lambda>r. (r, room_connections r s)) rs)))"

section \<open>One room\<close>

text \<open>A worker that the assignment loop erases from the vector of available workers.\<close>

definition exhausted :: "identifier_t \<Rightarrow> sched \<Rightarrow> bool" where
  "exhausted i s = (case map_of (workers s) i of None \<Rightarrow> True
     | Some w \<Rightarrow> ws_current_connections w > ws_max_rooms w \<or> ws_remaining_this_bunch w \<le> 0)"

text \<open>
  The loop over the vector: \<open>passed\<close> are the elements in front of the iterator, \<open>after\<close> those from
  it on. The result says whether the code jumped to the next room.
\<close>

function try_workers :: "sched_env \<Rightarrow> time \<Rightarrow> int \<Rightarrow> room_id \<Rightarrow> identifier_t list \<Rightarrow> identifier_t list
    \<Rightarrow> sched \<Rightarrow> bool \<times> identifier_t list \<times> sched" where
  "try_workers env now max_tasks r passed after s =
     (if max_tasks > room_connections r s \<and> after \<noteq> []
      then (case dropWhile (\<lambda>i. exhausted i s) after of
              [] \<Rightarrow> (True, passed, s)
            | i # rest \<Rightarrow>
                (let (assigned, s') = assign_task env i r now s in
                 if assigned then (True, passed @ i # rest, s')
                 else try_workers env now max_tasks r (passed @ [i]) rest s'))
      else (False, passed @ after, s))"
  by pat_completeness auto
termination
proof (relation "measure (\<lambda>(env, now, m, r, passed, after, s). length after)", goal_cases)
  case (2 env now m r passed after s i rest x assigned s')
  then have "length (i # rest) \<le> length after" by (metis length_dropWhile_le)
  then show ?case by simp
qed simp

declare try_workers.simps [simp del]

fun unassign_overkill :: "sched_env \<Rightarrow> int \<Rightarrow> int \<Rightarrow> int \<Rightarrow> tasks_set \<Rightarrow> sched \<Rightarrow> int \<times> sched" where
  "unassign_overkill env i overkill throttling [] s = (throttling, s)"
| "unassign_overkill env i overkill throttling (t # ts) s =
     (if i < overkill \<and> throttling > 0
      then unassign_overkill env (i + 1) overkill (throttling - 1) ts
             (delete_task_at env (Some t) False (send_unassign (rt_identifier t) (rt_room_id t) s))
      else (throttling, s))"

definition overkill_of :: "int \<Rightarrow> int \<Rightarrow> room_id \<Rightarrow> sched \<Rightarrow> int" where
  "overkill_of max_tasks min_tasks r s =
     max (room_connections r s - max_tasks) (room_connections r s - min_tasks - 1)"

definition process_room :: "sched_env \<Rightarrow> time \<Rightarrow> int \<Rightarrow> int \<Rightarrow> room_id
    \<Rightarrow> identifier_t list \<times> int \<times> sched \<Rightarrow> identifier_t list \<times> int \<times> sched" where
  "process_room env now max_tasks min_tasks r st =
     (let (avail, throttling, s) = st;
          (next_room, avail, s) = try_workers env now max_tasks r [] avail s in
      if next_room then (avail, throttling, s)
      else
        (let overkill = overkill_of max_tasks min_tasks r s in
         if overkill > 0 \<and> throttling > 0
         then (let (throttling, s) = unassign_overkill env 0 overkill throttling (room_range env r s) s in
               (avail, throttling, s))
         else (avail, throttling, s)))"

section \<open>The pass\<close>

definition max_tasks_per_room :: "sched \<Rightarrow> int" where
  "max_tasks_per_room s =
     max 1 (max (calculate_max_workers_per_room (workers s) (int (length (rooms s))))
                (int (length (workers s))))"

definition initial_min_tasks :: int where "initial_min_tasks = 2147483647 div 2"

definition room_disconnect_throttling :: int where "room_disconnect_throttling = 10"

definition assign_tasks :: "sched_env \<Rightarrow> time \<Rightarrow> int \<Rightarrow> int \<Rightarrow> room_id list \<Rightarrow> identifier_t list \<Rightarrow> sched \<Rightarrow> sched" where
  "assign_tasks env now max_tasks min_tasks need_proc avail s =
     snd (snd (fold (process_room env now max_tasks min_tasks) need_proc
                 (avail, room_disconnect_throttling, s)))"

definition room_pass :: "sched_env \<Rightarrow> time \<Rightarrow> identifier_t list \<Rightarrow> sched \<Rightarrow> sched" where
  "room_pass env current_time avail s =
     (let max_tasks = max_tasks_per_room s;
          s = update_diagnostics max_tasks s;
          (need_proc, min_tasks, s) = collect_rooms env (rooms s) [] initial_min_tasks s;
          need_proc = sort_rooms env s need_proc in
      assign_tasks env current_time max_tasks min_tasks need_proc avail s)"

definition assignment_pass :: "sched_env \<Rightarrow> time \<Rightarrow> sched \<Rightarrow> sched" where
  "assignment_pass env current_time s =
     (let (avail, s) = collect_available env current_time s in room_pass env current_time avail s)"

definition schedule_pass :: "sched_env \<Rightarrow> time \<Rightarrow> sched \<Rightarrow> sched" where
  "schedule_pass env current_time s =
     assignment_pass env current_time (refresh_counts (check_worker_task_interval env s))"

definition check_all_states :: "sched_env \<Rightarrow> sched \<Rightarrow> sched" where
  "check_all_states env s =
     (let (current_time, s) = read_clock env s in
      if current_time - last_checked s < milliseconds (min_check_interval_msec env) then s
      else schedule_pass env current_time (s\<lparr>last_checked := current_time\<rparr>))"

end
