(* ===== verification/Sched_Events.thy ===== *)
theory Sched_Events
  imports Sched_Check
begin

text \<open>
  The entry points of \<open>scheduler_session\<close>: the constructor, the callbacks of the connection
  manager (\<open>handle_new_worker\<close>, \<open>handle_buffer\<close>, \<open>handle_worker_disconnect\<close>, the tick), the
  posted room-list update and the reloading of the authentication code; and the transition system
  they make.
\<close>

definition load_auth_code :: "bytes \<Rightarrow> sched \<Rightarrow> sched option" where
  "load_auth_code auth_code s =
     map_option (\<lambda>b. s\<lparr>auth_code_field := b\<rparr>)
       (poke 0 auth_code (replicate (auth_code_size + 1) 0))"

definition init_sched :: "sched_env \<Rightarrow> sched option" where
  "init_sched env = load_auth_code (cfg_auth_code env)
     \<lparr>tasks = [], rooms = [], workers = [], last_checked = 0, auth_code_field = [],
      clock_reads = 0, outputs = []\<rparr>"

fun add_rooms :: "sched_env \<Rightarrow> room_id list \<Rightarrow> sched \<Rightarrow> sched" where
  "add_rooms env [] s = s"
| "add_rooms env (r # rs) s =
     add_rooms env rs (if map_of (rooms s) r = None
       then s\<lparr>rooms := place_room env (rooms s) (r, new_room_status r)\<rparr> else s)"

definition update_room_lists :: "sched_env \<Rightarrow> room_id list \<Rightarrow> sched \<Rightarrow> sched" where
  "update_room_lists env room_ids s =
     add_rooms env (sort_key sint (remdups room_ids))
       (s\<lparr>rooms := map (\<lambda>(r, x). (r, if r \<notin> set room_ids then x\<lparr>rs_active := False\<rparr> else x)) (rooms s)\<rparr>)"

definition handle_new_worker :: "sched_env \<Rightarrow> identifier_t \<Rightarrow> sched \<Rightarrow> sched" where
  "handle_new_worker env i s =
     (let (current_time, s) = read_clock env s in
      case map_of (workers s) i of
        Some _ \<Rightarrow> upd_worker i (\<lambda>w. w\<lparr>ws_last_received := current_time\<rparr>) (reset_worker env i s)
      | None \<Rightarrow> s\<lparr>workers := place_worker env (workers s) (i, new_worker_status i current_time)\<rparr>)"

text \<open>
  A failed authentication does not return: the worker is deleted and disconnected, and then the code
  goes on resetting it through the pointer to the erased element, which changes no element.
\<close>

definition handle_worker_ready :: "sched_env \<Rightarrow> identifier_t \<Rightarrow> bytes \<Rightarrow> sched \<Rightarrow> sched" where
  "handle_worker_ready env i payload s =
     (let s = (if \<not> auth_accepted (auth_code_field s) payload
               then emit (Disconnect_worker i) (delete_worker env i s) else s);
          max_rooms = sint (payload_room_id payload);
          s = reset_worker env i s;
          s = upd_worker i (\<lambda>w. w\<lparr>ws_initialized := True, ws_max_rooms := max_rooms\<rparr>) s in
      check_all_states env s)"

definition forward_data :: "sched_env \<Rightarrow> bytes \<Rightarrow> sched \<Rightarrow> sched" where
  "forward_data env payload s =
     emit (Worker_data (payload_crc32 (host_endian env) payload) (payload_routing_key payload)
             (payload_data payload)) s"

definition handle_worker_data :: "sched_env \<Rightarrow> identifier_t \<Rightarrow> bytes \<Rightarrow> time \<Rightarrow> sched \<Rightarrow> sched" where
  "handle_worker_data env i payload current_time s =
     (let room = payload_room_id payload in
      if length payload < worker_data_payload_header_length then s
      else if find_task i room s = None then s
      else
        (let s = s\<lparr>tasks := map (\<lambda>t. if task_key t = (i, room)
                     then t\<lparr>rt_last_received := current_time\<rparr> else t) (tasks s)\<rparr> in
         if payload_crc32 (host_endian env) payload = 0
         then (case map_of (rooms s) room of
                 None \<Rightarrow> s
               | Some x \<Rightarrow>
                   if current_time - rs_last_empty_crc_received x < seconds (min_interval_popularity_sec env)
                   then s
                   else forward_data env payload
                     (upd_room room (\<lambda>x. x\<lparr>rs_last_empty_crc_received := current_time\<rparr>) s))
         else forward_data env payload s))"

definition handle_buffer :: "sched_env \<Rightarrow> identifier_t \<Rightarrow> bytes \<Rightarrow> sched \<Rightarrow> sched" where
  "handle_buffer env i payload s =
     (if length payload < room_failed_payload_length then s
      else
        (let op_code = payload_op_code payload; room = payload_room_id payload in
         case map_of (workers s) i of
           None \<Rightarrow> emit (Disconnect_worker i) (clear_worker_tasks i s)
         | Some _ \<Rightarrow>
             (let (current_time, s) = read_clock env s;
                  s = upd_worker i (\<lambda>w. w\<lparr>ws_last_received := current_time\<rparr>) s in
              if op_code = worker_ready_code then handle_worker_ready env i payload s
              else if op_code = room_failed_code
              then check_all_states env (delete_task env i room True s)
              else if op_code = worker_data_code
              then handle_worker_data env i payload current_time s
              else s)))"

definition handle_worker_disconnect :: "sched_env \<Rightarrow> identifier_t \<Rightarrow> sched \<Rightarrow> sched" where
  "handle_worker_disconnect env i s =
     (let s = clear_worker_tasks i s in
      case map_of (workers s) i of None \<Rightarrow> s | Some _ \<Rightarrow> delete_worker env i s)"

section \<open>The transition system\<close>

datatype sched_event =
    New_worker identifier_t
  | Worker_buffer identifier_t bytes
  | Worker_disconnected identifier_t
  | Server_tick
  | Room_list "room_id list"
  | Auth_code_changed

fun handle_event :: "sched_env \<Rightarrow> sched_event \<Rightarrow> sched \<Rightarrow> sched option" where
  "handle_event env (New_worker i) s = Some (handle_new_worker env i s)"
| "handle_event env (Worker_buffer i payload) s = Some (handle_buffer env i payload s)"
| "handle_event env (Worker_disconnected i) s = Some (handle_worker_disconnect env i s)"
| "handle_event env Server_tick s = Some (check_all_states env s)"
| "handle_event env (Room_list room_ids) s = Some (update_room_lists env room_ids s)"
| "handle_event env Auth_code_changed s = load_auth_code (cfg_auth_code env) s"

inductive sched_start :: "sched \<Rightarrow> bool" where
  "init_sched env = Some s \<Longrightarrow> sched_start s"

inductive sched_step :: "sched \<Rightarrow> sched \<Rightarrow> bool" where
  "containers_ok env \<Longrightarrow> handle_event env ev s = Some t \<Longrightarrow> sched_step s t"

inductive_cases sched_stepE: "sched_step s t"

definition run_events :: "sched_env \<Rightarrow> sched_event list \<Rightarrow> sched \<Rightarrow> sched option" where
  "run_events env evs s = foldl (\<lambda>so ev. Option.bind so (handle_event env ev)) (Some s) evs"

end
