(* ===== verification/Sched_Inv.thy ===== *)
theory Sched_Inv
  imports Sched_Events
begin

text \<open>
  The invariant of the scheduler's three containers and its preservation by the elementary
  operations: unique keys, at most one task per worker and room, every task owned by a known worker
  and a known room, no worker ever marked as punished; the exactness of the counters during a
  scheduling pass; the bound on the tasks of a worker.
\<close>

section \<open>Well-formed containers\<close>

definition wf_sched :: "tasks_set \<Rightarrow> rooms_map \<Rightarrow> workers_map \<Rightarrow> bool" where
  "wf_sched ts rs ws \<longleftrightarrow>
     distinct (keys ws) \<and> distinct (keys rs) \<and> distinct (map task_key ts)
   \<and> (\<forall>t \<in> set ts. rt_identifier t \<in> set (keys ws) \<and> rt_room_id t \<in> set (keys rs))
   \<and> (\<forall>(i, w) \<in> set ws. ws_identifier w = i \<and> \<not> ws_punished w)
   \<and> (\<forall>(r, x) \<in> set rs. rs_room_id x = r)"

abbreviation sched_wf :: "sched \<Rightarrow> bool" where
  "sched_wf s \<equiv> wf_sched (tasks s) (rooms s) (workers s)"

lemma wf_modify_worker [inv_intros]:
  assumes "wf_sched ts rs ws" and "\<And>w. ws_identifier (f w) = ws_identifier w"
    and "\<And>w. ws_punished (f w) \<Longrightarrow> ws_punished w"
  shows "wf_sched ts rs (modify i f ws)"
  using assms unfolding wf_sched_def by (fastforce elim!: in_modifyE)

lemma wf_modify_room [inv_intros]:
  assumes "wf_sched ts rs ws" and "\<And>x. rs_room_id (f x) = rs_room_id x"
  shows "wf_sched ts (modify r f rs) ws"
  using assms unfolding wf_sched_def by (fastforce elim!: in_modifyE)

lemma wf_filter_tasks [inv_intros]: "wf_sched ts rs ws \<Longrightarrow> wf_sched (filter P ts) rs ws"
  by (auto simp: wf_sched_def distinct_map_filter)

lemma wf_erase_worker:
  assumes "wf_sched ts rs ws" and "\<And>t. t \<in> set ts \<Longrightarrow> rt_identifier t \<noteq> i"
  shows "wf_sched ts rs (erase_key i ws)"
  using assms by (auto simp: wf_sched_def)

lemma wf_erase_room:
  assumes "wf_sched ts rs ws" and "\<And>t. t \<in> set ts \<Longrightarrow> rt_room_id t \<noteq> r"
  shows "wf_sched ts (erase_key r rs) ws"
  using assms by (auto simp: wf_sched_def)

lemma wf_place_task:
  assumes "wf_sched ts rs ws" and "placing place" and "task_key t \<notin> task_key ` set ts"
    and "rt_identifier t \<in> set (keys ws)" and "rt_room_id t \<in> set (keys rs)"
  shows "wf_sched (place ts t) rs ws"
  using assms by (auto simp: wf_sched_def placing.set_place placing.distinct_map_place)

lemma wf_place_worker:
  assumes "wf_sched ts rs ws" and "placing place" and "i \<notin> set (keys ws)"
    and "ws_identifier w = i" and "\<not> ws_punished w"
  shows "wf_sched ts rs (place ws (i, w))"
  using assms by (auto simp: wf_sched_def placing.set_place placing.distinct_map_place)

lemma wf_place_room:
  assumes "wf_sched ts rs ws" and "placing place" and "r \<notin> set (keys rs)" and "rs_room_id x = r"
  shows "wf_sched ts (place rs (r, x)) ws"
  using assms by (auto simp: wf_sched_def placing.set_place placing.distinct_map_place)

lemma keys_map_entries: "keys (map (\<lambda>(k, v). (k, g k v)) m) = keys m"
  by (induction m) auto

lemma wf_map_workers:
  assumes "wf_sched ts rs ws" and "\<And>i w. ws_identifier (f i w) = ws_identifier w"
    and "\<And>i w. ws_punished (f i w) \<Longrightarrow> ws_punished w"
  shows "wf_sched ts rs (map (\<lambda>(i, w). (i, f i w)) ws)"
  using assms unfolding wf_sched_def keys_map_entries by fastforce

lemma wf_map_rooms:
  assumes "wf_sched ts rs ws" and "\<And>r x. rs_room_id (f r x) = rs_room_id x"
  shows "wf_sched ts (map (\<lambda>(r, x). (r, f r x)) rs) ws"
  using assms unfolding wf_sched_def keys_map_entries by fastforce

lemma find_task_None: "find_task i r s = None \<longleftrightarrow> (i, r) \<notin> task_key ` set (tasks s)"
  by (force simp: find_task_def find_None_iff)

lemma find_task_Some: "find_task i r s = Some t \<Longrightarrow> t \<in> set (tasks s) \<and> task_key t = (i, r)"
  by (auto simp: find_task_def find_Some_iff)

section \<open>The counts of tasks\<close>

lemma filter_key_absent: "k \<notin> f ` set ts \<Longrightarrow> filter (\<lambda>v. f v \<noteq> k) ts = ts"
  by (induction ts) auto

lemma count_remove:
  assumes "distinct (map f ts)" and "t \<in> set ts"
  shows "int (length (filter P (filter (\<lambda>u. f u \<noteq> f t) ts))) =
    int (length (filter P ts)) - (if P t then 1 else 0)"
  using assms
proof (induction ts)
  case (Cons u ts)
  show ?case
  proof (cases "t = u")
    case True
    then have "filter (\<lambda>v. f v \<noteq> f t) ts = ts"
      using Cons.prems(1) by (intro filter_key_absent) simp
    with True show ?thesis by simp
  next
    case False
    with Cons.prems have "f u \<noteq> f t" "t \<in> set ts" by (auto simp: image_iff)
    with Cons show ?thesis by (auto split: if_splits)
  qed
qed simp

lemma count_worker_remove:
  "distinct (map task_key ts) \<Longrightarrow> t \<in> set ts \<Longrightarrow>
    worker_task_count i (filter (\<lambda>u. task_key u \<noteq> task_key t) ts) =
    worker_task_count i ts - (if rt_identifier t = i then 1 else 0)"
  unfolding worker_task_count_def by (rule count_remove)

lemma count_room_remove:
  "distinct (map task_key ts) \<Longrightarrow> t \<in> set ts \<Longrightarrow>
    room_task_count r (filter (\<lambda>u. task_key u \<noteq> task_key t) ts) =
    room_task_count r ts - (if rt_room_id t = r then 1 else 0)"
  unfolding room_task_count_def by (rule count_remove)

lemma count_place:
  assumes "placing place"
  shows "worker_task_count i (place ts t) =
      worker_task_count i ts + (if i = rt_identifier t then 1 else 0)"
    and "room_task_count r (place ts t) =
      room_task_count r ts + (if r = rt_room_id t then 1 else 0)"
  using assms by (simp_all add: worker_task_count_def room_task_count_def placing.length_filter_place)

lemma count_filter_le: "worker_task_count i (filter P ts) \<le> worker_task_count i ts"
  by (induction ts) (auto simp: worker_task_count_def)

lemma count_nonneg: "0 \<le> worker_task_count i ts" "0 \<le> room_task_count r ts"
  by (simp_all add: worker_task_count_def room_task_count_def)

lemma count_cleared: "worker_task_count i (filter (\<lambda>t. rt_identifier t \<noteq> i) ts) = 0"
  by (induction ts) (auto simp: worker_task_count_def)

text \<open>No worker is over its limit by more than one.\<close>

definition within_capacity :: "tasks_set \<Rightarrow> workers_map \<Rightarrow> bool" where
  "within_capacity ts ws \<longleftrightarrow>
     (\<forall>(i, w) \<in> set ws. worker_task_count i ts \<le> max 0 (ws_max_rooms w + 1))"

abbreviation sched_capacity :: "sched \<Rightarrow> bool" where
  "sched_capacity s \<equiv> within_capacity (tasks s) (workers s)"

lemma capacity_modify [inv_intros]:
  assumes "within_capacity ts ws" and "\<And>w. ws_max_rooms (f w) = ws_max_rooms w"
  shows "within_capacity ts (modify i f ws)"
  using assms unfolding within_capacity_def by (fastforce elim!: in_modifyE)

lemma capacity_modify_idle:
  assumes "within_capacity ts ws" and "worker_task_count i ts = 0"
  shows "within_capacity ts (modify i f ws)"
  using assms unfolding within_capacity_def by (fastforce elim!: in_modifyE)

lemma capacity_filter [inv_intros]: "within_capacity ts ws \<Longrightarrow> within_capacity (filter P ts) ws"
  unfolding within_capacity_def using count_filter_le by (fastforce intro: order_trans)

lemma capacity_erase: "within_capacity ts ws \<Longrightarrow> within_capacity ts (erase_key i ws)"
  by (auto simp: within_capacity_def)

lemma capacity_map_workers:
  assumes "within_capacity ts ws" and "\<And>i w. ws_max_rooms (f i w) = ws_max_rooms w"
  shows "within_capacity ts (map (\<lambda>(i, w). (i, f i w)) ws)"
  using assms unfolding within_capacity_def by fastforce

text \<open>Both invariants together, the invariant of the transition system.\<close>

definition sched_inv :: "sched \<Rightarrow> bool" where
  "sched_inv s \<longleftrightarrow> sched_wf s \<and> sched_capacity s"

lemma sched_invI: "sched_wf s \<Longrightarrow> sched_capacity s \<Longrightarrow> sched_inv s"
  by (simp add: sched_inv_def)

lemma sched_inv_emit [simp]: "sched_inv (emit out s) \<longleftrightarrow> sched_inv s"
  by (simp add: sched_inv_def)

lemma sched_inv_clock [simp]: "sched_inv (snd (read_clock env s)) \<longleftrightarrow> sched_inv s"
  by (simp add: sched_inv_def)

lemma sched_inv_upd_worker [inv_intros]:
  assumes "sched_inv s" and "\<And>w. ws_identifier (f w) = ws_identifier w"
    and "\<And>w. ws_punished (f w) \<Longrightarrow> ws_punished w" and "\<And>w. ws_max_rooms (f w) = ws_max_rooms w"
  shows "sched_inv (upd_worker i f s)"
  using assms by (simp add: sched_inv_def wf_modify_worker capacity_modify)

lemma sched_inv_upd_idle_worker:
  assumes "sched_inv s" and "\<And>w. ws_identifier (f w) = ws_identifier w"
    and "\<And>w. ws_punished (f w) \<Longrightarrow> ws_punished w" and "worker_task_count i (tasks s) = 0"
  shows "sched_inv (upd_worker i f s)"
  using assms by (simp add: sched_inv_def wf_modify_worker capacity_modify_idle)

lemma sched_inv_upd_room [inv_intros]:
  assumes "sched_inv s" and "\<And>x. rs_room_id (f x) = rs_room_id x"
  shows "sched_inv (upd_room r f s)"
  using assms by (simp add: sched_inv_def wf_modify_room)

lemma sched_inv_filter [inv_intros]: "sched_inv s \<Longrightarrow> sched_inv (s\<lparr>tasks := filter P (tasks s)\<rparr>)"
  by (simp add: sched_inv_def wf_filter_tasks capacity_filter)

section \<open>The elementary operations\<close>

lemma clear_worker_tasks_fields [simp]:
  "tasks (clear_worker_tasks i s) = filter (\<lambda>t. rt_identifier t \<noteq> i) (tasks s)"
  "rooms (clear_worker_tasks i s) = rooms s" "workers (clear_worker_tasks i s) = workers s"
  "outputs (clear_worker_tasks i s) = outputs s" "last_checked (clear_worker_tasks i s) = last_checked s"
  "auth_code_field (clear_worker_tasks i s) = auth_code_field s"
  by (simp_all add: clear_worker_tasks_def)

lemma reset_worker_fields [simp]:
  "tasks (reset_worker env i s) = filter (\<lambda>t. rt_identifier t \<noteq> i) (tasks s)"
  "rooms (reset_worker env i s) = rooms s" "keys (workers (reset_worker env i s)) = keys (workers s)"
  "outputs (reset_worker env i s) = outputs s" "last_checked (reset_worker env i s) = last_checked s"
  "auth_code_field (reset_worker env i s) = auth_code_field s"
  by (simp_all add: reset_worker_def Let_def case_prod_beta)

lemma reset_worker_map_of:
  "map_of (workers (reset_worker env i s)) j = (if j = i then map_option
     (\<lambda>w. w\<lparr>ws_initialized := False, ws_current_connections := 0, ws_max_rooms := -1,
            ws_allow_new_task_after := system_clock env (clock_reads s), ws_punished := False\<rparr>)
     (map_of (workers s) j) else map_of (workers s) j)"
  by (auto simp: reset_worker_def Let_def case_prod_beta clear_worker_tasks_def map_of_modify
      option.map_comp comp_def)

lemma delete_worker_fields [simp]:
  "tasks (delete_worker env i s) = filter (\<lambda>t. rt_identifier t \<noteq> i) (tasks s)"
  "rooms (delete_worker env i s) = rooms s"
  "keys (workers (delete_worker env i s)) = filter (\<lambda>j. j \<noteq> i) (keys (workers s))"
  "outputs (delete_worker env i s) = outputs s" "last_checked (delete_worker env i s) = last_checked s"
  "auth_code_field (delete_worker env i s) = auth_code_field s"
  by (simp_all add: delete_worker_def Let_def)

lemma clear_worker_tasks_inv [inv_intros]: "sched_inv s \<Longrightarrow> sched_inv (clear_worker_tasks i s)"
  unfolding clear_worker_tasks_def by (rule sched_inv_filter)

lemma reset_worker_inv [inv_intros]: "sched_inv s \<Longrightarrow> sched_inv (reset_worker env i s)"
proof -
  assume inv: "sched_inv s"
  have clear: "sched_inv (upd_worker i f (clear_worker_tasks i s))"
    if "\<And>w. ws_identifier (f w) = ws_identifier w" "\<And>w. ws_punished (f w) \<Longrightarrow> ws_punished w" for f
    using that by (intro sched_inv_upd_idle_worker clear_worker_tasks_inv inv)
      (simp_all add: count_cleared)
  show ?thesis
    unfolding reset_worker_def Let_def case_prod_beta
    by (intro sched_inv_upd_worker) (auto intro!: clear)
qed

lemma delete_worker_inv [inv_intros]: "sched_inv s \<Longrightarrow> sched_inv (delete_worker env i s)"
  using reset_worker_inv [of s env i] unfolding delete_worker_def Let_def sched_inv_def
  by (auto intro: wf_erase_worker capacity_erase)

lemma delete_and_disconnect_worker_inv [inv_intros]:
  "sched_inv s \<Longrightarrow> sched_inv (delete_and_disconnect_worker env i s)"
  by (simp add: delete_and_disconnect_worker_def delete_worker_inv)

lemma penalize_inv [inv_intros]: "sched_inv s \<Longrightarrow> sched_inv (penalize env i w s)"
  unfolding penalize_def Let_def case_prod_beta
  by (simp split: if_split) (auto intro!: sched_inv_upd_worker)

lemma penalize_fields [simp]:
  "tasks (penalize env i w s) = tasks s" "rooms (penalize env i w s) = rooms s"
  "keys (workers (penalize env i w s)) = keys (workers s)" "outputs (penalize env i w s) = outputs s"
  "last_checked (penalize env i w s) = last_checked s"
  "auth_code_field (penalize env i w s) = auth_code_field s"
  by (simp_all add: penalize_def Let_def case_prod_beta)

lemma delete_task_at_fields [simp]:
  "tasks (delete_task_at env (Some t) d s) = filter (\<lambda>u. task_key u \<noteq> task_key t) (tasks s)"
  "keys (rooms (delete_task_at env (Some t) d s)) = keys (rooms s)"
  "keys (workers (delete_task_at env (Some t) d s)) = keys (workers s)"
  "outputs (delete_task_at env (Some t) d s) = outputs s"
  "last_checked (delete_task_at env (Some t) d s) = last_checked s"
  "auth_code_field (delete_task_at env (Some t) d s) = auth_code_field s"
  by (simp_all add: delete_task_at_def Let_def split: option.split)

lemma delete_task_at_inv [inv_intros]: "sched_inv s \<Longrightarrow> sched_inv (delete_task_at env iter d s)"
  unfolding delete_task_at_def Let_def
  by (auto split: option.split
      intro!: penalize_inv sched_inv_filter sched_inv_upd_worker sched_inv_upd_room)

lemma delete_task_inv [inv_intros]: "sched_inv s \<Longrightarrow> sched_inv (delete_task env i r d s)"
  unfolding delete_task_def by (rule delete_task_at_inv)

lemma refresh_counts_inv [inv_intros]: "sched_inv s \<Longrightarrow> sched_inv (refresh_counts s)"
  unfolding refresh_counts_def sched_inv_def
  by (simp, intro conjI wf_map_workers wf_map_rooms capacity_map_workers) auto

lemma expire_workers_inv [inv_intros]: "sched_inv s \<Longrightarrow> sched_inv (expire_workers env now es s)"
  by (induction env now es s rule: expire_workers.induct)
    (simp_all add: delete_and_disconnect_worker_inv)

lemma expire_tasks_inv [inv_intros]: "sched_inv s \<Longrightarrow> sched_inv (expire_tasks env now ts s)"
  by (induction ts arbitrary: s) (simp_all add: send_unassign_def delete_task_at_inv)

lemma check_worker_task_interval_inv [inv_intros]:
  "sched_inv s \<Longrightarrow> sched_inv (check_worker_task_interval env s)"
  unfolding check_worker_task_interval_def Let_def case_prod_beta
  by (intro expire_tasks_inv expire_workers_inv) simp

lemma update_diagnostics_inv [inv_intros]: "sched_inv s \<Longrightarrow> sched_inv (update_diagnostics m s)"
  by (simp add: update_diagnostics_def)

end
