(* ===== verification/Sched_Pass.thy ===== *)
theory Sched_Pass
  imports Sched_Inv
begin

text \<open>
  The contract of the phases of a scheduling pass. The locale \<open>unassigning\<close> is any relation between
  scheduler states that contains the removal of one task with its notice to the worker;
  \<open>expiring\<close> adds the disconnection of a worker, \<open>assigning\<close> the assignment of a task to a worker of
  a given set, \<open>clearing\<close> the erasure of an empty room, \<open>scheduling\<close> the collection of the workers. Every phase is in such a relation; the invariants, the
  exactness of the counters and the agreement with the messages sent are interpretations.
\<close>

section \<open>Frames\<close>

abbreviation drop_task :: "sched_env \<Rightarrow> bool \<Rightarrow> room_task \<Rightarrow> sched \<Rightarrow> sched" where
  "drop_task env d t s \<equiv>
     delete_task_at env (Some t) d (send_unassign (rt_identifier t) (rt_room_id t) s)"

definition distinct_tasks :: "sched \<Rightarrow> bool" where
  "distinct_tasks s \<longleftrightarrow> distinct (map task_key (tasks s))"

lemma send_fields [simp]:
  "tasks (send_unassign i r s) = tasks s" "rooms (send_unassign i r s) = rooms s"
  "workers (send_unassign i r s) = workers s"
  "outputs (send_unassign i r s) = outputs s @ [Send_unassign i r]"
  "tasks (send_assign i r s) = tasks s" "rooms (send_assign i r s) = rooms s"
  "workers (send_assign i r s) = workers s"
  "outputs (send_assign i r s) = outputs s @ [Send_assign i r]"
  by (simp_all add: send_unassign_def send_assign_def)

lemma upd_emit:
  "upd_worker i f (emit out s) = emit out (upd_worker i f s)"
  "upd_room r g (emit out s) = emit out (upd_room r g s)"
  "read_clock env (emit out s) = (fst (read_clock env s), emit out (snd (read_clock env s)))"
  "(emit out s)\<lparr>tasks := ts\<rparr> = emit out (s\<lparr>tasks := ts\<rparr>)"
  by (simp_all add: upd_worker_def upd_room_def emit_def read_clock_def)

lemma penalize_emit: "penalize env i w (emit out s) = emit out (penalize env i w s)"
  by (simp add: penalize_def case_prod_beta Let_def upd_emit)

lemma delete_task_at_emit:
  "delete_task_at env iter d (emit out s) = emit out (delete_task_at env iter d s)"
proof (cases iter)
  case (Some t)
  then show ?thesis
    by (cases "map_of (workers s) (rt_identifier t)"; cases "map_of (rooms s) (rt_room_id t)")
      (simp_all add: delete_task_at_def Let_def upd_emit penalize_emit)
qed (simp add: delete_task_at_def)

lemma drop_task_commute:
  "send_unassign (rt_identifier t) (rt_room_id t) (delete_task_at env (Some t) d s) =
    drop_task env d t s"
  by (simp add: send_unassign_def delete_task_at_emit)

lemma distinct_tasks_drop: "distinct_tasks s \<Longrightarrow> distinct_tasks (drop_task env d t s)"
  by (simp add: distinct_tasks_def distinct_map_filter)

lemma drop_keeps_others:
  assumes "set ts \<subseteq> set (tasks s)" and "distinct (map task_key (t # ts))"
  shows "set ts \<subseteq> set (tasks (drop_task env d t s))"
  using assms by (auto simp: image_iff)

lemma unassign_all_tasks:
  "set (tasks (unassign_all env ts s)) = {t \<in> set (tasks s). task_key t \<notin> task_key ` set ts}"
  by (induction ts arbitrary: s) auto

lemma unassign_all_keys [simp]:
  "keys (rooms (unassign_all env ts s)) = keys (rooms s)"
  "keys (workers (unassign_all env ts s)) = keys (workers s)"
  by (induction ts arbitrary: s) auto

lemma room_range_set:
  "containers_ok env \<Longrightarrow> set (room_range env r s) = {t \<in> set (tasks s). rt_room_id t = r}"
  by (auto simp: room_range_def range_order_set)

lemma room_range_distinct:
  "containers_ok env \<Longrightarrow> distinct_tasks s \<Longrightarrow> distinct (map task_key (room_range env r s))"
  by (simp add: room_range_def range_order_distinct distinct_tasks_def distinct_map_filter)

lemma unassign_room_range:
  assumes "containers_ok env"
  shows "set (tasks (unassign_all env (room_range env r s) s)) =
    {t \<in> set (tasks s). rt_room_id t \<noteq> r}"
  by (auto simp: unassign_all_tasks room_range_set [OF assms] image_iff)

text \<open>The assignment loop makes no step, or assigns exactly one task to a worker that may take it.\<close>

definition one_assignment :: "sched_env \<Rightarrow> time \<Rightarrow> int \<Rightarrow> room_id \<Rightarrow> identifier_t list \<Rightarrow> sched
    \<Rightarrow> bool \<times> identifier_t list \<times> sched \<Rightarrow> bool" where
  "one_assignment env now m r ids s res \<longleftrightarrow>
     (case res of (next_room, avail, s') \<Rightarrow> set avail \<subseteq> set ids \<and>
       (s' = s \<or> next_room \<and> room_connections r s < m \<and> (\<exists>i \<in> set ids. \<not> exhausted i s \<and>
         find_task i r s = None \<and> s' = snd (assign_task env i r now s))))"

lemma one_assignment_mono:
  "one_assignment env now m r ids s res \<Longrightarrow> set ids \<subseteq> set ids' \<Longrightarrow>
    one_assignment env now m r ids' s res"
  unfolding one_assignment_def by fast

lemma try_workers_one:
  "one_assignment env now m r (passed @ after) s (try_workers env now m r passed after s)"
proof (induction "length after" arbitrary: passed after rule: less_induct)
  case less
  note unfold = try_workers.simps [of env now m r passed after s]
  show ?case
  proof (cases "m > room_connections r s \<and> after \<noteq> []")
    case True
    show ?thesis
    proof (cases "dropWhile (\<lambda>i. exhausted i s) after")
      case (Cons i rest)
      then have shorter: "length rest < length after"
        using length_dropWhile_le [of "\<lambda>i. exhausted i s" after] by simp
      have live: "\<not> exhausted i s"
        using hd_dropWhile [of "\<lambda>i. exhausted i s" after] Cons by simp
      have sub: "set (i # rest) \<subseteq> set after"
        using set_dropWhileD [of _ "\<lambda>i. exhausted i s" after] Cons by auto
      show ?thesis
      proof (cases "find_task i r s = None")
        case None: True
        then have "try_workers env now m r passed after s =
            (True, passed @ i # rest, snd (assign_task env i r now s))"
          using True by (simp add: unfold Cons assign_task_def Let_def)
        moreover have "i \<in> set (passed @ after)" using sub by simp
        ultimately show ?thesis
          using None True live sub unfolding one_assignment_def by (simp, blast)
      next
        case False
        then have "try_workers env now m r passed after s =
            try_workers env now m r (passed @ [i]) rest s"
          using True by (simp add: unfold Cons assign_task_def)
        with less [OF shorter, of "passed @ [i]"] sub show ?thesis
          by (auto elim!: one_assignment_mono)
      qed
    next
      case Nil
      then show ?thesis using True by (simp only: unfold) (simp add: Nil one_assignment_def)
    qed
  next
    case False
    then show ?thesis by (auto simp: unfold one_assignment_def)
  qed
qed

lemma try_workers_cases:
  obtains "snd (snd (try_workers env now m r [] avail s)) = s"
  | i where "i \<in> set avail" "\<not> exhausted i s" "find_task i r s = None" "room_connections r s < m"
      "fst (try_workers env now m r [] avail s)"
      "snd (snd (try_workers env now m r [] avail s)) = snd (assign_task env i r now s)"
proof -
  obtain b av s' where "try_workers env now m r [] avail s = (b, av, s')" by (metis prod_cases3)
  with that try_workers_one [of env now m r "[]" avail s] show ?thesis
    by (auto simp: one_assignment_def)
qed

lemma assign_task_keys [simp]:
  "keys (rooms (snd (assign_task env i r now s))) = keys (rooms s)"
  "keys (workers (snd (assign_task env i r now s))) = keys (workers s)"
  by (simp_all add: assign_task_def Let_def)

lemma unassign_overkill_keys [simp]:
  "keys (rooms (snd (unassign_overkill env i k n ts s))) = keys (rooms s)"
  "keys (workers (snd (unassign_overkill env i k n ts s))) = keys (workers s)"
  by (induction ts arbitrary: i n s) auto

lemma try_workers_keys [simp]:
  "keys (rooms (snd (snd (try_workers env now m r [] avail s)))) = keys (rooms s)"
  "keys (workers (snd (snd (try_workers env now m r [] avail s)))) = keys (workers s)"
  by (rule try_workers_cases [of env now m r avail s]; simp)+

lemma process_room_keys [simp]:
  "keys (rooms (snd (snd (process_room env now m k r st)))) = keys (rooms (snd (snd st)))"
  "keys (workers (snd (snd (process_room env now m k r st)))) = keys (workers (snd (snd st)))"
  by (simp_all add: process_room_def Let_def case_prod_beta)

lemma delete_room_keys [simp]:
  "keys (rooms (delete_room env r s)) = filter (\<lambda>k. k \<noteq> r) (keys (rooms s))"
  "keys (workers (delete_room env r s)) = keys (workers s)"
  by (simp_all add: delete_room_def Let_def del: map_map)

definition inactive_keys :: "rooms_map \<Rightarrow> room_id set" where
  "inactive_keys rs = {r. \<exists>x. (r, x) \<in> set rs \<and> \<not> rs_active x}"

lemma inactive_keys_simps [simp]:
  "inactive_keys [] = {}"
  "inactive_keys ((r, x) # rs) = (if rs_active x then {} else {r}) \<union> inactive_keys rs"
  by (auto simp: inactive_keys_def)

lemma collect_rooms_keys:
  "keys (rooms (snd (snd (collect_rooms env rs acc m s)))) =
    filter (\<lambda>k. k \<notin> inactive_keys rs) (keys (rooms s))"
proof (induction rs arbitrary: acc m s)
  case (Cons e rs)
  then show ?case
    by (cases e) (auto simp del: map_map intro!: filter_cong)
qed simp

lemma collect_rooms_need:
  "fst (collect_rooms env rs acc m s) = acc @ [r. (r, x) \<leftarrow> rs, rs_active x]"
  by (induction rs arbitrary: acc m s) auto

lemma collect_rooms_need_keys:
  assumes "distinct (keys (rooms s))"
  shows "set (fst (collect_rooms env (rooms s) [] m s)) \<subseteq>
    set (keys (rooms (snd (snd (collect_rooms env (rooms s) [] m s)))))"
proof -
  have "r \<notin> inactive_keys (rooms s)" if "(r, x) \<in> set (rooms s)" "rs_active x" for r x
    using that eq_key_imp_eq_value [OF assms] by (auto simp: inactive_keys_def)
  then show ?thesis
    unfolding collect_rooms_keys by (force simp: collect_rooms_need)
qed

lemma sort_rooms_set: "containers_ok env \<Longrightarrow> set (sort_rooms env s rs) = set rs"
  by (auto simp: sort_rooms_def tie_set image_image)

lemma sort_workers_set: "containers_ok env \<Longrightarrow> set (sort_workers env s ids) = set ids"
  by (auto simp: sort_workers_def tie_set image_image)

lemma try_workers_avail:
  "set (fst (snd (try_workers env now m r [] avail s))) \<subseteq> set avail"
  using try_workers_one [of env now m r "[]" avail s]
  by (auto simp: one_assignment_def case_prod_beta)

lemma process_room_avail: "set (fst (process_room env now m k r st)) \<subseteq> set (fst st)"
  using try_workers_avail [of env now m r "fst st" "snd (snd st)"]
  by (auto simp: process_room_def Let_def case_prod_beta)

lemma collect_available_avail:
  "containers_ok env \<Longrightarrow> set (fst (collect_available env now s)) =
    {i. \<exists>w. (i, w) \<in> set (workers s) \<and> is_available now w}"
  by (auto simp: collect_available_def Let_def sort_workers_set)

section \<open>Relations closed under the phases\<close>

locale unassigning =
  fixes env :: sched_env
    and R :: "sched \<Rightarrow> sched \<Rightarrow> bool"
  assumes R_refl: "R s s"
    and R_trans: "R s t \<Longrightarrow> R t u \<Longrightarrow> R s u"
    and R_distinct: "R s t \<Longrightarrow> distinct_tasks s \<Longrightarrow> distinct_tasks t"
    and R_drop: "distinct_tasks s \<Longrightarrow> x \<in> set (tasks s) \<Longrightarrow> R s (drop_task env d x s)"
begin

lemma R_step: "R s t \<Longrightarrow> distinct_tasks s \<Longrightarrow> (distinct_tasks t \<Longrightarrow> R t u) \<Longrightarrow> R s u"
  by (blast intro: R_trans R_distinct)

lemma R_unassign_all:
  "distinct_tasks s \<Longrightarrow> set ts \<subseteq> set (tasks s) \<Longrightarrow> distinct (map task_key ts) \<Longrightarrow>
    R s (unassign_all env ts s)"
proof (induction ts arbitrary: s)
  case (Cons t ts)
  from Cons.prems have "R s (drop_task env True t s)" by (intro R_drop) auto
  moreover have "R (drop_task env True t s) (unassign_all env ts (drop_task env True t s))"
    using Cons.prems
    by (intro Cons.IH distinct_tasks_drop drop_keeps_others) auto
  ultimately show ?case by (auto intro: R_trans)
qed (simp add: R_refl)

lemma R_unassign_overkill:
  "distinct_tasks s \<Longrightarrow> set ts \<subseteq> set (tasks s) \<Longrightarrow> distinct (map task_key ts) \<Longrightarrow>
    R s (snd (unassign_overkill env i k n ts s))"
proof (induction ts arbitrary: s i n)
  case (Cons t ts)
  from Cons.prems have "R s (drop_task env False t s)" by (intro R_drop) auto
  moreover have "R (drop_task env False t s)
      (snd (unassign_overkill env (i + 1) k (n - 1) ts (drop_task env False t s)))"
    using Cons.prems
    by (intro Cons.IH distinct_tasks_drop drop_keeps_others) auto
  ultimately show ?case by (auto intro: R_trans R_refl)
qed (simp add: R_refl)

lemma R_expire_tasks:
  "distinct_tasks s \<Longrightarrow> set ts \<subseteq> set (tasks s) \<Longrightarrow> distinct (map task_key ts) \<Longrightarrow>
    R s (expire_tasks env now ts s)"
proof (induction ts arbitrary: s)
  case (Cons t ts)
  from Cons.prems have "R s (drop_task env True t s)" by (intro R_drop) auto
  moreover have "R (drop_task env True t s) (expire_tasks env now ts (drop_task env True t s))"
    using Cons.prems
    by (intro Cons.IH distinct_tasks_drop drop_keeps_others) auto
  ultimately show ?case using Cons by (auto simp: drop_task_commute intro: R_trans)
qed (simp add: R_refl)

lemma R_unassign_room:
  assumes "containers_ok env" and "distinct_tasks s"
  shows "R s (unassign_all env (room_range env r s) s)"
    and "R s (snd (unassign_overkill env i k n (room_range env r s) s))"
  using assms room_range_set [OF assms(1), of r s] room_range_distinct [OF assms]
  by (auto intro!: R_unassign_all R_unassign_overkill)

end

locale expiring = unassigning +
  assumes R_clock: "R s (snd (read_clock env s))"
    and R_disconnect: "distinct_tasks s \<Longrightarrow> R s (delete_and_disconnect_worker env i s)"
begin

lemma R_expire_workers: "distinct_tasks s \<Longrightarrow> R s (expire_workers env now es s)"
proof (induction es arbitrary: s rule: induct_list012)
  case (3 e f es)
  obtain i w where e: "e = (i, w)" by (cases e)
  let ?t = "delete_and_disconnect_worker env i s"
  have "R s ?t" using 3 by (intro R_disconnect)
  moreover have "R ?t (expire_workers env now zs ?t)" if "zs = es \<or> zs = f # es" for zs
    using that R_distinct [OF \<open>R s ?t\<close>] 3 by auto
  ultimately have "R s (expire_workers env now zs ?t)" if "zs = es \<or> zs = f # es" for zs
    using that by (blast intro: R_trans)
  with 3 show ?case by (simp add: e)
qed (auto intro: R_refl R_disconnect)

lemma R_check_interval: "distinct_tasks s \<Longrightarrow> R s (check_worker_task_interval env s)"
  unfolding check_worker_task_interval_def Let_def case_prod_beta
  by (rule R_step [OF R_clock], assumption, rule R_step [OF R_expire_workers], assumption+,
      rule R_expire_tasks) (simp_all add: distinct_tasks_def)

end

locale assigning = unassigning +
  fixes A :: "identifier_t set"
  assumes R_assign: "containers_ok env \<Longrightarrow> distinct_tasks s \<Longrightarrow> find_task i r s = None \<Longrightarrow>
      \<not> exhausted i s \<Longrightarrow> i \<in> A \<Longrightarrow> r \<in> set (keys (rooms s)) \<Longrightarrow> R s (snd (assign_task env i r now s))"
begin

lemma R_try_workers:
  assumes "containers_ok env" and "distinct_tasks s" and "r \<in> set (keys (rooms s))"
    and "set avail \<subseteq> A"
  shows "R s (snd (snd (try_workers env now m r [] avail s)))"
  by (rule try_workers_cases [of env now m r avail s])
    (use assms in \<open>auto simp: R_refl simp del: set_map intro!: R_assign\<close>)

lemma R_process_room:
  assumes "containers_ok env" and "distinct_tasks s" and "r \<in> set (keys (rooms s))"
    and "set avail \<subseteq> A"
  shows "R s (snd (snd (process_room env now m k r (avail, n, s))))"
proof -
  define s' where "s' = snd (snd (try_workers env now m r [] avail s))"
  have "R s s'" using R_try_workers [OF assms] by (simp add: s'_def)
  moreover from this have "distinct_tasks s'" by (rule R_distinct [OF _ assms(2)])
  then have "R s' (snd (unassign_overkill env 0 x n (room_range env r s') s'))" for x
    by (rule R_unassign_room(2) [OF assms(1)])
  ultimately show ?thesis
    by (auto simp: process_room_def s'_def Let_def case_prod_beta intro: R_trans)
qed

lemma R_fold_rooms:
  "containers_ok env \<Longrightarrow> distinct_tasks (snd (snd st)) \<Longrightarrow> set rs \<subseteq> set (keys (rooms (snd (snd st)))) \<Longrightarrow>
    set (fst st) \<subseteq> A \<Longrightarrow> R (snd (snd st)) (snd (snd (fold (process_room env now m k) rs st)))"
proof (induction rs arbitrary: st)
  case (Cons r rs)
  let ?st = "process_room env now m k r st"
  have one: "R (snd (snd st)) (snd (snd ?st))"
    using R_process_room [of "snd (snd st)" r "fst st" now m k "fst (snd st)"] Cons.prems by simp
  then have "distinct_tasks (snd (snd ?st))" using Cons.prems R_distinct by blast
  moreover have "set (fst ?st) \<subseteq> A" using process_room_avail Cons.prems(4) by blast
  ultimately have "R (snd (snd ?st)) (snd (snd (fold (process_room env now m k) rs ?st)))"
    using Cons.prems by (intro Cons.IH) (simp_all del: set_map)
  with one show ?case by (auto intro: R_trans)
qed (simp add: R_refl)

lemma R_assign_tasks:
  "containers_ok env \<Longrightarrow> distinct_tasks s \<Longrightarrow> set rs \<subseteq> set (keys (rooms s)) \<Longrightarrow> set avail \<subseteq> A \<Longrightarrow>
    R s (assign_tasks env now m k rs avail s)"
  using R_fold_rooms [of "(avail, room_disconnect_throttling, s)"] by (simp add: assign_tasks_def)

end

locale clearing = assigning +
  assumes R_diagnostics: "R s (update_diagnostics m s)"
    and R_erase: "\<forall>t \<in> set (tasks s). rt_room_id t \<noteq> r \<Longrightarrow>
      R s (s\<lparr>rooms := erase_key r (rooms s)\<rparr>)"
begin

lemma R_delete_room: "containers_ok env \<Longrightarrow> distinct_tasks s \<Longrightarrow> R s (delete_room env r s)"
  unfolding delete_room_def Let_def
  by (rule R_trans [OF R_unassign_room(1) R_erase]) (auto simp: unassign_room_range)

lemma R_collect_rooms:
  "containers_ok env \<Longrightarrow> distinct_tasks s \<Longrightarrow> R s (snd (snd (collect_rooms env rs acc m s)))"
proof (induction rs arbitrary: acc m s)
  case (Cons e rs)
  have "R (delete_room env (fst e) s) (snd (snd (collect_rooms env rs acc m (delete_room env (fst e) s))))"
    using Cons R_distinct R_delete_room by blast
  then have "R s (snd (snd (collect_rooms env rs acc m (delete_room env (fst e) s))))"
    using Cons.prems R_delete_room R_trans by blast
  with Cons show ?case by (cases e) simp
qed (simp add: R_refl)

lemma R_room_pass:
  assumes ok: "containers_ok env" and "distinct_tasks s" and dist: "distinct (keys (rooms s))"
    and dom: "set avail \<subseteq> A"
  shows "R s (room_pass env now avail s)"
proof -
  define s2 where "s2 = update_diagnostics (max_tasks_per_room s) s"
  define res where "res = collect_rooms env (rooms s2) [] initial_min_tasks s2"
  define s3 where "s3 = snd (snd res)"
  have "R s s2" using R_diagnostics unfolding s2_def by blast
  moreover from this have d2: "distinct_tasks s2" using assms(2) by (rule R_distinct)
  then have "R s2 s3" unfolding s3_def res_def by (rule R_collect_rooms [OF ok])
  moreover from this have "distinct_tasks s3" using d2 by (rule R_distinct)
  moreover have "rooms s2 = rooms s" by (simp add: s2_def update_diagnostics_def)
  then have "set (fst res) \<subseteq> set (keys (rooms s3))"
    using collect_rooms_need_keys [of s2 env initial_min_tasks] dist
    unfolding s3_def res_def by simp
  ultimately have "R s3 (assign_tasks env now m k (sort_rooms env s3 (fst res)) avail s3)" for m k
    using dom by (intro R_assign_tasks [OF ok]) (simp_all add: sort_rooms_set [OF ok])
  moreover have "R s s3" using \<open>R s s2\<close> \<open>R s2 s3\<close> by (rule R_trans)
  ultimately have "R s (assign_tasks env now m k (sort_rooms env s3 (fst res)) avail s3)" for m k
    using R_trans by blast
  then show ?thesis
    by (simp add: room_pass_def Let_def case_prod_beta s2_def s3_def res_def)
qed

end

locale scheduling = clearing +
  assumes R_collect: "distinct_tasks s \<Longrightarrow> R s (snd (collect_available env now s))"
begin

lemma R_assignment_pass:
  assumes ok: "containers_ok env" and dist: "distinct_tasks s" "distinct (keys (rooms s))"
    and dom: "{i. \<exists>w. (i, w) \<in> set (workers s) \<and> is_available now w} \<subseteq> A"
  shows "R s (assignment_pass env now s)"
proof -
  have "R s (snd (collect_available env now s))" by (rule R_collect [OF dist(1)])
  moreover have "R (snd (collect_available env now s)) (assignment_pass env now s)"
    unfolding assignment_pass_def Let_def case_prod_beta
  proof (rule R_room_pass [OF ok])
    show "distinct_tasks (snd (collect_available env now s))"
      by (rule R_distinct [OF R_collect dist(1)]) (rule dist(1))
    show "distinct (keys (rooms (snd (collect_available env now s))))"
      using dist(2) by (simp add: collect_available_def Let_def)
    show "set (fst (collect_available env now s)) \<subseteq> A"
      unfolding collect_available_avail [OF ok] by (rule dom)
  qed
  ultimately show ?thesis by (rule R_trans)
qed

end

end
