(* ===== verification/Sched_Contract.thy ===== *)
theory Sched_Contract
  imports Sched_Pass
begin

text \<open>
  The relations of \<open>Sched_Pass\<close> the scheduler's phases are in: the containers stay well-formed and
  the counters exact (\<open>keeps_pass\<close>), and the tasks are exactly what the messages sent say
  (\<open>tracks\<close>): replaying the assign, unassign and disconnect messages on the old set of tasks gives
  the new one.
\<close>

section \<open>Exact counters\<close>

definition counts_exact :: "sched \<Rightarrow> bool" where
  "counts_exact s \<longleftrightarrow>
     (\<forall>(i, w) \<in> set (workers s). ws_current_connections w = worker_task_count i (tasks s))
   \<and> (\<forall>(r, x) \<in> set (rooms s). rs_current_connections x = room_task_count r (tasks s))"

lemma refresh_counts_exact: "counts_exact (refresh_counts s)"
  by (auto simp: counts_exact_def refresh_counts_def)

definition pass_inv :: "sched \<Rightarrow> bool" where
  "pass_inv s \<longleftrightarrow> sched_inv s \<and> counts_exact s"

lemma sched_inv_distinct: "sched_inv s \<Longrightarrow> distinct_tasks s"
  by (simp add: sched_inv_def wf_sched_def distinct_tasks_def)

lemma counts_exact_worker:
  "counts_exact s \<Longrightarrow> (i, w) \<in> set (workers s) \<Longrightarrow> ws_current_connections w = worker_task_count i (tasks s)"
  by (auto simp: counts_exact_def)

lemma counts_exact_room:
  "counts_exact s \<Longrightarrow> (r, x) \<in> set (rooms s) \<Longrightarrow> rs_current_connections x = room_task_count r (tasks s)"
  by (auto simp: counts_exact_def)

lemma penalize_workers:
  "workers (penalize env i w s) = modify i (\<lambda>w'. w'\<lparr>ws_allow_new_task_after :=
     (if ws_punished w then ws_allow_new_task_after w' else system_clock env (clock_reads s))
       + minutes (worker_penalty_min env)\<rparr>) (workers s)"
  by (simp add: penalize_def Let_def case_prod_beta)

text \<open>What the removal of a task of the set does to the two maps.\<close>

definition drop_worker :: "sched_env \<Rightarrow> bool \<Rightarrow> sched \<Rightarrow> worker_status \<Rightarrow> worker_status \<Rightarrow> worker_status" where
  "drop_worker env d s w0 w =
     (let w' = (if d then w\<lparr>ws_allow_new_task_after := (if ws_punished w0
         then ws_allow_new_task_after w else system_clock env (clock_reads s))
         + minutes (worker_penalty_min env)\<rparr> else w) in
      w'\<lparr>ws_current_connections := ws_current_connections w' - 1\<rparr>)"

lemma drop_worker_fields [simp]:
  "ws_identifier (drop_worker env d s w0 w) = ws_identifier w"
  "ws_max_rooms (drop_worker env d s w0 w) = ws_max_rooms w"
  "ws_punished (drop_worker env d s w0 w) = ws_punished w"
  "ws_initialized (drop_worker env d s w0 w) = ws_initialized w"
  "ws_current_connections (drop_worker env d s w0 w) = ws_current_connections w - 1"
  "ws_remaining_this_bunch (drop_worker env d s w0 w) = ws_remaining_this_bunch w"
  by (simp_all add: drop_worker_def Let_def)

lemma delete_task_at_rooms:
  "rooms (delete_task_at env (Some t) d s) = modify (rt_room_id t)
     (\<lambda>x. x\<lparr>rs_current_connections := rs_current_connections x - 1\<rparr>) (rooms s)"
proof (cases "map_of (rooms s) (rt_room_id t)")
  case None
  then show ?thesis
    by (auto simp: delete_task_at_def Let_def map_of_None_keys modify_absent split: option.split)
qed (auto simp: delete_task_at_def Let_def split: option.split)

lemma delete_task_at_workers:
  "workers (delete_task_at env (Some t) d s) =
    (case map_of (workers s) (rt_identifier t) of None \<Rightarrow> workers s
     | Some w0 \<Rightarrow> modify (rt_identifier t) (drop_worker env d s w0) (workers s))"
proof (cases "map_of (workers s) (rt_identifier t)")
  case (Some w0)
  then show ?thesis
    by (cases "map_of (rooms s) (rt_room_id t)"; cases d; cases "ws_punished w0")
      (simp_all add: delete_task_at_def Let_def penalize_workers modify_modify comp_def
        drop_worker_def [abs_def] Let_def)
qed (auto simp: delete_task_at_def Let_def split: option.split)


section \<open>The pass keeps the invariants\<close>

lemma counts_exactI:
  assumes "\<And>i w. (i, w) \<in> set (workers s) \<Longrightarrow> ws_current_connections w = worker_task_count i (tasks s)"
    and "\<And>r x. (r, x) \<in> set (rooms s) \<Longrightarrow> rs_current_connections x = room_task_count r (tasks s)"
  shows "counts_exact s"
  using assms by (auto simp: counts_exact_def)

lemma drop_worker_entry:
  assumes "(j, w) \<in> set (workers (delete_task_at env (Some t) d s))"
  obtains w0 where "(j, w0) \<in> set (workers s)" "ws_max_rooms w = ws_max_rooms w0"
    "ws_current_connections w = ws_current_connections w0 - (if rt_identifier t = j then 1 else 0)"
proof (cases "map_of (workers s) (rt_identifier t)")
  case None
  then have "(j, w) \<in> set (workers s)" using assms by (simp add: delete_task_at_workers)
  moreover from this None have "j \<noteq> rt_identifier t" by (auto simp: map_of_eq_None_iff image_iff)
  ultimately show ?thesis using that by auto
next
  case (Some w0)
  then have "(j, w) \<in> set (modify (rt_identifier t) (drop_worker env d s w0) (workers s))"
    using assms by (simp add: delete_task_at_workers)
  then show ?thesis by (cases rule: in_modifyE) (use that in auto)
qed

lemma drop_room_entry:
  assumes "(r, x) \<in> set (rooms (delete_task_at env (Some t) d s))"
  obtains x0 where "(r, x0) \<in> set (rooms s)" "rs_active x = rs_active x0"
    "rs_current_connections x = rs_current_connections x0 - (if rt_room_id t = r then 1 else 0)"
  using assms unfolding delete_task_at_rooms by (cases rule: in_modifyE) (use that in auto)

lemma counts_exact_drop:
  assumes "counts_exact s" and "distinct_tasks s" and "t \<in> set (tasks s)"
  shows "counts_exact (delete_task_at env (Some t) d s)"
proof -
  have "distinct (map task_key (tasks s))" using assms(2) by (simp add: distinct_tasks_def)
  note counts = count_worker_remove [OF this assms(3)] count_room_remove [OF this assms(3)]
  show ?thesis
    by (rule counts_exactI; erule drop_worker_entry drop_room_entry)
      (simp_all only: delete_task_at_fields counts counts_exact_worker [OF assms(1)]
        counts_exact_room [OF assms(1)])
qed

lemma counts_exact_emit [simp]: "counts_exact (emit out s) \<longleftrightarrow> counts_exact s"
  by (simp add: counts_exact_def)

definition keeps_pass :: "sched \<Rightarrow> sched \<Rightarrow> bool" where
  "keeps_pass s t \<longleftrightarrow> (distinct_tasks s \<longrightarrow> distinct_tasks t) \<and> (pass_inv s \<longrightarrow> pass_inv t)"

lemma sched_inv_drop: "sched_inv s \<Longrightarrow> sched_inv (drop_task env d t s)"
  by (simp add: delete_task_at_inv send_unassign_def)

lemma collect_available_fields [simp]:
  "tasks (snd (collect_available env now s)) = tasks s"
  "rooms (snd (collect_available env now s)) = rooms s"
  "outputs (snd (collect_available env now s)) = outputs s"
  "keys (workers (snd (collect_available env now s))) = keys (workers s)"
  by (auto simp: collect_available_def Let_def)

lemma collect_available_workers:
  "workers (snd (collect_available env now s)) = map (\<lambda>(i, w). (i, if is_available now w
     then w\<lparr>ws_punished := False, ws_remaining_this_bunch := max_new_tasks_per_bunch env\<rparr>
     else w)) (workers s)"
  by (simp add: collect_available_def Let_def)

lemma collect_available_inv: "sched_inv s \<Longrightarrow> sched_inv (snd (collect_available env now s))"
  unfolding sched_inv_def collect_available_workers collect_available_fields
  by (intro conjI wf_map_workers capacity_map_workers) (auto split: if_splits)

lemma collect_available_counts: "counts_exact s \<Longrightarrow> counts_exact (snd (collect_available env now s))"
  unfolding counts_exact_def collect_available_workers collect_available_fields by fastforce

lemma assign_task_maps:
  assumes "find_task i r s = None"
  shows "tasks (snd (assign_task env i r now s)) = place_task env (tasks s) (new_room_task i r now)"
    and "rooms (snd (assign_task env i r now s)) =
      modify r (\<lambda>x. x\<lparr>rs_current_connections := rs_current_connections x + 1\<rparr>) (rooms s)"
    and "workers (snd (assign_task env i r now s)) =
      modify i (\<lambda>w. w\<lparr>ws_current_connections := ws_current_connections w + 1,
        ws_remaining_this_bunch := ws_remaining_this_bunch w - 1\<rparr>) (workers s)"
    and "outputs (snd (assign_task env i r now s)) = outputs s @ [Send_assign i r]"
  using assms by (simp_all add: assign_task_def Let_def modify_modify comp_def)


lemma assign_task_counts:
  assumes ok: "containers_ok env" and free: "find_task i r s = None" and exact: "counts_exact s"
  shows "counts_exact (snd (assign_task env i r now s))"
proof (rule counts_exactI)
  note maps = assign_task_maps [OF free, of env now]
  note counts = count_place [OF containers_placing(1) [OF ok]]
  fix j w assume "(j, w) \<in> set (workers (snd (assign_task env i r now s)))"
  then show "ws_current_connections w = worker_task_count j (tasks (snd (assign_task env i r now s)))"
    unfolding maps by (cases rule: in_modifyE)
      (simp_all add: counts new_room_task_def counts_exact_worker [OF exact])
next
  note maps = assign_task_maps [OF free, of env now]
  note counts = count_place [OF containers_placing(1) [OF ok]]
  fix q x assume "(q, x) \<in> set (rooms (snd (assign_task env i r now s)))"
  then show "rs_current_connections x = room_task_count q (tasks (snd (assign_task env i r now s)))"
    unfolding maps by (cases rule: in_modifyE)
      (simp_all add: counts new_room_task_def counts_exact_room [OF exact])
qed

lemma assign_task_wf:
  assumes ok: "containers_ok env" and free: "find_task i r s = None" and wf: "sched_wf s"
    and known: "i \<in> set (keys (workers s))" "r \<in> set (keys (rooms s))"
  shows "sched_wf (snd (assign_task env i r now s))"
proof -
  let ?t = "new_room_task i r now"
  have "task_key ?t \<notin> task_key ` set (tasks s)"
    using free by (simp add: find_task_None new_room_task_def)
  then have "wf_sched (place_task env (tasks s) ?t) (rooms s) (workers s)"
    using known wf_place_task [OF wf containers_placing(1) [OF ok], of ?t]
    by (simp add: new_room_task_def del: set_map)
  then show ?thesis
    unfolding assign_task_maps [OF free] by (rule wf_modify_worker [OF wf_modify_room]) simp_all
qed

lemma assign_task_capacity:
  assumes ok: "containers_ok env" and free: "find_task i r s = None" and inv: "pass_inv s"
    and live: "\<not> exhausted i s"
  shows "sched_capacity (snd (assign_task env i r now s))"
proof -
  have cap: "sched_capacity s" and exact: "counts_exact s" and dist: "distinct (keys (workers s))"
    using inv by (simp_all add: pass_inv_def sched_inv_def wf_sched_def)
  have room: "worker_task_count i (tasks s) \<le> ws_max_rooms w" if "(i, w) \<in> set (workers s)" for w
    using live that dist counts_exact_worker [OF exact that]
    by (simp add: exhausted_def map_of_is_SomeI)
  have "within_capacity (place_task env (tasks s) (new_room_task i r now)) (workers s)"
    using cap room unfolding within_capacity_def
    by (fastforce simp: count_place [OF containers_placing(1) [OF ok]] new_room_task_def)
  then show ?thesis unfolding assign_task_maps [OF free] by (rule capacity_modify) simp
qed

lemma not_exhausted_known: "\<not> exhausted i s \<Longrightarrow> i \<in> set (keys (workers s))"
  by (auto simp: exhausted_def dest: map_of_Some_keys split: option.splits)

lemma assign_task_pass_inv:
  "containers_ok env \<Longrightarrow> find_task i r s = None \<Longrightarrow> \<not> exhausted i s \<Longrightarrow> r \<in> set (keys (rooms s)) \<Longrightarrow>
    pass_inv s \<Longrightarrow> pass_inv (snd (assign_task env i r now s))"
  using assign_task_capacity not_exhausted_known assign_task_wf assign_task_counts
  by (simp add: pass_inv_def sched_inv_def del: set_map)

lemma assign_task_distinct:
  assumes "containers_ok env" and "find_task i r s = None" and "distinct_tasks s"
  shows "distinct_tasks (snd (assign_task env i r now s))"
  using assms
  by (simp add: distinct_tasks_def assign_task_maps find_task_None new_room_task_def
      placing.distinct_map_place [OF containers_placing(1)])

lemma erase_room_pass_inv:
  "\<forall>t \<in> set (tasks s). rt_room_id t \<noteq> r \<Longrightarrow> pass_inv s \<Longrightarrow>
    pass_inv (s\<lparr>rooms := erase_key r (rooms s)\<rparr>)"
  by (auto simp: pass_inv_def sched_inv_def counts_exact_def intro!: wf_erase_room)

interpretation pass: scheduling env keeps_pass UNIV for env
proof
  show "keeps_pass s s" for s by (simp add: keeps_pass_def)
  show "keeps_pass s t \<Longrightarrow> keeps_pass t u \<Longrightarrow> keeps_pass s u" for s t u
    by (simp add: keeps_pass_def)
  show "keeps_pass s t \<Longrightarrow> distinct_tasks s \<Longrightarrow> distinct_tasks t" for s t
    by (simp add: keeps_pass_def)
  show "distinct_tasks s \<Longrightarrow> t \<in> set (tasks s) \<Longrightarrow> keeps_pass s (drop_task env d t s)" for s t d
    using counts_exact_drop [where env = env and t = t and d = d
        and s = "send_unassign (rt_identifier t) (rt_room_id t) s"]
      distinct_tasks_drop [where env = env and s = s and t = t and d = d]
      sched_inv_drop [where env = env and s = s and t = t and d = d]
    unfolding keeps_pass_def pass_inv_def distinct_tasks_def
    by (simp add: send_unassign_def del: delete_task_at_fields)
  show "keeps_pass s (snd (collect_available env now s))" for s now
    by (simp add: keeps_pass_def pass_inv_def collect_available_inv collect_available_counts
        distinct_tasks_def)
  show "keeps_pass s (update_diagnostics m s)" for s m
    by (simp add: keeps_pass_def pass_inv_def update_diagnostics_def distinct_tasks_def)
  show "keeps_pass s (snd (assign_task env i r now s))"
    if "containers_ok env" "find_task i r s = None" "\<not> exhausted i s" "r \<in> set (keys (rooms s))"
    for s i r now
    using that assign_task_pass_inv assign_task_distinct unfolding keeps_pass_def by blast
  show "keeps_pass s (s\<lparr>rooms := erase_key r (rooms s)\<rparr>)"
    if "\<forall>t \<in> set (tasks s). rt_room_id t \<noteq> r" for s r
    using erase_room_pass_inv [OF that] by (simp add: keeps_pass_def distinct_tasks_def)
qed

end
