(* ===== verification/Sched_Sync.thy ===== *)
theory Sched_Sync
  imports Sched_Contract Sched_Events
begin

text \<open>
  The two specifications of a pass over the relations of \<open>Sched_Pass\<close>: the invariant of all
  reachable states of the scheduler, and the agreement of the task set with the messages sent.
\<close>

section \<open>The invariant of every operation\<close>

definition keeps_inv :: "sched \<Rightarrow> sched \<Rightarrow> bool" where
  "keeps_inv s t \<longleftrightarrow> (distinct_tasks s \<longrightarrow> distinct_tasks t) \<and> (sched_inv s \<longrightarrow> sched_inv t)"

interpretation timeouts: expiring env keeps_inv for env
proof
  show "keeps_inv s s" for s by (simp add: keeps_inv_def)
  show "keeps_inv s t \<Longrightarrow> keeps_inv t u \<Longrightarrow> keeps_inv s u" for s t u
    by (simp add: keeps_inv_def)
  show "keeps_inv s t \<Longrightarrow> distinct_tasks s \<Longrightarrow> distinct_tasks t" for s t
    by (simp add: keeps_inv_def)
  show "keeps_inv s (drop_task env d t s)" for s t d
    using distinct_tasks_drop sched_inv_drop unfolding keeps_inv_def by blast
  show "keeps_inv s (snd (read_clock env s))" for s
    by (simp add: keeps_inv_def distinct_tasks_def)
  show "keeps_inv s (delete_and_disconnect_worker env i s)" for s i
    by (simp add: keeps_inv_def delete_worker_inv distinct_tasks_def
        delete_and_disconnect_worker_def distinct_map_filter)
qed

lemma sched_inv_rooms_distinct: "sched_inv s \<Longrightarrow> distinct (keys (rooms s))"
  by (simp add: sched_inv_def wf_sched_def)

lemma refreshed_pass_inv:
  "sched_inv s \<Longrightarrow> pass_inv (refresh_counts (check_worker_task_interval env s))"
  by (simp add: pass_inv_def refresh_counts_inv check_worker_task_interval_inv refresh_counts_exact)

lemma schedule_pass_pass_inv:
  assumes "containers_ok env" and "sched_inv s"
  shows "pass_inv (schedule_pass env now s)"
proof -
  let ?s = "refresh_counts (check_worker_task_interval env s)"
  have inv: "pass_inv ?s" by (rule refreshed_pass_inv [OF assms(2)])
  then have "sched_inv ?s" by (simp add: pass_inv_def)
  then have "keeps_pass ?s (assignment_pass env now ?s)"
    by (intro pass.R_assignment_pass assms sched_inv_distinct sched_inv_rooms_distinct) simp_all
  with inv show ?thesis by (simp add: keeps_pass_def schedule_pass_def)
qed

lemma sched_inv_last_checked [simp]: "sched_inv (s\<lparr>last_checked := x\<rparr>) \<longleftrightarrow> sched_inv s"
  by (simp add: sched_inv_def)

lemma check_all_states_inv:
  "containers_ok env \<Longrightarrow> sched_inv s \<Longrightarrow> sched_inv (check_all_states env s)"
  using schedule_pass_pass_inv
  by (simp add: check_all_states_def case_prod_beta Let_def pass_inv_def)

lemma add_rooms_inv: "containers_ok env \<Longrightarrow> sched_inv s \<Longrightarrow> sched_inv (add_rooms env rs s)"
proof (induction rs arbitrary: s)
  case (Cons r rs)
  have "sched_inv (s\<lparr>rooms := place_room env (rooms s) (r, new_room_status r)\<rparr>)"
    if "map_of (rooms s) r = None"
    using that Cons.prems wf_place_room [OF _ containers_placing(3) [OF Cons.prems(1)],
      of "tasks s" "rooms s" "workers s" r "new_room_status r"]
    unfolding sched_inv_def map_of_None_keys by (simp add: new_room_status_def del: set_map)
  with Cons show ?case by simp
qed simp

lemma update_room_lists_inv:
  assumes "containers_ok env" and "sched_inv s"
  shows "sched_inv (update_room_lists env ids s)"
  unfolding update_room_lists_def
  by (rule add_rooms_inv [OF assms(1)]) (use assms(2) in \<open>auto simp: sched_inv_def intro!: wf_map_rooms\<close>)

lemma handle_new_worker_inv:
  assumes ok: "containers_ok env" and inv: "sched_inv s"
  shows "sched_inv (handle_new_worker env i s)"
proof (cases "map_of (workers s) i")
  case None
  then have "i \<notin> set (keys (workers s))" by (simp add: map_of_None_keys)
  moreover from this have "worker_task_count i (tasks s) = 0"
    using inv by (auto simp: sched_inv_def wf_sched_def worker_task_count_def filter_empty_conv)
  ultimately show ?thesis
    using None inv wf_place_worker [OF _ containers_placing(2) [OF ok], of "tasks s" "rooms s" "workers s" i]
    unfolding sched_inv_def
    by (auto simp: handle_new_worker_def case_prod_beta Let_def new_worker_status_def
        within_capacity_def placing.set_place [OF containers_placing(2) [OF ok]])
next
  case (Some w)
  then show ?thesis using inv
    by (auto simp: handle_new_worker_def case_prod_beta Let_def
        intro!: sched_inv_upd_worker reset_worker_inv)
qed

lemma mark_ready_keeps:
  "ws_identifier (w\<lparr>ws_initialized := b, ws_max_rooms := m\<rparr>) = ws_identifier w"
  "ws_punished (w\<lparr>ws_initialized := b, ws_max_rooms := m\<rparr>) = ws_punished w"
  by simp_all

lemma reset_worker_idle:
  "worker_task_count i (tasks (reset_worker env i s)) = 0"
  by (simp add: count_cleared)

lemma handle_worker_ready_inv:
  assumes "containers_ok env" and "sched_inv s"
  shows "sched_inv (handle_worker_ready env i payload s)"
proof -
  have "sched_inv (if \<not> auth_accepted (auth_code_field s) payload
      then emit (Disconnect_worker i) (delete_worker env i s) else s)"
    by (simp add: delete_worker_inv assms)
  then show ?thesis
    unfolding handle_worker_ready_def Let_def
    by (intro check_all_states_inv assms sched_inv_upd_idle_worker reset_worker_inv)
      (simp_all only: reset_worker_idle mark_ready_keeps)
qed

definition touch_task :: "identifier_t \<times> room_id \<Rightarrow> time \<Rightarrow> room_task \<Rightarrow> room_task" where
  "touch_task k now t = (if task_key t = k then t\<lparr>rt_last_received := now\<rparr> else t)"

lemma touch_task_ids [simp]:
  "rt_identifier (touch_task k now t) = rt_identifier t" "rt_room_id (touch_task k now t) = rt_room_id t"
  by (simp_all add: touch_task_def)

lemma touch_task_map [simp]:
  "map (\<lambda>t. task_key (touch_task k now t)) ts = map task_key ts"
  "map task_key (map (touch_task k now) ts) = map task_key ts"
  "worker_task_count i (map (touch_task k now) ts) = worker_task_count i ts"
  "room_task_count r (map (touch_task k now) ts) = room_task_count r ts"
  by (simp_all add: worker_task_count_def room_task_count_def filter_map comp_def)

lemma sched_inv_touch_task:
  "sched_inv s \<Longrightarrow> sched_inv (s\<lparr>tasks := map (touch_task k now) (tasks s)\<rparr>)"
  unfolding sched_inv_def wf_sched_def within_capacity_def
  by (simp del: map_map)

lemma forward_data_inv [simp]: "sched_inv (forward_data env payload s) \<longleftrightarrow> sched_inv s"
  by (simp add: forward_data_def)

lemma handle_worker_data_inv: "sched_inv s \<Longrightarrow> sched_inv (handle_worker_data env i payload now s)"
  unfolding handle_worker_data_def Let_def touch_task_def [symmetric, abs_def]
  by (auto split: option.split intro!: sched_inv_upd_room sched_inv_touch_task)

lemma handle_buffer_inv:
  assumes ok: "containers_ok env" and inv: "sched_inv s"
  shows "sched_inv (handle_buffer env i payload s)"
proof -
  have up: "sched_inv (upd_worker i (\<lambda>w. w\<lparr>ws_last_received := now\<rparr>) (snd (read_clock env s)))" for now
    by (rule sched_inv_upd_worker) (simp_all add: inv)
  note clear = clear_worker_tasks_inv [OF inv]
  show ?thesis
    unfolding handle_buffer_def Let_def case_prod_beta
    by (auto simp del: read_clock_fields split: option.split intro!: inv clear handle_worker_ready_inv [OF ok]
        check_all_states_inv [OF ok] delete_task_inv handle_worker_data_inv up)
qed

lemma handle_worker_disconnect_inv:
  "sched_inv s \<Longrightarrow> sched_inv (handle_worker_disconnect env i s)"
  by (simp add: handle_worker_disconnect_def Let_def delete_worker_inv clear_worker_tasks_inv
      split: option.split)

lemma load_auth_code_inv: "load_auth_code code s = Some t \<Longrightarrow> sched_inv t = sched_inv s"
  by (auto simp: load_auth_code_def sched_inv_def)

lemma handle_event_inv:
  assumes "containers_ok env" and "sched_inv s" and "handle_event env ev s = Some t"
  shows "sched_inv t"
  using assms
  by (cases ev) (auto simp: handle_new_worker_inv handle_buffer_inv handle_worker_disconnect_inv
      check_all_states_inv update_room_lists_inv load_auth_code_inv)

interpretation scheduler: invariant_system sched_start sched_step sched_inv
proof
  show "sched_start s \<Longrightarrow> sched_inv s" for s
    by (auto simp: sched_start.simps init_sched_def load_auth_code_def sched_inv_def wf_sched_def
        within_capacity_def)
  show "sched_inv s \<Longrightarrow> sched_step s t \<Longrightarrow> sched_inv t" for s t
    by (auto elim!: sched_stepE intro: handle_event_inv)
qed

section \<open>The tasks agree with the messages sent\<close>

definition live :: "sched \<Rightarrow> (identifier_t \<times> room_id) set" where
  "live s = task_key ` set (tasks s)"

fun apply_output :: "sched_output \<Rightarrow> (identifier_t \<times> room_id) set \<Rightarrow> (identifier_t \<times> room_id) set" where
  "apply_output (Send_assign i r) A = insert (i, r) A"
| "apply_output (Send_unassign i r) A = A - {(i, r)}"
| "apply_output (Disconnect_worker i) A = {p \<in> A. fst p \<noteq> i}"
| "apply_output (Worker_data _ _ _) A = A"
| "apply_output (Diagnostics _) A = A"

text \<open>A sequence of messages announces no assignment twice: at every assignment the worker does not
  have the room.\<close>

fun announced :: "sched_output list \<Rightarrow> (identifier_t \<times> room_id) set \<Rightarrow> bool" where
  "announced [] A \<longleftrightarrow> True"
| "announced (out # outs) A \<longleftrightarrow>
     (case out of Send_assign i r \<Rightarrow> (i, r) \<notin> A | _ \<Rightarrow> True) \<and> announced outs (apply_output out A)"

lemma announced_append [simp]:
  "announced (xs @ ys) A \<longleftrightarrow> announced xs A \<and> announced ys (fold apply_output xs A)"
  by (induction xs arbitrary: A) auto

definition told :: "sched \<Rightarrow> sched \<Rightarrow> bool" where
  "told s t \<longleftrightarrow> (\<exists>new. outputs t = outputs s @ new \<and> live t = fold apply_output new (live s)
     \<and> announced new (live s))"

lemma told_refl: "told s s"
  by (auto simp: told_def intro: exI [of _ "[]"])

lemma told_trans:
  assumes "told s t" and "told t u"
  shows "told s u"
proof -
  obtain new new' where "outputs t = outputs s @ new" "live t = fold apply_output new (live s)"
    "announced new (live s)" "outputs u = outputs t @ new'" "live u = fold apply_output new' (live t)"
    "announced new' (live t)"
    using assms by (auto simp: told_def)
  then show ?thesis unfolding told_def by (intro exI [of _ "new @ new'"]) simp
qed

lemma told_silent: "outputs t = outputs s \<Longrightarrow> live t = live s \<Longrightarrow> told s t"
  by (simp add: told_def)

lemma told_one: "outputs t = outputs s @ [out] \<Longrightarrow> live t = apply_output out (live s)
    \<Longrightarrow> announced [out] (live s) \<Longrightarrow> told s t"
  by (simp add: told_def)

lemma live_drop: "live (drop_task env d t s) = live s - {task_key t}"
  by (auto simp: live_def)

lemma live_disconnect: "live (delete_and_disconnect_worker env i s) = {p \<in> live s. fst p \<noteq> i}"
proof -
  have "tasks (delete_and_disconnect_worker env i s) = filter (\<lambda>t. rt_identifier t \<noteq> i) (tasks s)"
    by (simp add: delete_and_disconnect_worker_def)
  then show ?thesis unfolding live_def by force
qed

lemma live_assign:
  "containers_ok env \<Longrightarrow> find_task i r s = None \<Longrightarrow>
    live (snd (assign_task env i r now s)) = insert (i, r) (live s)"
  by (simp add: live_def assign_task_maps placing.set_place [OF containers_placing(1)] new_room_task_def)

lemma find_task_absent: "find_task i r s = None \<Longrightarrow> (i, r) \<notin> live s"
  by (auto simp: find_task_def find_None_iff live_def)

definition tracks :: "sched \<Rightarrow> sched \<Rightarrow> bool" where
  "tracks s t \<longleftrightarrow> (distinct_tasks s \<longrightarrow> distinct_tasks t) \<and> told s t"

lemma tracks_basics:
  "tracks s s" "tracks s t \<Longrightarrow> tracks t u \<Longrightarrow> tracks s u"
  "tracks s t \<Longrightarrow> distinct_tasks s \<Longrightarrow> distinct_tasks t" "tracks s (drop_task env d x s)"
  unfolding tracks_def
  by (auto intro: told_refl told_trans told_one distinct_tasks_drop simp: live_drop simp del: delete_task_at_fields(1))

interpretation tracked_timeouts: expiring env tracks for env
proof (unfold_locales, goal_cases)
  case (5 s)
  then show ?case by (simp add: tracks_def told_silent distinct_tasks_def live_def)
next
  case (6 s i)
  then show ?case
    using told_one [OF _ live_disconnect [of env i s, folded apply_output.simps(3)]]
    by (simp add: tracks_def distinct_tasks_def delete_and_disconnect_worker_def distinct_map_filter)
qed (auto intro: tracks_basics)

interpretation tracked_pass: scheduling env tracks UNIV for env
proof (unfold_locales, goal_cases)
  case (4 s now)
  then show ?case by (simp add: tracks_def told_silent distinct_tasks_def live_def)
next
  case (2 s m)
  have "told s (update_diagnostics m s)"
    unfolding update_diagnostics_def by (rule told_one [OF emit_fields(7)]) (simp_all add: live_def)
  then show ?case by (simp add: tracks_def distinct_tasks_def update_diagnostics_def)
next
  case (1 s i r now)
  then have "told s (snd (assign_task env i r now s))"
    by (intro told_one [of _ _ "Send_assign i r"]) (simp_all add: live_assign assign_task_maps find_task_absent)
  with 1 show ?case by (simp add: tracks_def assign_task_distinct)
next
  case (3 s r)
  then show ?case by (simp add: tracks_def told_silent distinct_tasks_def live_def)
qed

lemma tracks_check:
  assumes ok: "containers_ok env" and inv: "sched_inv s"
  shows "told s (check_all_states env s)"
proof -
  let ?s0 = "(snd (read_clock env s))\<lparr>last_checked := system_clock env (clock_reads s)\<rparr>"
  let ?s1 = "check_worker_task_interval env ?s0" and ?s2 = "refresh_counts (check_worker_task_interval env ?s0)"
  have start: "told s ?s0" "told s (snd (read_clock env s))" by (simp_all add: told_silent live_def)
  have inv0: "sched_inv ?s0" using inv by simp
  have "told ?s0 ?s1"
    using tracked_timeouts.R_check_interval [OF sched_inv_distinct [OF inv0]] by (simp add: tracks_def)
  moreover have "told ?s1 ?s2" by (simp add: told_silent live_def refresh_counts_def)
  moreover have "sched_inv ?s2" using refreshed_pass_inv [OF inv0] by (simp add: pass_inv_def)
  then have "told ?s2 (assignment_pass env now ?s2)" for now
    using tracked_pass.R_assignment_pass [OF ok sched_inv_distinct sched_inv_rooms_distinct subset_UNIV]
    by (simp add: tracks_def)
  ultimately have "told ?s0 (schedule_pass env now ?s0)" for now
    unfolding schedule_pass_def by (blast intro: told_trans)
  then show ?thesis
    using start unfolding check_all_states_def Let_def case_prod_beta by (auto intro: told_trans)
qed

end
