(* ===== verification/Sched_Limits.thy ===== *)
theory Sched_Limits
  imports Sched_Sync
begin

text \<open>
  The limits of a pass: what it leaves unchanged (\<open>framed\<close>), how many new tasks a worker and a room
  get (\<open>bunched\<close>), how many tasks are removed from crowded rooms, and that the cap on the tasks of
  one room never binds.
\<close>

section \<open>What a pass leaves unchanged\<close>

definition room_activity :: "sched \<Rightarrow> (room_id \<times> bool) set" where
  "room_activity s = (\<lambda>(r, x). (r, rs_active x)) ` set (rooms s)"

lemma room_activity_iff: "(r, a) \<in> room_activity s \<longleftrightarrow> (\<exists>x. (r, x) \<in> set (rooms s) \<and> rs_active x = a)"
  by (auto simp: room_activity_def)

definition framed :: "sched \<Rightarrow> sched \<Rightarrow> bool" where
  "framed s t \<longleftrightarrow> (distinct_tasks s \<longrightarrow> distinct_tasks t) \<and>
     last_checked t = last_checked s \<and> auth_code_field t = auth_code_field s \<and>
     set (keys (workers t)) \<subseteq> set (keys (workers s)) \<and> room_activity t \<subseteq> room_activity s"

lemma framed_refl: "framed s s"
  by (simp add: framed_def)

lemma framed_trans: "framed s t \<Longrightarrow> framed t u \<Longrightarrow> framed s u"
  unfolding framed_def by (simp del: set_map) (meson order_trans)

lemma framed_rooms_same:
  assumes "distinct_tasks s \<Longrightarrow> distinct_tasks t" and "last_checked t = last_checked s"
    and "auth_code_field t = auth_code_field s" and "set (keys (workers t)) \<subseteq> set (keys (workers s))"
    and "rooms t = rooms s"
  shows "framed s t"
  using assms by (auto simp: framed_def room_activity_def)

lemma room_activity_drop: "room_activity (delete_task_at env (Some t) d s) \<subseteq> room_activity s"
  by (rule subrelI) (force simp: room_activity_iff elim!: drop_room_entry)

lemma framed_drop: "framed s (drop_task env d t s)"
proof -
  let ?s = "send_unassign (rt_identifier t) (rt_room_id t) s"
  have "room_activity ?s = room_activity s" "last_checked ?s = last_checked s"
    "auth_code_field ?s = auth_code_field s"
    by (simp_all add: room_activity_def send_unassign_def)
  then show ?thesis
    using distinct_tasks_drop [where env = env and s = s and t = t and d = d]
      room_activity_drop [where env = env and s = ?s and t = t and d = d]
    unfolding framed_def by (simp only: delete_task_at_fields) simp
qed

lemma framed_assign:
  assumes "containers_ok env" and free: "find_task i r s = None"
  shows "framed s (snd (assign_task env i r now s))"
proof -
  have "last_checked (snd (assign_task env i r now s)) = last_checked s"
    "auth_code_field (snd (assign_task env i r now s)) = auth_code_field s"
    using free by (simp_all add: assign_task_def send_assign_def Let_def)
  moreover have "room_activity (snd (assign_task env i r now s)) \<subseteq> room_activity s"
    unfolding room_activity_def assign_task_maps [OF free] by (force elim!: in_modifyE)
  ultimately show ?thesis
    using assms assign_task_distinct by (simp add: framed_def del: set_map)
qed

lemma framed_basics:
  "last_checked (send_unassign i r s) = last_checked s"
  "auth_code_field (send_unassign i r s) = auth_code_field s"
  "last_checked (update_diagnostics m s) = last_checked s"
  "auth_code_field (update_diagnostics m s) = auth_code_field s"
  "last_checked (snd (collect_available env now s)) = last_checked s"
  "auth_code_field (snd (collect_available env now s)) = auth_code_field s"
  by (simp_all add: send_unassign_def update_diagnostics_def collect_available_def Let_def)

interpretation framed_timeouts: expiring env framed for env
proof (unfold_locales, goal_cases)
  case (5 s)
  then show ?case by (intro framed_rooms_same) (simp_all add: distinct_tasks_def)
next
  case (6 s i)
  then show ?case
    by (intro framed_rooms_same)
      (auto simp: distinct_tasks_def delete_and_disconnect_worker_def distinct_map_filter)
qed (auto simp: framed_refl framed_drop intro: framed_trans, simp add: framed_def)

interpretation framed_pass: scheduling env framed UNIV for env
proof (unfold_locales, goal_cases)
  case (4 s now)
  show ?case by (intro framed_rooms_same) (simp_all add: distinct_tasks_def framed_basics del: set_map)
next
  case (2 s m)
  show ?case
    by (intro framed_rooms_same)
      (simp_all add: distinct_tasks_def update_diagnostics_def del: set_map)
next
  case (3 s r)
  show ?case by (auto simp: framed_def distinct_tasks_def room_activity_def)
qed (simp add: framed_assign)

lemma framed_refresh: "framed s (refresh_counts s)"
  by (force simp: framed_def refresh_counts_def distinct_tasks_def room_activity_def)

lemma framed_schedule_pass:
  assumes ok: "containers_ok env" and inv: "sched_inv s"
  shows "framed s (schedule_pass env now s)"
proof -
  let ?s1 = "check_worker_task_interval env s"
  have "framed s ?s1" by (rule framed_timeouts.R_check_interval [OF sched_inv_distinct [OF inv]])
  moreover have "framed ?s1 (refresh_counts ?s1)" by (rule framed_refresh)
  moreover have "sched_inv (refresh_counts ?s1)"
    using refreshed_pass_inv [OF inv] by (simp add: pass_inv_def)
  then have "framed (refresh_counts ?s1) (schedule_pass env now s)"
    unfolding schedule_pass_def
    by (intro framed_pass.R_assignment_pass [OF ok sched_inv_distinct sched_inv_rooms_distinct subset_UNIV])
  ultimately show ?thesis by (blast intro: framed_trans)
qed

lemma last_checked_pass:
  "containers_ok env \<Longrightarrow> sched_inv s \<Longrightarrow> last_checked (schedule_pass env now s) = last_checked s"
  using framed_schedule_pass by (simp add: framed_def)

lemma check_all_states_workers:
  assumes "containers_ok env" and "sched_inv s"
  shows "set (keys (workers (check_all_states env s))) \<subseteq> set (keys (workers s))"
  using framed_schedule_pass [OF assms(1), of "(snd (read_clock env s))\<lparr>last_checked := x\<rparr>" y for x y] assms(2)
  by (simp add: check_all_states_def Let_def case_prod_beta framed_def)

lemma expire_tasks_rooms [simp]: "keys (rooms (expire_tasks env now ts s)) = keys (rooms s)"
  by (induction ts arbitrary: s) auto

lemma expire_workers_rooms [simp]: "rooms (expire_workers env now es s) = rooms s"
  by (induction env now es s rule: expire_workers.induct)
    (simp_all add: delete_and_disconnect_worker_def)

lemma check_interval_rooms: "keys (rooms (check_worker_task_interval env s)) = keys (rooms s)"
  by (simp add: check_worker_task_interval_def Let_def case_prod_beta)

section \<open>Only active rooms are left\<close>

lemma activity_unique:
  "distinct (keys (rooms s)) \<Longrightarrow> (r, a) \<in> room_activity s \<Longrightarrow> (r, b) \<in> room_activity s \<Longrightarrow> a = b"
  by (auto simp: room_activity_iff dest: eq_key_imp_eq_value)

lemma assignment_pass_rooms:
  assumes ok: "containers_ok env" and inv: "sched_inv s"
  shows "set (keys (rooms (assignment_pass env now s))) = {r. (r, True) \<in> room_activity s}"
proof -
  define s2 where "s2 = update_diagnostics (max_tasks_per_room (snd (collect_available env now s)))
    (snd (collect_available env now s))"
  have same: "rooms s2 = rooms s" by (simp add: s2_def update_diagnostics_def)
  define s3 where "s3 = snd (snd (collect_rooms env (rooms s2) [] initial_min_tasks s2))"
  have fold_keys: "keys (rooms (snd (snd (fold (process_room env now m k) rs st)))) = keys (rooms (snd (snd st)))"
    for m k rs st by (induction rs arbitrary: st) simp_all
  have "keys (rooms (assignment_pass env now s)) = keys (rooms s3)"
    by (simp add: assignment_pass_def Let_def case_prod_beta room_pass_def
      assign_tasks_def fold_keys s2_def s3_def)
  also have "\<dots> = filter (\<lambda>k. k \<notin> inactive_keys (rooms s)) (keys (rooms s))"
    by (simp add: s3_def collect_rooms_keys same)
  finally have "set (keys (rooms (assignment_pass env now s))) =
      {r. \<exists>x. (r, x) \<in> set (rooms s)} - inactive_keys (rooms s)" by force
  also have "\<dots> = {r. (r, True) \<in> room_activity s}"
    using eq_key_imp_eq_value [OF sched_inv_rooms_distinct [OF inv]]
    by (auto simp: room_activity_iff inactive_keys_def)
  finally show ?thesis .
qed

lemma schedule_pass_rooms:
  assumes ok: "containers_ok env" and inv: "sched_inv s"
  shows "room_activity (schedule_pass env now s) = {p \<in> room_activity s. snd p}"
proof -
  let ?s1 = "check_worker_task_interval env s" and ?t = "schedule_pass env now s"
  let ?s2 = "refresh_counts ?s1"
  have inv2: "sched_inv ?s2" using refreshed_pass_inv [OF inv] by (simp add: pass_inv_def)
  have same: "room_activity ?s2 = room_activity ?s1"
    by (force simp: room_activity_def refresh_counts_def)
  have keys_same: "set (keys (rooms ?t)) = {r. (r, True) \<in> room_activity ?s1}"
    using assignment_pass_rooms [OF ok inv2] by (simp add: schedule_pass_def same)
  have sub: "room_activity ?t \<subseteq> room_activity ?s1" "room_activity ?s1 \<subseteq> room_activity s"
    using framed_timeouts.R_check_interval [OF sched_inv_distinct [OF inv], of env]
      framed_pass.R_assignment_pass [OF ok sched_inv_distinct [OF inv2] sched_inv_rooms_distinct [OF inv2] subset_UNIV, of now]
    by (simp_all add: framed_def schedule_pass_def same)
  have expire_rooms: "set (keys (rooms ?s1)) = set (keys (rooms s))"
    by (simp add: check_interval_rooms del: set_map)
  have inv1: "sched_inv ?s1" by (rule check_worker_task_interval_inv [OF inv])
  note one = activity_unique [OF sched_inv_rooms_distinct [OF inv]]
  have in_s: "p \<in> room_activity s" if "p \<in> room_activity ?s1" for p
    using sub(2) that by (rule subsetD)
  have in_s1: "p \<in> room_activity ?s1" if "p \<in> room_activity ?t" for p
    using sub(1) that by (rule subsetD)
  have key: "r \<in> set (keys (rooms u)) \<longleftrightarrow> (\<exists>b. (r, b) \<in> room_activity u)" for r u
    by (force simp: room_activity_def)
  have "(r, a) \<in> room_activity ?t \<longleftrightarrow> (r, a) \<in> room_activity s \<and> a" for r a
  proof
    assume t: "(r, a) \<in> room_activity ?t"
    then have "(r, True) \<in> room_activity ?s1" using keys_same key [of r ?t] by blast
    then show "(r, a) \<in> room_activity s \<and> a" using one [of r a True] in_s [of "(r, True)"] in_s [OF in_s1 [OF t]] by simp
  next
    assume a: "(r, a) \<in> room_activity s \<and> a"
    then obtain b where b: "(r, b) \<in> room_activity ?s1"
      using expire_rooms key [of r ?s1] key [of r s] by blast
    then have "b" using one [of r b True] in_s [OF b] a by (cases a) auto
    with b have "(r, True) \<in> room_activity ?s1" by simp
    then obtain c where c: "(r, c) \<in> room_activity ?t" using keys_same key [of r ?t] by blast
    then show "(r, a) \<in> room_activity ?t" using one [of r c True] in_s [OF in_s1 [OF c]] a c by (cases a) auto
  qed
  then show ?thesis by auto
qed

section \<open>How many tasks a worker gets\<close>

definition assigns_to :: "identifier_t \<Rightarrow> sched_output list \<Rightarrow> int" where
  "assigns_to i out = int (length (filter (\<lambda>e. case e of Send_assign j r \<Rightarrow> j = i | _ \<Rightarrow> False) out))"

lemma assigns_to_simps [simp]:
  "assigns_to i [] = 0" "assigns_to i (xs @ ys) = assigns_to i xs + assigns_to i ys"
  "assigns_to i [Send_assign j r] = (if j = i then 1 else 0)" "assigns_to i [Send_unassign j r] = 0"
  "assigns_to i [Diagnostics d] = 0" "assigns_to i [Disconnect_worker j] = 0"
  by (simp_all add: assigns_to_def)

definition bunch_left :: "identifier_t \<Rightarrow> sched \<Rightarrow> int" where
  "bunch_left i s = (case map_of (workers s) i of None \<Rightarrow> 0 | Some w \<Rightarrow> ws_remaining_this_bunch w)"

definition bunched :: "identifier_t set \<Rightarrow> sched \<Rightarrow> sched \<Rightarrow> bool" where
  "bunched A s t \<longleftrightarrow> (distinct_tasks s \<longrightarrow> distinct_tasks t) \<and>
     (\<exists>new. outputs t = outputs s @ new \<and>
       (\<forall>i. assigns_to i new + bunch_left i t = bunch_left i s \<and>
            (assigns_to i new = 0 \<or> (i \<in> A \<and> 0 \<le> bunch_left i t))))"

lemma bunchedI:
  assumes "distinct_tasks s \<Longrightarrow> distinct_tasks t" and "outputs t = outputs s @ new"
    and "\<And>i. assigns_to i new + bunch_left i t = bunch_left i s"
    and "\<And>i. assigns_to i new = 0 \<or> (i \<in> A \<and> 0 \<le> bunch_left i t)"
  shows "bunched A s t"
  using assms unfolding bunched_def by blast

lemma bunched_refl: "bunched A s s"
  by (rule bunchedI [where new = "[]"]) simp_all

lemma bunched_trans:
  assumes "bunched A s t" and "bunched A t u"
  shows "bunched A s u"
proof -
  obtain n1 n2 where n1: "outputs t = outputs s @ n1"
      "\<And>i. assigns_to i n1 + bunch_left i t = bunch_left i s \<and>
        (assigns_to i n1 = 0 \<or> (i \<in> A \<and> 0 \<le> bunch_left i t))"
    and n2: "outputs u = outputs t @ n2"
      "\<And>i. assigns_to i n2 + bunch_left i u = bunch_left i t \<and>
        (assigns_to i n2 = 0 \<or> (i \<in> A \<and> 0 \<le> bunch_left i u))"
    using assms unfolding bunched_def by blast
  show ?thesis
  proof (rule bunchedI [where new = "n1 @ n2"])
    show "distinct_tasks s \<Longrightarrow> distinct_tasks u" using assms by (simp add: bunched_def)
    show "outputs u = outputs s @ n1 @ n2" using n1 n2 by simp
    show "assigns_to i (n1 @ n2) + bunch_left i u = bunch_left i s" for i
      using n1(2) [of i] n2(2) [of i] by simp
    show "assigns_to i (n1 @ n2) = 0 \<or> (i \<in> A \<and> 0 \<le> bunch_left i u)" for i
      using n1(2) [of i] n2(2) [of i] by auto
  qed
qed

lemma bunch_left_drop: "bunch_left i (delete_task_at env (Some t) d s) = bunch_left i s"
  by (auto simp: bunch_left_def delete_task_at_workers map_of_modify split: option.split)

lemma bunch_left_send [simp]: "bunch_left i (send_unassign j r s) = bunch_left i s"
  by (simp add: bunch_left_def)

lemma bunched_assign:
  assumes "containers_ok env" and free: "find_task i r s = None" and live: "\<not> exhausted i s" and "i \<in> A"
  shows "bunched A s (snd (assign_task env i r now s))"
proof (rule bunchedI [where new = "[Send_assign i r]"])
  have left: "bunch_left j (snd (assign_task env i r now s)) = bunch_left j s - (if j = i then 1 else 0)" for j
    using live unfolding bunch_left_def assign_task_maps [OF free] exhausted_def
    by (auto simp: map_of_modify split: option.split)
  have "0 < bunch_left i s"
    using live by (auto simp: exhausted_def bunch_left_def split: option.splits)
  with left assms(4) show "assigns_to j [Send_assign i r] = 0 \<or>
      j \<in> A \<and> 0 \<le> bunch_left j (snd (assign_task env i r now s))" for j
    by (auto simp: assigns_to_def)
  show "assigns_to j [Send_assign i r] + bunch_left j (snd (assign_task env i r now s)) = bunch_left j s" for j
    using left by simp
qed (use assms assign_task_distinct assign_task_maps(4) [OF free] in auto)

interpretation bunch: clearing env "bunched A" A for env A
proof (unfold_locales, goal_cases)
  case (4 s x d)
  then show ?case
    by (intro bunchedI [where new = "[Send_unassign (rt_identifier x) (rt_room_id x)]"])
      (simp_all only: distinct_tasks_drop delete_task_at_fields send_fields bunch_left_drop
        bunch_left_send assigns_to_simps, simp)
next
  case (3 s t)
  then show ?case by (simp add: bunched_def)
next
  case (6 s m)
  show ?case
    unfolding update_diagnostics_def
    by (rule bunchedI [OF _ emit_fields(7)]) (simp_all add: distinct_tasks_def bunch_left_def)
next
  case (7 s r)
  show ?case
    by (rule bunchedI [where new = "[]"]) (simp_all add: distinct_tasks_def bunch_left_def)
qed (auto intro: bunched_refl bunched_trans bunched_assign)

text \<open>The timeout check assigns nothing.\<close>

definition assigns_none :: "sched \<Rightarrow> sched \<Rightarrow> bool" where
  "assigns_none s t \<longleftrightarrow> (distinct_tasks s \<longrightarrow> distinct_tasks t) \<and>
     (\<exists>new. outputs t = outputs s @ new \<and> (\<forall>i. assigns_to i new = 0))"

lemma assigns_noneI:
  "(distinct_tasks s \<Longrightarrow> distinct_tasks t) \<Longrightarrow> outputs t = outputs s @ new \<Longrightarrow>
    (\<And>i. assigns_to i new = 0) \<Longrightarrow> assigns_none s t"
  by (auto simp: assigns_none_def)

lemma assigns_none_trans:
  assumes "assigns_none s t" and "assigns_none t u"
  shows "assigns_none s u"
proof -
  obtain n1 n2 where "outputs t = outputs s @ n1" "outputs u = outputs t @ n2"
    "\<And>i. assigns_to i n1 = 0" "\<And>i. assigns_to i n2 = 0"
    using assms unfolding assigns_none_def by blast
  then show ?thesis
    using assms by (intro assigns_noneI [where new = "n1 @ n2"]) (simp_all add: assigns_none_def)
qed

interpretation quiet_timeouts: expiring env assigns_none for env
proof (unfold_locales, goal_cases)
  case (1 s)
  show ?case by (rule assigns_noneI [where new = "[]"]) simp_all
next
  case (2 s t u)
  then show ?case by (rule assigns_none_trans)
next
  case (3 s t)
  then show ?case by (simp add: assigns_none_def)
next
  case (4 s x d)
  then show ?case
    by (intro assigns_noneI [where new = "[Send_unassign (rt_identifier x) (rt_room_id x)]"])
      (simp_all only: distinct_tasks_drop delete_task_at_fields send_fields assigns_to_simps)
next
  case (5 s)
  show ?case by (rule assigns_noneI [where new = "[]"]) (simp_all add: distinct_tasks_def)
next
  case (6 s i)
  then show ?case
    by (intro assigns_noneI [where new = "[Disconnect_worker i]"])
      (simp_all add: delete_and_disconnect_worker_def distinct_tasks_def distinct_map_filter)
qed

lemma bunch_left_collect:
  assumes "distinct (keys (workers s))" and "(i, w) \<in> set (workers s)" and "is_available now w"
  shows "bunch_left i (snd (collect_available env now s)) = max_new_tasks_per_bunch env"
proof -
  let ?w = "w\<lparr>ws_punished := False, ws_remaining_this_bunch := max_new_tasks_per_bunch env\<rparr>"
  have "(i, ?w) \<in> set (workers (snd (collect_available env now s)))"
    using assms(2,3) unfolding collect_available_workers by force
  then have "map_of (workers (snd (collect_available env now s))) i = Some ?w"
    using assms(1) by (intro map_of_is_SomeI) (simp only: collect_available_fields)
  then show ?thesis by (simp add: bunch_left_def)
qed

lemma schedule_pass_bunch:
  assumes ok: "containers_ok env" and inv: "sched_inv s"
  shows "\<exists>new. outputs (schedule_pass env now s) = outputs s @ new \<and>
    (\<forall>i. assigns_to i new \<le> max 0 (max_new_tasks_per_bunch env))"
proof -
  let ?s1 = "check_worker_task_interval env s"
  let ?s2 = "refresh_counts ?s1"
  let ?c = "collect_available env now ?s2"
  have inv2: "sched_inv ?s2" using refreshed_pass_inv [OF inv] by (simp add: pass_inv_def)
  obtain n1 where n1: "outputs ?s1 = outputs s @ n1" "\<And>i. assigns_to i n1 = 0"
    using quiet_timeouts.R_check_interval [OF sched_inv_distinct [OF inv], of env]
    by (auto simp: assigns_none_def)
  define A where "A = set (fst ?c)"
  have "bunched A (snd ?c) (room_pass env now (fst ?c) (snd ?c))"
    using sched_inv_distinct [OF collect_available_inv [OF inv2]] sched_inv_rooms_distinct [OF inv2]
    by (intro bunch.R_room_pass [OF ok]) (simp_all add: A_def)
  then obtain n2 where n2: "outputs (schedule_pass env now s) = outputs ?s2 @ n2"
    "\<And>i. assigns_to i n2 + bunch_left i (schedule_pass env now s) = bunch_left i (snd ?c) \<and>
      (assigns_to i n2 = 0 \<or> (i \<in> A \<and> 0 \<le> bunch_left i (schedule_pass env now s)))"
    by (auto simp: bunched_def schedule_pass_def assignment_pass_def case_prod_beta Let_def)
  have "assigns_to i n2 \<le> max 0 (max_new_tasks_per_bunch env)" for i
  proof (cases "assigns_to i n2 = 0")
    case False
    with n2(2) [of i] have "i \<in> A" by blast
    then have "bunch_left i (snd ?c) = max_new_tasks_per_bunch env"
      using inv2 unfolding A_def collect_available_avail [OF ok]
      by (auto simp: sched_inv_def wf_sched_def intro!: bunch_left_collect)
    with n2(2) [of i] False show ?thesis by linarith
  qed simp
  then show ?thesis
    using n1 n2(1) by (intro exI [of _ "n1 @ n2"]) (simp add: refresh_counts_def)
qed

section \<open>How many tasks a room gets or loses\<close>

definition assigns_in :: "room_id \<Rightarrow> sched_output list \<Rightarrow> nat" where
  "assigns_in r out = length (filter (\<lambda>e. case e of Send_assign i q \<Rightarrow> q = r | _ \<Rightarrow> False) out)"

definition unassigns :: "sched_output list \<Rightarrow> int" where
  "unassigns out = int (length (filter (\<lambda>e. case e of Send_unassign i q \<Rightarrow> True | _ \<Rightarrow> False) out))"

lemma room_counts_simps [simp]:
  "assigns_in r [] = 0" "assigns_in r (xs @ ys) = assigns_in r xs + assigns_in r ys"
  "assigns_in r [Send_assign i q] = (if q = r then 1 else 0)" "assigns_in r [Send_unassign i q] = 0"
  "unassigns [] = 0" "unassigns (xs @ ys) = unassigns xs + unassigns ys"
  "unassigns [Send_assign i q] = 0" "unassigns [Send_unassign i q] = 1"
  "assigns_in r (Send_unassign i q # xs) = assigns_in r xs"
  "unassigns (Send_unassign i q # xs) = 1 + unassigns xs"
  by (simp_all add: assigns_in_def unassigns_def)

lemma unassign_overkill_outputs:
  "unassign_overkill env i k n ts s = (n', s') \<Longrightarrow> 0 \<le> n \<Longrightarrow>
    \<exists>new. outputs s' = outputs s @ new \<and> (\<forall>r. assigns_in r new = 0) \<and> unassigns new + n' = n \<and> 0 \<le> n'"
proof (induction ts arbitrary: i n s)
  case (Cons t ts)
  show ?case
  proof (cases "i < k \<and> 0 < n")
    case True
    with Cons.prems have "unassign_overkill env (i + 1) k (n - 1) ts (drop_task env False t s) = (n', s')"
      by simp
    from Cons.IH [OF this] True obtain new where
      "outputs s' = outputs (drop_task env False t s) @ new" "\<forall>r. assigns_in r new = 0"
      "unassigns new + n' = n - 1" "0 \<le> n'" by auto
    then show ?thesis
      by (intro exI [of _ "[Send_unassign (rt_identifier t) (rt_room_id t)] @ new"]) simp
  qed (use Cons.prems in \<open>auto intro: exI [of _ "[]"]\<close>)
qed auto

lemma process_room_outputs:
  assumes "process_room env now m k r (avail, n, s) = (avail', n', s')" and "0 \<le> n"
  shows "\<exists>new. outputs s' = outputs s @ new \<and> (\<forall>q. assigns_in q new \<le> (if q = r then 1 else 0)) \<and>
    unassigns new + n' = n \<and> 0 \<le> n'"
proof -
  obtain b av s1 where tw: "try_workers env now m r [] avail s = (b, av, s1)" by (metis prod_cases3)
  have one: "one_assignment env now m r avail s (b, av, s1)"
    using try_workers_one [of env now m r "[]" avail s] by (simp add: tw)
  show ?thesis
  proof (cases "s1 = s")
    case True
    show ?thesis
      using assms unassign_overkill_outputs [of env 0 "overkill_of m k r s" n "room_range env r s" s]
      by (fastforce simp: process_room_def tw True Let_def split: if_splits prod.splits
          intro: exI [of _ "[]"])
  next
    case False
    with one obtain i where "b" "find_task i r s = None" "s1 = snd (assign_task env i r now s)"
      by (auto simp: one_assignment_def)
    then show ?thesis
      using assms by (intro exI [of _ "[Send_assign i r]"])
        (auto simp: process_room_def tw Let_def assign_task_maps(4))
  qed
qed

lemma fold_rooms_outputs:
  "fold (process_room env now m k) rs (avail, n, s) = (avail', n', s') \<Longrightarrow> 0 \<le> n \<Longrightarrow>
    \<exists>new. outputs s' = outputs s @ new \<and> (\<forall>q. assigns_in q new \<le> count_list rs q) \<and>
      unassigns new + n' = n \<and> 0 \<le> n'"
proof (induction rs arbitrary: avail n s)
  case (Cons r rs)
  obtain a1 n1 s1 where p: "process_room env now m k r (avail, n, s) = (a1, n1, s1)"
    by (metis prod_cases3)
  obtain new1 where 1: "outputs s1 = outputs s @ new1" "unassigns new1 + n1 = n" "0 \<le> n1"
    "\<And>q. assigns_in q new1 \<le> (if q = r then 1 else 0)"
    using process_room_outputs [OF p Cons.prems(2)] by blast
  have "fold (process_room env now m k) rs (a1, n1, s1) = (avail', n', s')"
    using Cons.prems(1) p by simp
  then obtain new2 where 2: "outputs s' = outputs s1 @ new2" "unassigns new2 + n' = n1" "0 \<le> n'"
    "\<And>q. assigns_in q new2 \<le> count_list rs q"
    using Cons.IH 1(3) by blast
  have "assigns_in q (new1 @ new2) \<le> count_list (r # rs) q" for q
    using 1(4) [of q] 2(4) [of q] by (auto split: if_splits)
  with 1 2 show ?case by (intro exI [of _ "new1 @ new2"]) simp
qed auto

section \<open>The cap on the tasks of a room\<close>

lemma room_tasks_at_most_workers:
  assumes "wf_sched ts rs ws"
  shows "room_task_count r ts \<le> int (length ws)"
proof -
  let ?ids = "map rt_identifier (filter (\<lambda>t. rt_room_id t = r) ts)"
  have wf: "distinct (map task_key ts)" "distinct (keys ws)" "set (map rt_identifier ts) \<subseteq> set (keys ws)"
    using assms by (auto simp: wf_sched_def)
  have "distinct ?ids"
    using wf(1) by (induction ts) (auto simp: image_iff)
  then have "length ?ids = card (set ?ids)" by (metis distinct_card)
  also have "\<dots> \<le> card (set (keys ws))"
    using wf(3) by (intro card_mono) auto
  also have "\<dots> = length ws" using wf(2) by (metis distinct_card length_map)
  finally show ?thesis by (simp add: room_task_count_def)
qed

lemma cap_never_binds:
  assumes "pass_inv s" and "(r, x) \<in> set (rooms s)"
  shows "rs_current_connections x \<le> max_tasks_per_room s"
  using assms room_tasks_at_most_workers [of "tasks s" "rooms s" "workers s" r]
  by (auto simp: pass_inv_def sched_inv_def counts_exact_room max_tasks_per_room_def)

section \<open>The floor of the levelling\<close>

lemma room_connections_drop:
  "room_connections r (delete_task_at env (Some t) d s) =
    room_connections r s - (if rt_room_id t = r \<and> r \<in> set (keys (rooms s)) then 1 else 0)"
proof (cases "map_of (rooms s) r")
  case None
  then have "r \<notin> set (keys (rooms s))" by (simp add: map_of_None_keys)
  then show ?thesis
    using None by (cases "r = rt_room_id t")
      (simp_all add: room_connections_def delete_task_at_rooms map_of_modify)
next
  case (Some x)
  then have "r \<in> set (keys (rooms s))" by (rule map_of_Some_keys)
  then show ?thesis
    using Some by (simp add: room_connections_def delete_task_at_rooms map_of_modify)
qed

lemma room_connections_send [simp]: "room_connections r (send_unassign i q s) = room_connections r s"
  by (simp add: room_connections_def)

lemma unassign_overkill_floor:
  "room_connections r s - max 0 (k - i) \<le> room_connections r (snd (unassign_overkill env i k n ts s))"
proof (induction ts arbitrary: i n s)
  case (Cons t ts)
  have "room_connections r s - 1 \<le> room_connections r (drop_task env False t s)"
    by (simp add: room_connections_drop)
  with Cons [of "drop_task env False t s" "i + 1" "n - 1"] show ?case by auto
qed simp

lemma room_connections_assign:
  "room_connections r s \<le> room_connections r (snd (assign_task env i q now s))"
  by (auto simp: assign_task_def Let_def room_connections_def map_of_modify split: option.split)

lemma process_room_floor:
  assumes "room_connections r s \<le> m"
  shows "min (room_connections r s) (k + 1) \<le>
    room_connections r (snd (snd (process_room env now m k r (avail, n, s))))"
proof -
  obtain b av s1 where tw: "try_workers env now m r [] avail s = (b, av, s1)" by (metis prod_cases3)
  have one: "one_assignment env now m r avail s (b, av, s1)"
    using try_workers_one [of env now m r "[]" avail s] by (simp add: tw)
  show ?thesis
  proof (cases "s1 = s")
    case True
    with assms unassign_overkill_floor [of r s "overkill_of m k r s" 0 env n "room_range env r s"]
    show ?thesis
      by (auto simp: process_room_def tw Let_def case_prod_beta overkill_of_def)
  next
    case False
    with one obtain i where "b" "s1 = snd (assign_task env i r now s)"
      by (auto simp: one_assignment_def)
    with room_connections_assign [of r s env i r now] show ?thesis
      by (simp add: process_room_def tw Let_def min.coboundedI1)
  qed
qed

section \<open>Timeouts\<close>

definition timed_out :: "sched_env \<Rightarrow> time \<Rightarrow> worker_status \<Rightarrow> bool" where
  "timed_out env now w \<longleftrightarrow> now - ws_last_received w > seconds (worker_timeout_sec env)"

lemma delete_worker_workers:
  "workers (delete_and_disconnect_worker env i s) = erase_key i (workers s)"
proof -
  have "erase_key i (modify i f m) = erase_key i m" for f and m :: workers_map
    by (induction m) (auto simp: erase_key_def modify_def)
  then show ?thesis
    by (simp add: delete_and_disconnect_worker_def delete_worker_def reset_worker_def Let_def case_prod_beta)
qed

definition expired_keys :: "sched_env \<Rightarrow> time \<Rightarrow> workers_map \<Rightarrow> identifier_t set" where
  "expired_keys env now es = {i. \<exists>w. (i, w) \<in> set es \<and> timed_out env now w}"

lemma expired_keys_simps [simp]:
  "expired_keys env now [] = {}"
  "expired_keys env now ((i, w) # es) =
    (if timed_out env now w then {i} else {}) \<union> expired_keys env now es"
  by (auto simp: expired_keys_def)

lemma expire_workers_all:
  assumes "\<And>ws i. \<not> shifts_back env ws i"
  shows "workers (expire_workers env now es s) =
      filter (\<lambda>e. fst e \<notin> expired_keys env now es) (workers s)
    \<and> tasks (expire_workers env now es s) =
      filter (\<lambda>t. rt_identifier t \<notin> expired_keys env now es) (tasks s)"
proof -
  let ?step = "\<lambda>(i, w) s. if timed_out env now w then delete_and_disconnect_worker env i s else s"
  have "expire_workers env now es s = fold ?step es s"
    using assms by (induction env\<equiv>env now es s rule: expire_workers.induct) (auto simp: timed_out_def)
  moreover have "workers (fold ?step es s) = filter (\<lambda>e. fst e \<notin> expired_keys env now es) (workers s)
      \<and> tasks (fold ?step es s) = filter (\<lambda>t. rt_identifier t \<notin> expired_keys env now es) (tasks s)"
  proof (induction es arbitrary: s)
    case (Cons e es)
    have "tasks (delete_and_disconnect_worker env i u) = filter (\<lambda>t. rt_identifier t \<noteq> i) (tasks u)"
      "workers (delete_and_disconnect_worker env i u) = filter (\<lambda>e. fst e \<noteq> i) (workers u)" for i u
      by (simp_all only: delete_worker_workers)
        (auto simp: delete_and_disconnect_worker_def erase_key_def intro!: filter_cong)
    with Cons show ?case
      by (cases e) (auto intro!: filter_cong)
  qed simp
  ultimately show ?thesis by simp
qed

lemma expire_tasks_set:
  "set (tasks (expire_tasks env now ts s)) = {u \<in> set (tasks s).
     \<forall>t \<in> set ts. now - rt_last_received t < seconds (worker_timeout_sec env) \<or> task_key u \<noteq> task_key t}"
  by (induction ts arbitrary: s) auto

lemma expire_tasks_workers [simp]: "keys (workers (expire_tasks env now ts s)) = keys (workers s)"
  by (induction ts arbitrary: s) auto

lemma expire_all_tasks:
  assumes "distinct_tasks s"
  shows "set (tasks (expire_tasks env now (tasks s) s)) =
    {t \<in> set (tasks s). now - rt_last_received t < seconds (worker_timeout_sec env)}"
proof -
  have "u = t" if "u \<in> set (tasks s)" "t \<in> set (tasks s)" "task_key u = task_key t" for u t
    using assms that by (simp add: distinct_tasks_def distinct_map inj_on_def)
  then show ?thesis unfolding expire_tasks_set by blast
qed

lemma check_interval_timeouts:
  assumes noshift: "\<And>ws i. \<not> shifts_back env ws i" and inv: "sched_inv s"
  defines "now \<equiv> system_clock env (clock_reads s)"
  shows "keys (workers (check_worker_task_interval env s)) =
      [i. (i, w) \<leftarrow> workers s, \<not> timed_out env now w]"
    and "set (tasks (check_worker_task_interval env s)) =
      {t \<in> set (tasks s). now - rt_last_received t < seconds (worker_timeout_sec env) \<and>
        (\<forall>w. (rt_identifier t, w) \<in> set (workers s) \<longrightarrow> \<not> timed_out env now w)}"
proof -
  let ?s0 = "snd (read_clock env s)"
  let ?s1 = "expire_workers env now (workers s) ?s0"
  note all = expire_workers_all [OF noshift, of now "workers s" ?s0]
  have "sched_inv ?s1" by (simp add: expire_workers_inv inv)
  then have tasks: "set (tasks (expire_tasks env now (tasks ?s1) ?s1)) =
      {t \<in> set (tasks ?s1). now - rt_last_received t < seconds (worker_timeout_sec env)}"
    by (intro expire_all_tasks sched_inv_distinct)
  have dist: "distinct (keys (workers s))" using inv by (simp add: sched_inv_def wf_sched_def)
  have "(i \<in> expired_keys env now (workers s)) = timed_out env now w" if "(i, w) \<in> set (workers s)" for i w
    using that eq_key_imp_eq_value [OF dist] by (auto simp: expired_keys_def)
  then have "filter (\<lambda>e. fst e \<notin> expired_keys env now (workers s)) (workers s) =
      filter (\<lambda>(i, w). \<not> timed_out env now w) (workers s)"
    by (intro filter_cong) auto
  moreover have "keys (filter (\<lambda>(i, w). \<not> timed_out env now w) m) =
      [i. (i, w) \<leftarrow> m, \<not> timed_out env now w]" for m :: workers_map
    by (induction m) auto
  ultimately show "keys (workers (check_worker_task_interval env s)) =
      [i. (i, w) \<leftarrow> workers s, \<not> timed_out env now w]"
    using all by (simp add: check_worker_task_interval_def Let_def case_prod_beta now_def)
  show "set (tasks (check_worker_task_interval env s)) =
      {t \<in> set (tasks s). now - rt_last_received t < seconds (worker_timeout_sec env) \<and>
        (\<forall>w. (rt_identifier t, w) \<in> set (workers s) \<longrightarrow> \<not> timed_out env now w)}"
    using all tasks
    by (auto simp: check_worker_task_interval_def Let_def case_prod_beta now_def expired_keys_def)
qed

end
