(* ===== verification/Sched_Rooms.thy ===== *)
theory Sched_Rooms
  imports Sched_Sync Proto_Packets_Props
begin

text \<open>
  The scheduler as one worker sees it: the operations it is sent, and the rooms they leave it with.
  The main lemma is that every event of the scheduler tells each worker all that becomes of its
  rooms, except when a worker announces itself again, reports a failed room or is disconnected.
\<close>


text \<open>The rooms a worker has, and what a list of operations makes of a set of rooms.\<close>

definition rooms_of :: "identifier_t \<Rightarrow> sched \<Rightarrow> room_id set" where
  "rooms_of i s = rt_room_id ` {t \<in> set (tasks s). rt_identifier t = i}"

fun apply_operation :: "room_operation \<Rightarrow> room_id set \<Rightarrow> room_id set" where
  "apply_operation (Open_connection r) A = insert r A"
| "apply_operation (Close_connection r) A = A - {r}"

fun fresh_opens :: "room_operation list \<Rightarrow> room_id set \<Rightarrow> bool" where
  "fresh_opens [] A \<longleftrightarrow> True"
| "fresh_opens (Open_connection r # ops) A \<longleftrightarrow> r \<notin> A \<and> fresh_opens ops (insert r A)"
| "fresh_opens (Close_connection r # ops) A \<longleftrightarrow> fresh_opens ops (A - {r})"

fun operations_for :: "identifier_t \<Rightarrow> sched_output list \<Rightarrow> room_operation list" where
  "operations_for i [] = []"
| "operations_for i (Send_assign j r # outs) = (if j = i then [Open_connection r] else []) @ operations_for i outs"
| "operations_for i (Send_unassign j r # outs) = (if j = i then [Close_connection r] else []) @ operations_for i outs"
| "operations_for i (out # outs) = operations_for i outs"

lemma fresh_opens_append [simp]:
  "fresh_opens (xs @ ys) A \<longleftrightarrow> fresh_opens xs A \<and> fresh_opens ys (fold apply_operation xs A)"
  by (induction xs A rule: fresh_opens.induct) auto

lemma operations_for_append [simp]: "operations_for i (xs @ ys) = operations_for i xs @ operations_for i ys"
  by (induction i xs rule: operations_for.induct) auto

lemma rooms_of_live: "rooms_of i s = {r. (i, r) \<in> live s}"
  by (force simp: rooms_of_def live_def image_iff)

text \<open>The operations of one worker among the messages of the scheduler.\<close>

lemma fold_apply_output:
  assumes "Disconnect_worker i \<notin> set outs" and "announced outs A"
  shows "{r. (i, r) \<in> fold apply_output outs A} = fold apply_operation (operations_for i outs) {r. (i, r) \<in> A}
    \<and> fresh_opens (operations_for i outs) {r. (i, r) \<in> A}"
  using assms
proof (induction outs arbitrary: A)
  case (Cons out outs)
  then have IH: "{r. (i, r) \<in> fold apply_output outs (apply_output out A)}
      = fold apply_operation (operations_for i outs) {r. (i, r) \<in> apply_output out A}
    \<and> fresh_opens (operations_for i outs) {r. (i, r) \<in> apply_output out A}" by simp
  have sets: "{r. r = r' \<or> (i, r) \<in> A} = insert r' {r. (i, r) \<in> A}"
    "{r. (i, r) \<in> A \<and> r \<noteq> r'} = {r. (i, r) \<in> A} - {r'}" for r' by auto
  show ?case using IH Cons.prems by (cases out) (auto simp: sets split: if_splits)
qed simp

text \<open>\<open>informs i s t\<close>: unless it is told to disconnect, worker \<open>i\<close> is sent the operations that turn its
  rooms in \<open>s\<close> into its rooms in \<open>t\<close>.\<close>

definition informs :: "identifier_t \<Rightarrow> sched \<Rightarrow> sched \<Rightarrow> bool" where
  "informs i s t \<longleftrightarrow> (\<exists>new. outputs t = outputs s @ new \<and> (Disconnect_worker i \<notin> set new \<longrightarrow>
     rooms_of i t = fold apply_operation (operations_for i new) (rooms_of i s)
     \<and> fresh_opens (operations_for i new) (rooms_of i s)))"

lemma informs_told: "told s t \<Longrightarrow> informs i s t"
  using fold_apply_output [of i _ "live s"] unfolding told_def informs_def rooms_of_live by metis

lemma informs_trans: "informs i s t \<Longrightarrow> informs i t u \<Longrightarrow> informs i s u"
  unfolding informs_def by (elim exE, rule_tac x = "new @ newa" in exI, auto)

lemma informs_silent: "outputs t = outputs s \<Longrightarrow> rooms_of i t = rooms_of i s \<Longrightarrow> informs i s t"
  by (simp add: informs_def)

lemma informs_refl [simp]: "informs i s s"
  by (simp add: informs_silent)

lemma informs_disconnect:
  "outputs t = outputs s @ [Disconnect_worker j] \<Longrightarrow> (j \<noteq> i \<Longrightarrow> rooms_of i t = rooms_of i s) \<Longrightarrow> informs i s t"
  by (simp add: informs_def)


text \<open>An event that does not take rooms from worker \<open>i\<close> without telling it: the worker reports no
  failed room, announces itself only while it has no room, and is not reported lost.\<close>

fun quiet_for :: "identifier_t \<Rightarrow> sched_event \<Rightarrow> sched \<Rightarrow> bool" where
  "quiet_for i (Worker_buffer j payload) s \<longleftrightarrow> j \<noteq> i \<or> payload_op_code payload \<noteq> room_failed_code
     \<and> (payload_op_code payload = worker_ready_code \<longrightarrow> rooms_of i s = {})"
| "quiet_for i (New_worker j) s \<longleftrightarrow> j \<noteq> i"
| "quiet_for i (Worker_disconnected j) s \<longleftrightarrow> j \<noteq> i"
| "quiet_for i ev s \<longleftrightarrow> True"

lemma rooms_of_upd [simp]:
  "rooms_of i (upd_room r f s) = rooms_of i s" "rooms_of i (upd_worker j g s) = rooms_of i s"
  "rooms_of i (emit out s) = rooms_of i s"
  by (simp_all add: rooms_of_def)

lemma rooms_of_cleared:
  "tasks t = filter (\<lambda>x. rt_identifier x \<noteq> j) (tasks s) \<Longrightarrow> rooms_of i t = (if j = i then {} else rooms_of i s)"
  by (auto simp: rooms_of_def)

lemma rooms_of_touched: "rooms_of i (s\<lparr>tasks := map (touch_task k now) (tasks s)\<rparr>) = rooms_of i s"
  by (force simp: rooms_of_def image_iff)

lemma informs_check: "containers_ok env \<Longrightarrow> sched_inv s \<Longrightarrow> informs i s (check_all_states env s)"
  by (intro informs_told tracks_check)

lemma informs_ready:
  assumes "containers_ok env" and inv: "sched_inv s" and "j = i \<Longrightarrow> rooms_of i s = {}"
  shows "informs i s (handle_worker_ready env j payload s)"
proof -
  let ?s1 = "if \<not> auth_accepted (auth_code_field s) payload then emit (Disconnect_worker j) (delete_worker env j s) else s"
  let ?s2 = "upd_worker j (\<lambda>w. w\<lparr>ws_initialized := True, ws_max_rooms := sint (payload_room_id payload)\<rparr>) (reset_worker env j ?s1)"
  have "informs i s ?s1" by (auto intro!: informs_disconnect rooms_of_cleared [THEN trans])
  moreover have "sched_inv ?s1" by (simp add: delete_worker_inv inv)
  then have "sched_inv ?s2" by (intro sched_inv_upd_idle_worker reset_worker_inv) (simp_all only: reset_worker_idle mark_ready_keeps)
  from informs_check [OF assms(1) this] have "informs i ?s2 (handle_worker_ready env j payload s)"
    by (simp add: handle_worker_ready_def Let_def)
  moreover have "rooms_of i ?s1 = {}" if "j = i"
    using assms(3) [OF that] that by (auto simp: rooms_of_def)
  then have "rooms_of i ?s2 = rooms_of i ?s1" using rooms_of_cleared [of ?s2 j ?s1 i] by auto
  then have "informs i ?s1 ?s2" by (intro informs_silent) simp_all
  ultimately show ?thesis by (blast intro: informs_trans)
qed


lemma rooms_of_delete_task:
  assumes "j \<noteq> i"
  shows "rooms_of i (delete_task env j r d s) = rooms_of i s" and "outputs (delete_task env j r d s) = outputs s"
proof -
  have "outputs (delete_task env j r d s) = outputs s
    \<and> tasks (delete_task env j r d s) = filter (\<lambda>u. task_key u \<noteq> (j, r)) (tasks s)"
  proof (cases "find_task j r s")
    case None
    then have "filter (\<lambda>u. task_key u \<noteq> (j, r)) (tasks s) = tasks s"
      by (auto simp: find_task_def find_None_iff filter_id_conv)
    with None show ?thesis by (simp add: delete_task_def delete_task_at_def)
  next
    case (Some t)
    then have "task_key t = (j, r)" by (auto simp: find_task_def find_Some_iff)
    with Some show ?thesis by (simp add: delete_task_def)
  qed
  then show "rooms_of i (delete_task env j r d s) = rooms_of i s" and "outputs (delete_task env j r d s) = outputs s"
    using assms by (auto simp: rooms_of_def)
qed

lemma informs_failed:
  assumes "containers_ok env" and "sched_inv s" and "j \<noteq> i"
  shows "informs i s (check_all_states env (delete_task env j r True s))"
proof (rule informs_trans)
  show "informs i s (delete_task env j r True s)"
    using rooms_of_delete_task [OF assms(3)] by (simp add: informs_silent)
  show "informs i (delete_task env j r True s) (check_all_states env (delete_task env j r True s))"
    by (intro informs_check assms(1) delete_task_inv assms(2))
qed

lemma informs_data: "informs i s (handle_worker_data env j payload now s)"
proof -
  have fwd: "informs i s (forward_data env payload t)"
    if "outputs t = outputs s" "rooms_of i t = rooms_of i s" for t
    using that by (simp add: informs_def forward_data_def rooms_of_def)
  have touched: "informs i s (s\<lparr>tasks := map (touch_task k now) (tasks s)\<rparr>)" for k
    by (rule informs_silent) (simp_all only: rooms_of_touched, simp)
  show ?thesis
    unfolding handle_worker_data_def Let_def touch_task_def [symmetric, abs_def]
    by (auto split: option.split intro!: fwd touched simp: rooms_of_touched)
qed

lemma informs_buffer:
  assumes ok: "containers_ok env" and inv: "sched_inv s" and quiet: "quiet_for i (Worker_buffer j payload) s"
  shows "informs i s (handle_buffer env j payload s)"
proof (cases "length payload < room_failed_payload_length \<or> map_of (workers s) j = None")
  case True
  have "informs i s (emit (Disconnect_worker j) (clear_worker_tasks j s))"
    by (rule informs_disconnect) (simp_all add: rooms_of_def, auto)
  with True show ?thesis by (auto simp: handle_buffer_def)
next
  case False
  let ?now = "fst (read_clock env s)"
  define s1 where "s1 = upd_worker j (\<lambda>w. w\<lparr>ws_last_received := ?now\<rparr>) (snd (read_clock env s))"
  have up: "sched_inv s1" unfolding s1_def by (rule sched_inv_upd_worker) (simp_all add: inv)
  have same: "informs i s s1" and rooms: "rooms_of i s1 = rooms_of i s"
    by (auto intro!: informs_silent simp: rooms_of_def s1_def)
  have eq: "handle_buffer env j payload s =
      (if payload_op_code payload = worker_ready_code then handle_worker_ready env j payload s1
       else if payload_op_code payload = room_failed_code
       then check_all_states env (delete_task env j (payload_room_id payload) True s1)
       else if payload_op_code payload = worker_data_code then handle_worker_data env j payload ?now s1
       else s1)"
    using False by (auto simp add: handle_buffer_def Let_def case_prod_beta s1_def)
  have "informs i s1 (handle_buffer env j payload s)"
    unfolding eq using quiet rooms
    by (auto intro!: informs_ready informs_failed informs_data ok up)
  with same show ?thesis by (rule informs_trans)
qed

lemma add_rooms_same:
  "tasks (add_rooms env rs s) = tasks s" "workers (add_rooms env rs s) = workers s"
  "outputs (add_rooms env rs s) = outputs s"
  by (induction rs arbitrary: s) simp_all

lemma new_worker_silent:
  "outputs (handle_new_worker env j s) = outputs s"
  "j \<noteq> i \<Longrightarrow> rooms_of i (handle_new_worker env j s) = rooms_of i s"
proof -
  show "outputs (handle_new_worker env j s) = outputs s"
    by (simp add: handle_new_worker_def Let_def case_prod_beta split: option.split)
  assume "j \<noteq> i"
  then have "rooms_of i (reset_worker env j t) = rooms_of i t" for t by (auto simp: rooms_of_def)
  then show "rooms_of i (handle_new_worker env j s) = rooms_of i s"
    by (auto simp: handle_new_worker_def Let_def case_prod_beta rooms_of_def split: option.split)
qed

lemma informs_event:
  assumes "containers_ok env" and "sched_inv s" and "handle_event env ev s = Some t" and "quiet_for i ev s"
  shows "informs i s t"
proof (cases ev)
  case (Worker_buffer j payload)
  with assms informs_buffer show ?thesis by auto
next
  case (New_worker j)
  with assms(3,4) show ?thesis by (auto intro!: informs_silent simp: new_worker_silent)
next
  case (Worker_disconnected j)
  with assms(3,4) show ?thesis
    by (auto intro!: informs_silent simp: handle_worker_disconnect_def Let_def rooms_of_def split: option.splits)
next
  case Server_tick
  with assms(1-3) informs_check show ?thesis by auto
next
  case (Room_list ids)
  with assms(3) show ?thesis
    by (auto intro!: informs_silent simp: update_room_lists_def add_rooms_same rooms_of_def)
qed (use assms in \<open>auto intro!: informs_silent simp: load_auth_code_def rooms_of_def\<close>)

end
