(* ===== verification/Sched_Props.thy ===== *)
theory Sched_Props
  imports Sched_Limits Sched_Rooms
begin

text \<open>
  Properties of the supervisor's scheduler: the invariants of all reachable states, the agreement of
  tasks and messages, the guarantees of a pass, and the behaviour of the single handlers.
\<close>

section \<open>A concrete environment for the examples\<close>

definition demo_env :: sched_env where
  "demo_env = \<lparr>worker_timeout_sec = 60, min_check_interval_msec = 500, worker_penalty_min = 5,
     max_new_tasks_per_bunch = 2, min_interval_popularity_sec = 30, cfg_auth_code = [65],
     system_clock = (\<lambda>n. seconds (int n + 1)), place_task = place_last, place_worker = place_last,
     place_room = place_last, range_order = (\<lambda>ts. ts), shifts_back = (\<lambda>_ _. True),
     tie_workers = (\<lambda>ws. ws), tie_rooms = (\<lambda>rs. rs), host_endian = Little_endian\<rparr>"

definition empty_sched :: sched where
  "empty_sched = \<lparr>tasks = [], rooms = [], workers = [], last_checked = 0,
     auth_code_field = 65 # replicate 32 0, clock_reads = 0, outputs = []\<rparr>"

lemma demo_containers: "containers_ok demo_env"
  by (simp add: containers_ok_def demo_env_def place_last_def)

lemma demo_start: "sched_start empty_sched"
proof (rule sched_start.intros [of demo_env])
  show "init_sched demo_env = Some empty_sched" by code_simp
qed

lemma reach_events:
  assumes "reach sched_start sched_step s" and "containers_ok env" and "run_events env evs s = Some t"
  shows "reach sched_start sched_step t"
proof -
  have fail: "foldl (\<lambda>so ev. Option.bind so (handle_event env ev)) None evs = None" for evs
    by (induction evs) auto
  have "reach sched_start sched_step t"
    if "foldl (\<lambda>so ev. Option.bind so (handle_event env ev)) (Some s) evs = Some t"
      "reach sched_start sched_step s" for s
    using that
  proof (induction evs arbitrary: s)
    case (Cons ev evs)
    then obtain u where u: "handle_event env ev s = Some u"
      by (cases "handle_event env ev s") (auto simp: fail)
    then have "reach sched_start sched_step u"
      using Cons.prems(2) assms(2) by (blast intro: reach_step sched_step.intros)
    with Cons u show ?case by simp
  qed simp
  with assms show ?thesis by (simp add: run_events_def)
qed

definition ready_payload :: "bytes \<Rightarrow> nat \<Rightarrow> bytes" where
  "ready_payload code n = [worker_ready_code, 0, 0, 0, word_of_nat n] @ code @ replicate (32 - length code) 0"

definition demo_payload :: bytes where
  "demo_payload = ready_payload [65] 1"

text \<open>A worker with room for one task, in a list of two rooms.\<close>

definition demo_events :: "sched_event list" where
  "demo_events = [Room_list [7, 9], New_worker 1, Worker_buffer 1 demo_payload]"

definition demo_sched :: sched where
  "demo_sched = \<lparr>
     tasks = [\<lparr>rt_identifier = 1, rt_room_id = 7, rt_last_received = 4000000000\<rparr>,
              \<lparr>rt_identifier = 1, rt_room_id = 9, rt_last_received = 4000000000\<rparr>],
     rooms = [(7, \<lparr>rs_room_id = 7, rs_active = True, rs_last_empty_crc_received = 0,
                    rs_current_connections = 1\<rparr>),
              (9, \<lparr>rs_room_id = 9, rs_active = True, rs_last_empty_crc_received = 0,
                    rs_current_connections = 1\<rparr>)],
     workers = [(1, \<lparr>ws_identifier = 1, ws_last_received = 2000000000, ws_initialized = True,
                      ws_max_rooms = 1, ws_current_connections = 2, ws_remaining_this_bunch = 0,
                      ws_allow_new_task_after = 3000000000, ws_punished = False\<rparr>)],
     last_checked = 4000000000, auth_code_field = 65 # replicate 32 0, clock_reads = 5,
     outputs = [Diagnostics \<lparr>dg_room_statuses = [(7, 0), (9, 0)],
                  dg_worker_statuses = [(1, 0, 3, 1)], dg_tasks = [], dg_max_tasks_per_room = 1\<rparr>,
                Send_assign 1 7, Send_assign 1 9]\<rparr>"

text \<open>The run, one event at a time.\<close>

definition demo_rooms :: rooms_map where
  "demo_rooms = [(7, new_room_status 7), (9, new_room_status 9)]"

definition demo_connected :: sched where
  "demo_connected = empty_sched\<lparr>rooms := demo_rooms, workers := [(1, new_worker_status 1 (seconds 1))],
     clock_reads := 1\<rparr>"

definition demo_ready :: sched where
  "demo_ready = demo_connected\<lparr>workers := [(1, (new_worker_status 1 (seconds 2))\<lparr>ws_initialized := True,
     ws_max_rooms := 1, ws_allow_new_task_after := seconds 3\<rparr>)], clock_reads := 3\<rparr>"

lemma demo_run_rooms: "handle_event demo_env (Room_list [7, 9]) empty_sched = Some (empty_sched\<lparr>rooms := demo_rooms\<rparr>)"
  by code_simp

lemma demo_run_connect:
  "handle_event demo_env (New_worker 1) (empty_sched\<lparr>rooms := demo_rooms\<rparr>) = Some demo_connected"
  by code_simp

lemma demo_payload_facts:
  "payload_op_code demo_payload = worker_ready_code" "payload_room_id demo_payload = 1"
  "\<not> length demo_payload < room_failed_payload_length"
  "auth_accepted (65 # replicate 32 0) demo_payload"
  by code_simp+

lemma demo_run_buffer:
  "handle_buffer demo_env 1 demo_payload demo_connected = check_all_states demo_env demo_ready"
proof -
  have clock: "system_clock demo_env n = seconds (int n + 1)" for n by (simp add: demo_env_def)
  have auth: "auth_code_field demo_connected = 65 # replicate 32 0"
    by (simp add: demo_connected_def empty_sched_def)
  have known: "map_of (workers demo_connected) 1 = Some (new_worker_status 1 (seconds 1))"
    by (simp add: demo_connected_def)
  define s where "s = upd_worker 1 (\<lambda>w. w\<lparr>ws_last_received := seconds 2\<rparr>) (snd (read_clock demo_env demo_connected))"
  have "handle_buffer demo_env 1 demo_payload demo_connected = check_all_states demo_env
      (upd_worker 1 (\<lambda>w. w\<lparr>ws_initialized := True, ws_max_rooms := sint (1 :: 32 word)\<rparr>) (reset_worker demo_env 1 s))"
    using demo_payload_facts auth known
    by (simp add: handle_buffer_def handle_worker_ready_def Let_def case_prod_beta s_def clock
        demo_connected_def)
  also have "upd_worker 1 (\<lambda>w. w\<lparr>ws_initialized := True, ws_max_rooms := sint (1 :: 32 word)\<rparr>)
      (reset_worker demo_env 1 s) = demo_ready"
    unfolding s_def by code_simp
  finally show ?thesis .
qed

lemma demo_run_check: "check_all_states demo_env demo_ready = demo_sched"
  by code_simp

lemma demo_run: "run_events demo_env demo_events empty_sched = Some demo_sched"
  by (simp add: run_events_def demo_events_def demo_run_rooms demo_run_connect demo_run_buffer demo_run_check
      del: handle_event.simps(1,5))

lemma demo_reach: "reach sched_start sched_step demo_sched"
  by (rule reach_events [OF _ demo_containers demo_run]) (rule reach_start, rule demo_start)

lemma demo_inv: "sched_inv demo_sched"
  by (rule scheduler.inv_reach [OF demo_reach])

section \<open>All reachable states\<close>

text \<open>C8 Consistency. In every reachable state of the scheduler no two tasks pair the same worker with
  the same room, every task belongs to a worker and a room that are in the maps, every map entry
  carries its key, and no worker is marked as punished: the branch of \<open>delete_task\<close> that
  accumulates penalties is never taken.\<close>

theorem reachable_consistent:
  assumes "reach sched_start sched_step s"
  shows "distinct (map task_key (tasks s)) \<and> distinct (keys (workers s)) \<and> distinct (keys (rooms s)) \<and>
    (\<forall>t \<in> set (tasks s). rt_identifier t \<in> set (keys (workers s)) \<and> rt_room_id t \<in> set (keys (rooms s))) \<and>
    (\<forall>(i, w) \<in> set (workers s). ws_identifier w = i \<and> \<not> ws_punished w) \<and>
    (\<forall>(r, x) \<in> set (rooms s). rs_room_id x = r)"
  using scheduler.inv_reach [OF assms] unfolding sched_inv_def wf_sched_def by blast

theorem reachable_consistent_witness:
  "distinct (map task_key (tasks demo_sched)) \<and> length (tasks demo_sched) = 2"
  using reachable_consistent [OF demo_reach] by (simp add: demo_sched_def)

text \<open>Capacity. In every reachable state a worker that accepts \<open>n\<close> rooms has at most \<open>n + 1\<close>
  tasks: the pass drops a worker from its candidates only when it has more than its limit.\<close>

theorem capacity_bound:
  assumes "reach sched_start sched_step s" and "(i, w) \<in> set (workers s)"
  shows "int (length (filter (\<lambda>t. rt_identifier t = i) (tasks s))) \<le> max 0 (ws_max_rooms w + 1)"
proof -
  have "sched_capacity s" using scheduler.inv_reach [OF assms(1)] by (simp add: sched_inv_def)
  with assms(2) show ?thesis by (auto simp: within_capacity_def worker_task_count_def)
qed

theorem capacity_bound_witness:
  "length (filter (\<lambda>t. rt_identifier t = 1) (tasks demo_sched)) = 2 \<and>
   int (length (filter (\<lambda>t. rt_identifier t = 1) (tasks demo_sched))) \<le> max 0 (1 + 1)"
  using capacity_bound [OF demo_reach, of 1 "snd (hd (workers demo_sched))"]
  by (simp add: demo_sched_def)

text \<open>The bound is reached: from the start, a worker that announces a limit of one room is given
  both rooms of the list, one more than it accepts.\<close>

theorem capacity_overrun:
  "\<exists>s. run_events demo_env demo_events empty_sched = Some s \<and> sched_start empty_sched \<and>
     map_option ws_max_rooms (map_of (workers s) 1) = Some 1 \<and>
     map task_key (tasks s) = [(1, 7), (1, 9)] \<and>
     set [Send_assign 1 7, Send_assign 1 9] \<subseteq> set (outputs s)"
  using demo_run demo_start by (auto simp: demo_sched_def)

section \<open>The scheduling pass\<close>

text \<open>C5 Workers are told. A check sends exactly the messages that turn the old assignment of rooms to
  workers into the new one: applying the assignments, unassignments and disconnections sent, in
  order, to the pairs of the tasks before the check gives the pairs of the tasks after it, and no
  worker is assigned a room that it has already.\<close>

theorem check_tells_workers:
  assumes "containers_ok env" and "reach sched_start sched_step s"
  shows "\<exists>new. outputs (check_all_states env s) = outputs s @ new \<and>
    task_key ` set (tasks (check_all_states env s)) = fold apply_output new (task_key ` set (tasks s)) \<and>
    announced new (task_key ` set (tasks s))"
  using tracks_check [OF assms(1) scheduler.inv_reach [OF assms(2)]] by (simp add: told_def live_def)

theorem check_tells_workers_witness:
  "\<exists>new. outputs (check_all_states demo_env demo_sched) = outputs demo_sched @ new \<and>
    task_key ` set (tasks (check_all_states demo_env demo_sched)) = fold apply_output new {(1, 7), (1, 9)} \<and>
    announced new {(1, 7), (1, 9)}"
  using check_tells_workers [OF demo_containers demo_reach] by (simp add: demo_sched_def)

text \<open>C21 Exact counters. After a pass the connection counter of every worker and of every room is the
  number of its tasks, although deleting a worker's tasks leaves the room counters stale before it.\<close>

theorem pass_counters_exact:
  assumes "containers_ok env" and "reach sched_start sched_step s"
  shows "(\<forall>(i, w) \<in> set (workers (schedule_pass env now s)). ws_current_connections w =
      int (length (filter (\<lambda>t. rt_identifier t = i) (tasks (schedule_pass env now s))))) \<and>
    (\<forall>(r, x) \<in> set (rooms (schedule_pass env now s)). rs_current_connections x =
      int (length (filter (\<lambda>t. rt_room_id t = r) (tasks (schedule_pass env now s)))))"
  using schedule_pass_pass_inv [OF assms(1) scheduler.inv_reach [OF assms(2)], of now]
  unfolding pass_inv_def counts_exact_def worker_task_count_def room_task_count_def by blast

theorem pass_counters_exact_witness:
  "list_all (\<lambda>(i, w). ws_current_connections w =
      int (length (filter (\<lambda>t. rt_identifier t = i) (tasks (schedule_pass demo_env 0 demo_sched)))))
    (workers (schedule_pass demo_env 0 demo_sched))"
  using pass_counters_exact [OF demo_containers demo_reach] unfolding list_all_iff by blast

text \<open>Rate limit. After a check that ran, another check less than the configured interval later does
  nothing but read the clock: no message, no change of tasks, rooms or workers.\<close>

theorem check_rate_limit:
  assumes "containers_ok env" and "reach sched_start sched_step s"
    and "system_clock env (clock_reads s) - last_checked s \<ge> milliseconds (min_check_interval_msec env)"
    and "system_clock env (clock_reads (check_all_states env s)) - system_clock env (clock_reads s)
      < milliseconds (min_check_interval_msec env)"
  shows "check_all_states env (check_all_states env s) =
    (check_all_states env s)\<lparr>clock_reads := Suc (clock_reads (check_all_states env s))\<rparr>"
proof -
  let ?now = "system_clock env (clock_reads s)"
  have inv: "sched_inv ((snd (read_clock env s))\<lparr>last_checked := ?now\<rparr>)"
    using scheduler.inv_reach [OF assms(2)] by simp
  have "last_checked (check_all_states env s) = ?now"
    using assms(3) last_checked_pass [OF assms(1) inv, of ?now]
    by (simp add: check_all_states_def Let_def case_prod_beta)
  with assms(4) show ?thesis
    by (simp add: check_all_states_def [of env "check_all_states env s"] read_clock_def)
qed

definition quick_env :: sched_env where
  "quick_env = demo_env\<lparr>system_clock := (\<lambda>n. seconds 5)\<rparr>"

lemma quick_containers: "containers_ok quick_env"
  using demo_containers by (simp add: containers_ok_def quick_env_def)

theorem check_rate_limit_witness:
  "check_all_states quick_env (check_all_states quick_env demo_sched) =
    (check_all_states quick_env demo_sched)
      \<lparr>clock_reads := Suc (clock_reads (check_all_states quick_env demo_sched))\<rparr>"
proof (rule check_rate_limit [OF quick_containers demo_reach])
  show "system_clock quick_env (clock_reads demo_sched) - last_checked demo_sched
      \<ge> milliseconds (min_check_interval_msec quick_env)"
    by (simp add: quick_env_def demo_env_def demo_sched_def durations)
qed (simp add: quick_env_def demo_env_def durations)

text \<open>C20 Rooms. A pass removes exactly the rooms marked inactive: the rooms that are left are the
  active ones, still active, and every task that is left is a task of one of them.\<close>

theorem pass_keeps_active_rooms:
  assumes "containers_ok env" and "reach sched_start sched_step s"
  shows "(\<lambda>(r, x). (r, rs_active x)) ` set (rooms (schedule_pass env now s)) =
      {(r, True) | r x. (r, x) \<in> set (rooms s) \<and> rs_active x}
    \<and> rt_room_id ` set (tasks (schedule_pass env now s)) \<subseteq> {r. \<exists>x. (r, x) \<in> set (rooms s) \<and> rs_active x}"
proof -
  have inv: "sched_inv s" by (rule scheduler.inv_reach [OF assms(2)])
  note act = schedule_pass_rooms [OF assms(1) inv, of now]
  have "sched_inv (schedule_pass env now s)"
    using schedule_pass_pass_inv [OF assms(1) inv] by (simp add: pass_inv_def)
  then have "rt_room_id ` set (tasks (schedule_pass env now s)) \<subseteq> fst ` room_activity (schedule_pass env now s)"
    by (force simp: sched_inv_def wf_sched_def room_activity_def)
  moreover have acts: "{p \<in> room_activity s. snd p} = {(r, True) | r x. (r, x) \<in> set (rooms s) \<and> rs_active x}"
    by (auto simp: room_activity_iff)
  moreover have "fst ` {p \<in> room_activity s. snd p} = {r. \<exists>x. (r, x) \<in> set (rooms s) \<and> rs_active x}"
    unfolding acts by force
  ultimately show ?thesis
    using act by (simp add: room_activity_def)
qed

theorem pass_keeps_active_rooms_witness:
  "(\<lambda>(r, x). (r, rs_active x)) ` set (rooms (schedule_pass demo_env 0 demo_sched)) = {(7, True), (9, True)}"
  using pass_keeps_active_rooms [OF demo_containers demo_reach, of 0] by (auto simp: demo_sched_def)

text \<open>C27 Bunches. In one pass no worker is given more new tasks than the configured bunch.\<close>

theorem pass_bunch_limit:
  assumes "containers_ok env" and "reach sched_start sched_step s"
  shows "\<exists>new. outputs (schedule_pass env now s) = outputs s @ new \<and>
    (\<forall>i. assigns_to i new \<le> max 0 (max_new_tasks_per_bunch env))"
  by (rule schedule_pass_bunch [OF assms(1) scheduler.inv_reach [OF assms(2)]])

theorem pass_bunch_limit_witness:
  "\<exists>new. outputs (schedule_pass demo_env 0 demo_sched) = outputs demo_sched @ new \<and>
    (\<forall>i. assigns_to i new \<le> 2)"
  using pass_bunch_limit [OF demo_containers demo_reach, of 0] by (simp add: demo_env_def)

lemma distinct_count_le: "distinct xs \<Longrightarrow> count_list xs x \<le> 1"
  by (induction xs) (auto simp: count_list_0_iff)

text \<open>Gradual change. When the rooms to process are distinct, the assignment phase gives each room at
  most one new task, and takes at most ten tasks from crowded rooms altogether.\<close>

theorem assignment_phase_limits:
  assumes "distinct rs"
  shows "\<exists>new. outputs (assign_tasks env now m k rs avail s) = outputs s @ new \<and>
    (\<forall>r. assigns_in r new \<le> 1) \<and> unassigns new \<le> 10"
proof -
  obtain av n s' where run: "fold (process_room env now m k) rs (avail, room_disconnect_throttling, s) = (av, n, s')"
    by (metis prod_cases3)
  obtain new where new: "outputs s' = outputs s @ new" "\<And>q. assigns_in q new \<le> count_list rs q"
    "unassigns new + n = room_disconnect_throttling" "0 \<le> n"
    using fold_rooms_outputs [OF run] by (auto simp: room_disconnect_throttling_def)
  have "assigns_in q new \<le> 1" for q
    using new(2) [of q] distinct_count_le [OF assms, of q] by (rule le_trans)
  moreover have "assign_tasks env now m k rs avail s = s'" by (simp add: assign_tasks_def run)
  ultimately show ?thesis
    using new by (intro exI [of _ new]) (auto simp: room_disconnect_throttling_def)
qed

theorem assignment_phase_limits_witness:
  "\<exists>new. outputs (assign_tasks demo_env 0 1 0 [7, 9] [1] demo_sched) = outputs demo_sched @ new \<and>
    (\<forall>r. assigns_in r new \<le> 1) \<and> unassigns new \<le> 10"
  by (rule assignment_phase_limits) simp

text \<open>Levelling. Processing a room that is not above the cap never leaves it with fewer tasks than it
  had, or than one more than the emptiest room, whichever is smaller.\<close>

theorem levelling_floor:
  assumes "room_connections r s \<le> m"
  shows "min (room_connections r s) (k + 1) \<le>
    room_connections r (snd (snd (process_room env now m k r (avail, n, s))))"
  by (rule process_room_floor [OF assms])

theorem levelling_floor_witness:
  "1 \<le> room_connections 7 (snd (snd (process_room demo_env 0 1 0 7 ([1], 10, demo_sched))))"
proof -
  have "room_connections 7 demo_sched = 1" by (simp add: demo_sched_def room_connections_def)
  with levelling_floor [of 7 demo_sched 1 0 demo_env 0 "[1]" 10] show ?thesis by simp
qed

text \<open>The cap. When the timeouts are handled and the counters refreshed, no room has more tasks than
  the cap the pass computes: the cap is at least the number of workers, and a worker has at most one
  task in a room. The test for rooms above the cap never succeeds at that point.\<close>

theorem room_cap_never_binds:
  assumes "reach sched_start sched_step s"
    and "(r, x) \<in> set (rooms (refresh_counts (check_worker_task_interval env s)))"
  shows "rs_current_connections x \<le> max_tasks_per_room (refresh_counts (check_worker_task_interval env s))"
  by (rule cap_never_binds [OF refreshed_pass_inv [OF scheduler.inv_reach [OF assms(1)]] assms(2)])

theorem room_cap_never_binds_witness:
  "\<exists>x. (7, x) \<in> set (rooms (refresh_counts (check_worker_task_interval demo_env demo_sched))) \<and>
    rs_current_connections x \<le> max_tasks_per_room (refresh_counts (check_worker_task_interval demo_env demo_sched))"
proof -
  have "map_of (rooms (refresh_counts (check_worker_task_interval demo_env demo_sched))) 7 \<noteq> None"
    by code_simp
  then obtain x where "(7, x) \<in> set (rooms (refresh_counts (check_worker_task_interval demo_env demo_sched)))"
    by (auto dest: map_of_SomeD)
  with room_cap_never_binds [OF demo_reach this] show ?thesis by blast
qed

section \<open>Timeouts\<close>

text \<open>C22 Timeouts. When erasing from the worker map moves no other entry into the erased slot, the
  timeout check leaves exactly the workers heard from within the timeout, and exactly the tasks of
  these workers that got data within it.\<close>

theorem timeouts_enforced:
  assumes "reach sched_start sched_step s" and "\<And>ws i. \<not> shifts_back env ws i"
    and "now = system_clock env (clock_reads s)"
  shows "keys (workers (check_worker_task_interval env s)) =
      [i. (i, w) \<leftarrow> workers s, now - ws_last_received w \<le> seconds (worker_timeout_sec env)]
    \<and> set (tasks (check_worker_task_interval env s)) =
      {t \<in> set (tasks s). now - rt_last_received t < seconds (worker_timeout_sec env) \<and>
        (\<forall>w. (rt_identifier t, w) \<in> set (workers s) \<longrightarrow>
          now - ws_last_received w \<le> seconds (worker_timeout_sec env))}"
  using check_interval_timeouts [OF assms(2) scheduler.inv_reach [OF assms(1)]]
  unfolding assms(3) timed_out_def not_less by blast

definition late_env :: sched_env where
  "late_env = demo_env\<lparr>system_clock := (\<lambda>n. seconds 64), shifts_back := (\<lambda>_ _. False)\<rparr>"

theorem timeouts_enforced_witness:
  "keys (workers (check_worker_task_interval late_env demo_sched)) = [] \<and>
   set (tasks (check_worker_task_interval late_env demo_sched)) = {}"
proof -
  have late: "\<And>ws i. \<not> shifts_back late_env ws i"
    "seconds 64 = system_clock late_env (clock_reads demo_sched)"
    by (simp_all add: late_env_def)
  have "worker_timeout_sec late_env = 60" by (simp add: late_env_def demo_env_def)
  then show ?thesis
    unfolding timeouts_enforced [OF demo_reach late, THEN conjunct1]
      timeouts_enforced [OF demo_reach late, THEN conjunct2]
    by (auto simp: demo_sched_def durations)
qed

text \<open>A timed-out worker that survives. Two workers have not been heard from for longer than the
  timeout. The map is a robin-hood hash map: erasing the first moves the second into its slot, the
  range-based loop steps over that slot, and the second worker stays connected.\<close>

definition stale_sched :: sched where
  "stale_sched = empty_sched\<lparr>workers := [(1, new_worker_status 1 0), (2, new_worker_status 2 0)],
     clock_reads := 100\<rparr>"

theorem timeout_skips_shifted_worker:
  "keys (workers (check_worker_task_interval demo_env stale_sched)) = [2] \<and>
   outputs (check_worker_task_interval demo_env stale_sched) = [Disconnect_worker 1] \<and>
   list_all (\<lambda>(i, w). system_clock demo_env (clock_reads stale_sched) - ws_last_received w
      > seconds (worker_timeout_sec demo_env)) (workers stale_sched)"
  by code_simp

section \<open>The handlers\<close>

text \<open>C28 Failed authentication. A known worker whose ready message is too short or carries another code
  is disconnected and forgotten, with its tasks, although the handler goes on after the
  disconnection and runs a check.\<close>

theorem failed_auth_expels:
  assumes "containers_ok env" and "reach sched_start sched_step s"
    and "room_failed_payload_length \<le> length payload" and "payload_op_code payload = worker_ready_code"
    and "\<not> auth_accepted (auth_code_field s) payload"
  shows "i \<notin> set (keys (workers (handle_buffer env i payload s))) \<and>
    (\<forall>t \<in> set (tasks (handle_buffer env i payload s)). rt_identifier t \<noteq> i) \<and>
    Disconnect_worker i \<in> set (outputs (handle_buffer env i payload s))"
proof (cases "map_of (workers s) i")
  case None
  then have "handle_buffer env i payload s = emit (Disconnect_worker i) (clear_worker_tasks i s)"
    using assms(3) by (simp add: handle_buffer_def Let_def)
  with None show ?thesis by (simp add: map_of_None_keys del: set_map)
next
  case (Some w)
  define s1 where "s1 = upd_worker i (\<lambda>w. w\<lparr>ws_last_received := system_clock env (clock_reads s)\<rparr>)
    (snd (read_clock env s))"
  define s2 where "s2 = emit (Disconnect_worker i) (delete_worker env i s1)"
  define s3 where "s3 = upd_worker i (\<lambda>w. w\<lparr>ws_initialized := True,
    ws_max_rooms := sint (payload_room_id payload)\<rparr>) (reset_worker env i s2)"
  have eq: "handle_buffer env i payload s = check_all_states env s3"
    using assms(3-5) Some
    by (simp add: handle_buffer_def handle_worker_ready_def Let_def case_prod_beta s1_def s2_def s3_def)
  have "sched_inv s1"
    unfolding s1_def using scheduler.inv_reach [OF assms(2)] by (intro sched_inv_upd_worker) simp_all
  then have "sched_inv s2" by (simp add: s2_def delete_worker_inv)
  then have inv3: "sched_inv s3"
    unfolding s3_def by (intro sched_inv_upd_idle_worker reset_worker_inv) (simp_all add: count_cleared)
  have gone: "i \<notin> set (keys (workers s3))" by (simp add: s3_def s2_def del: set_map)
  have out: "Disconnect_worker i \<in> set (outputs s3)" by (simp add: s3_def s2_def)
  have gone': "i \<notin> set (keys (workers (check_all_states env s3)))"
    using check_all_states_workers [OF assms(1) inv3] gone by blast
  moreover have "sched_wf (check_all_states env s3)"
    using check_all_states_inv [OF assms(1) inv3] by (simp add: sched_inv_def)
  ultimately have "\<forall>t \<in> set (tasks (check_all_states env s3)). rt_identifier t \<noteq> i"
    unfolding wf_sched_def by blast
  moreover have "Disconnect_worker i \<in> set (outputs (check_all_states env s3))"
    using tracks_check [OF assms(1) inv3] out by (auto simp: told_def)
  ultimately show ?thesis using gone' unfolding eq by blast
qed

theorem failed_auth_expels_witness:
  "1 \<notin> set (keys (workers (handle_buffer demo_env 1 (ready_payload [66] 3) demo_sched)))"
proof -
  have "payload_op_code (ready_payload [66] 3) = worker_ready_code"
    "room_failed_payload_length \<le> length (ready_payload [66] 3)"
    "\<not> auth_accepted (auth_code_field demo_sched) (ready_payload [66] 3)"
    by code_simp+
  then show ?thesis using failed_auth_expels [OF demo_containers demo_reach] by blast
qed

text \<open>C16 Forwarding. A data packet changes no room assignment and sends at most one message; it is
  forwarded only if the sender has the task of the packet's room, and then with the packet's
  checksum, routing key and body.\<close>

theorem data_from_assigned_worker:
  assumes "outputs (handle_worker_data env i payload now s) \<noteq> outputs s"
  shows "(i, payload_room_id payload) \<in> task_key ` set (tasks s) \<and>
    worker_data_payload_header_length \<le> length payload \<and>
    outputs (handle_worker_data env i payload now s) = outputs s @
      [Worker_data (payload_crc32 (host_endian env) payload) (payload_routing_key payload) (payload_data payload)] \<and>
    map task_key (tasks (handle_worker_data env i payload now s)) = map task_key (tasks s)"
  using assms
  by (auto simp: handle_worker_data_def Let_def forward_data_def find_task_None comp_def
      split: if_splits option.splits)

definition data_payload :: "bytes" where
  "data_payload = [worker_data_code, 0, 0, 0, 7, 0, 0, 0, 0] @ replicate 32 0 @ [1, 2]"

theorem data_from_assigned_worker_witness:
  "(1, 7) \<in> task_key ` set (tasks demo_sched) \<and> payload_room_id data_payload = 7"
proof -
  have "outputs (handle_worker_data demo_env 1 data_payload (seconds 40) demo_sched) \<noteq> outputs demo_sched"
    and room: "payload_room_id data_payload = 7"
    by code_simp+
  from data_from_assigned_worker [OF this(1)] room show ?thesis by simp
qed

text \<open>Messages without checksum. After a packet with checksum zero of a room was forwarded, no packet
  with checksum zero of that room is forwarded, from any worker, until the configured time has
  passed.\<close>

theorem empty_crc_rate_limit:
  assumes "distinct (keys (rooms s))"
    and "outputs (handle_worker_data env i p now s) \<noteq> outputs s"
    and "payload_crc32 (host_endian env) p = 0" and "payload_crc32 (host_endian env) q = 0"
    and "payload_room_id q = payload_room_id p"
    and "later - now < seconds (min_interval_popularity_sec env)"
  shows "outputs (handle_worker_data env j q later (handle_worker_data env i p now s)) =
    outputs (handle_worker_data env i p now s)"
proof -
  let ?s = "handle_worker_data env i p now s"
  obtain x where "map_of (rooms ?s) (payload_room_id p) = Some x" "rs_last_empty_crc_received x = now"
    using assms(2,3)
    by (auto simp: handle_worker_data_def Let_def forward_data_def split: if_splits option.splits)
  with assms(4-6) show ?thesis
    by (auto simp: handle_worker_data_def [of env j q later ?s] Let_def)
qed

theorem empty_crc_rate_limit_witness:
  "outputs (handle_worker_data demo_env 1 data_payload (seconds 50)
     (handle_worker_data demo_env 1 data_payload (seconds 40) demo_sched)) =
   outputs (handle_worker_data demo_env 1 data_payload (seconds 40) demo_sched)"
proof (rule empty_crc_rate_limit)
  show "distinct (keys (rooms demo_sched))" by code_simp
  show "outputs (handle_worker_data demo_env 1 data_payload (seconds 40) demo_sched) \<noteq> outputs demo_sched"
    by code_simp
  show "payload_crc32 (host_endian demo_env) data_payload = 0" by code_simp
  then show "payload_crc32 (host_endian demo_env) data_payload = 0" .
qed (simp_all add: demo_env_def durations)

lemma map_of_place_room:
  assumes "containers_ok env" and "distinct (keys m)" and "r \<notin> set (keys m)"
  shows "map_of (place_room env m (r, x)) = (map_of m)(r \<mapsto> x)"
    and "distinct (keys (place_room env m (r, x)))"
proof -
  note placing = containers_placing(3) [OF assms(1)]
  show dist: "distinct (keys (place_room env m (r, x)))"
    using assms(2,3) by (simp add: placing.distinct_map_place [OF placing])
  have "map_of (place_room env m (r, x)) k = Some v \<longleftrightarrow> ((map_of m)(r \<mapsto> x)) k = Some v" for k v
    using assms(2,3) map_of_eq_Some_iff [OF dist, of k v] map_of_eq_Some_iff [OF assms(2), of k v]
    by (auto simp: placing.set_place [OF placing] image_iff)
  then show "map_of (place_room env m (r, x)) = (map_of m)(r \<mapsto> x)"
    by (intro ext) (metis not_None_eq)
qed

lemma add_rooms_map_of:
  assumes ok: "containers_ok env" and "distinct (keys (rooms s))"
  shows "map_of (rooms (add_rooms env rs s)) r = (case map_of (rooms s) r of Some x \<Rightarrow> Some x
    | None \<Rightarrow> if r \<in> set rs then Some (new_room_status r) else None)"
  using assms(2)
proof (induction rs arbitrary: s)
  case (Cons q rs)
  show ?case
  proof (cases "map_of (rooms s) q")
    case None
    then have "q \<notin> set (keys (rooms s))" by (simp add: map_of_None_keys)
    note place = map_of_place_room [OF ok Cons.prems this, of "new_room_status q"]
    show ?thesis
      using None Cons.IH [of "s\<lparr>rooms := place_room env (rooms s) (q, new_room_status q)\<rparr>"] place
      by (auto split: option.split)
  qed (use Cons in \<open>auto split: option.split\<close>)
qed (simp split: option.split)

text \<open>C29 Room lists. An update of the room list sends nothing and changes no task and no worker. A room
  not in the map is added active; a known room is made inactive when the list lacks it and otherwise
  left as it is, so an inactive room that is listed again stays inactive (and is deleted by the next
  pass).\<close>

theorem room_list_update:
  assumes "containers_ok env" and "reach sched_start sched_step s"
  shows "map_of (rooms (update_room_lists env ids s)) r =
      (case map_of (rooms s) r of
         Some x \<Rightarrow> Some (if r \<in> set ids then x else x\<lparr>rs_active := False\<rparr>)
       | None \<Rightarrow> if r \<in> set ids then Some (new_room_status r) else None)
    \<and> tasks (update_room_lists env ids s) = tasks s \<and> workers (update_room_lists env ids s) = workers s
    \<and> outputs (update_room_lists env ids s) = outputs s"
proof -
  let ?s = "s\<lparr>rooms := map (\<lambda>(r, x). (r, if r \<notin> set ids then x\<lparr>rs_active := False\<rparr> else x)) (rooms s)\<rparr>"
  have dist: "distinct (keys (rooms s))"
    using scheduler.inv_reach [OF assms(2)] by (rule sched_inv_rooms_distinct)
  have "map_of (map (\<lambda>(r, x). (r, f r x)) m) q = map_option (f q) (map_of m q)"
    for f q and m :: rooms_map by (induction m) auto
  then have mark: "map_of (rooms ?s) r = map_option (\<lambda>x. if r \<notin> set ids then x\<lparr>rs_active := False\<rparr> else x)
      (map_of (rooms s) r)" by simp
  have dist': "distinct (keys (rooms ?s))"
    using dist by (simp add: keys_map_entries del: map_map)
  have "map_of (rooms (update_room_lists env ids s)) r =
      (case map_of (rooms s) r of
         Some x \<Rightarrow> Some (if r \<in> set ids then x else x\<lparr>rs_active := False\<rparr>)
       | None \<Rightarrow> if r \<in> set ids then Some (new_room_status r) else None)"
    unfolding update_room_lists_def add_rooms_map_of [OF assms(1) dist'] mark
    by (cases "map_of (rooms s) r") simp_all
  then show ?thesis by (simp add: update_room_lists_def add_rooms_same)
qed

theorem room_list_update_witness:
  "map_option rs_active (map_of (rooms (update_room_lists demo_env [7] demo_sched)) 9) = Some False \<and>
   map_option rs_active (map_of (rooms (update_room_lists demo_env [7] demo_sched)) 7) = Some True"
  using room_list_update [OF demo_containers demo_reach, of "[7]" 9]
    room_list_update [OF demo_containers demo_reach, of "[7]" 7]
  by (simp add: demo_sched_def)

text \<open>The authentication code. Loading the code writes past the end of the 33-byte field exactly when
  the configured code is longer than 33 bytes (the length is never checked); otherwise the field
  holds the code padded with zeros.\<close>

theorem load_auth_code_bounds:
  "load_auth_code code s = (if length code \<le> 33
     then Some (s\<lparr>auth_code_field := code @ replicate (33 - length code) 0\<rparr>) else None)"
  by (simp add: load_auth_code_def poke_def auth_code_size_def)

end
