(* ===== verification/Conn_Manager.thy ===== *)
theory Conn_Manager
  imports Sched_Types
begin

text \<open>
  The supervisor's connections to its workers (src/supervisor/worker_connection_manager.cpp):
  \<open>worker_session\<close>, one per accepted socket, and \<open>worker_connection_manager\<close>, the map of sessions
  by identifier, the acceptor and the tick timer.

  Session objects are numbered in the order of their creation. A session's write helper and read
  handler each hold a shared pointer to the session (the bound \<open>disconnect\<close>), and the session holds
  both, so an object is never destroyed; erasing it from the map only forgets the identifier. A
  call through a null pointer is the value \<open>None\<close>. The random generator is the sequence \<open>rand\<close>, of
  which the manager uses the next value at each draw.
\<close>

section \<open>Sessions\<close>

record worker_session =
  se_identifier :: identifier_t
  se_socket :: "nat option"
  se_read_buffer_size :: nat

datatype conn_action =
    New_worker_handler identifier_t
  | Disconnect_handler identifier_t
  | Buffer_handler identifier_t bytes
  | Tick_handler
  | Start_read nat
  | Write_socket nat bytes
  | Close_socket nat
  | Start_accept
  | Arm_timer int

definition new_worker_session :: "identifier_t \<Rightarrow> nat \<Rightarrow> nat \<Rightarrow> worker_session" where
  "new_worker_session i socket size' =
     \<lparr>se_identifier = i, se_socket = Some socket, se_read_buffer_size = size'\<rparr>"

definition worker_session_disconnect ::
    "bool \<Rightarrow> worker_session \<Rightarrow> (worker_session \<times> conn_action list) option" where
  "worker_session_disconnect callback session =
     (case se_socket session of
        Some _ \<Rightarrow> Some (session, [])
      | None \<Rightarrow> None)"

definition worker_session_send :: "bytes \<Rightarrow> worker_session \<Rightarrow> conn_action list" where
  "worker_session_send buf session =
     (case se_socket session of Some socket \<Rightarrow> [Write_socket socket buf] | None \<Rightarrow> [])"

section \<open>The manager\<close>

record conn_config =
  cc_read_buffer_size :: nat
  cc_check_interval_msec :: int
  cc_min_check_interval_msec :: int

record connections =
  cn_objects :: "worker_session list"
  cn_sockets :: "(identifier_t \<times> nat) list"
  cn_accepting :: bool
  cn_draws :: nat

type_synonym conn_result = "(connections \<times> conn_action list) option"

definition start_accept :: "connections \<Rightarrow> connections \<times> conn_action list" where
  "start_accept c = (c\<lparr>cn_accepting := True\<rparr>, [Start_accept])"

definition reschedule_timer :: "conn_config \<Rightarrow> conn_action list" where
  "reschedule_timer cfg = [Arm_timer (cc_min_check_interval_msec cfg)]"

definition new_connections :: "conn_config \<Rightarrow> connections \<times> conn_action list" where
  "new_connections cfg =
     (let (c, acts) = start_accept \<lparr>cn_objects = [], cn_sockets = [], cn_accepting = False, cn_draws = 0\<rparr> in
      (c, acts @ reschedule_timer cfg))"

text \<open>Identifiers are drawn until one is not in the map.\<close>

partial_function (option) draw_identifier ::
    "(nat \<Rightarrow> identifier_t) \<Rightarrow> (identifier_t \<times> nat) list \<Rightarrow> nat \<Rightarrow> (identifier_t \<times> nat) option" where
  "draw_identifier rand sockets n =
     (if rand n \<in> set (keys sockets) then draw_identifier rand sockets (Suc n)
      else Some (rand n, Suc n))"

datatype accept_result = Accept_canceled | Accept_failed | Accept_ok nat bool

text \<open>
  The boolean of \<open>Accept_ok\<close> says whether the remote endpoint of the socket can be read. The session
  starts reading before \<open>new_worker_handler\<close> is called.
\<close>

definition on_accept :: "conn_config \<Rightarrow> (nat \<Rightarrow> identifier_t) \<Rightarrow> accept_result \<Rightarrow> connections \<Rightarrow> conn_result" where
  "on_accept cfg rand err c =
     (let c = c\<lparr>cn_accepting := False\<rparr> in
      case err of
        Accept_canceled \<Rightarrow> Some (c, [])
      | Accept_failed \<Rightarrow> Some (start_accept c)
      | Accept_ok socket endpoint_known \<Rightarrow>
          (case draw_identifier rand (cn_sockets c) (cn_draws c) of None \<Rightarrow> None
           | Some (i, n) \<Rightarrow>
               (let c = c\<lparr>cn_draws := n\<rparr> in
                if \<not> endpoint_known then Some (c, [Close_socket socket])
                else
                  (let session = new_worker_session i socket (cc_read_buffer_size cfg);
                       c = c\<lparr>cn_objects := cn_objects c @ [session],
                             cn_sockets := cn_sockets c @ [(i, length (cn_objects c))]\<rparr>;
                       (c, acts) = start_accept c in
                   Some (c, [Start_read socket, New_worker_handler i] @ acts)))))"

datatype timer_result = Timer_aborted | Timer_failed | Timer_expired

definition on_timer_tick :: "conn_config \<Rightarrow> timer_result \<Rightarrow> conn_action list" where
  "on_timer_tick cfg ec =
     (case ec of Timer_aborted \<Rightarrow> [] | _ \<Rightarrow> Tick_handler # reschedule_timer cfg)"

definition send_message :: "identifier_t \<Rightarrow> bytes \<Rightarrow> connections \<Rightarrow> conn_action list" where
  "send_message i msg c =
     (case map_of (cn_sockets c) i of None \<Rightarrow> []
      | Some k \<Rightarrow> worker_session_send msg (cn_objects c ! k))"

definition disconnect_worker :: "identifier_t \<Rightarrow> bool \<Rightarrow> connections \<Rightarrow> conn_result" where
  "disconnect_worker i callback c =
     (case map_of (cn_sockets c) i of None \<Rightarrow> Some (c, [])
      | Some k \<Rightarrow>
          (case worker_session_disconnect callback (cn_objects c ! k) of None \<Rightarrow> None
           | Some (session, acts) \<Rightarrow>
               Some (c\<lparr>cn_objects := (cn_objects c)[k := session],
                       cn_sockets := erase_key i (cn_sockets c)\<rparr>, acts)))"

section \<open>Events\<close>

text \<open>
  \<open>Session_message k\<close> is a message the read handler of object \<open>k\<close> has cut from the stream,
  \<open>Session_lost k\<close> a read or write error of object \<open>k\<close>, whose close handler is \<open>disconnect(true)\<close>.
\<close>

datatype conn_event =
    Accepted accept_result
  | Session_message nat bytes
  | Session_lost nat
  | Timer timer_result
  | Send_request identifier_t bytes
  | Disconnect_request identifier_t bool

fun conn_step :: "conn_config \<Rightarrow> (nat \<Rightarrow> identifier_t) \<Rightarrow> conn_event \<Rightarrow> connections \<Rightarrow> conn_result" where
  "conn_step cfg rand (Accepted err) c = (if cn_accepting c then on_accept cfg rand err c else Some (c, []))"
| "conn_step cfg rand (Session_message k msg) c =
     (if k < length (cn_objects c)
      then Some (c, [Buffer_handler (se_identifier (cn_objects c ! k)) msg]) else Some (c, []))"
| "conn_step cfg rand (Session_lost k) c =
     (if k < length (cn_objects c)
      then (case worker_session_disconnect True (cn_objects c ! k) of None \<Rightarrow> None
            | Some (session, acts) \<Rightarrow> Some (c\<lparr>cn_objects := (cn_objects c)[k := session]\<rparr>, acts))
      else Some (c, []))"
| "conn_step cfg rand (Timer ec) c = Some (c, on_timer_tick cfg ec)"
| "conn_step cfg rand (Send_request i msg) c = Some (c, send_message i msg c)"
| "conn_step cfg rand (Disconnect_request i callback) c = disconnect_worker i callback c"

fun run_conn :: "conn_config \<Rightarrow> (nat \<Rightarrow> identifier_t) \<Rightarrow> conn_event list \<Rightarrow> connections \<Rightarrow> conn_result" where
  "run_conn cfg rand [] c = Some (c, [])"
| "run_conn cfg rand (e # es) c =
     (case conn_step cfg rand e c of None \<Rightarrow> None
      | Some (c, acts) \<Rightarrow> map_option (\<lambda>(c, acts'). (c, acts @ acts')) (run_conn cfg rand es c))"

declare draw_identifier.simps [code]

section \<open>Drawing identifiers\<close>

lemma draw_identifier_fresh:
  assumes "draw_identifier rand sockets n = Some y"
  shows "fst y \<notin> set (keys sockets)"
proof (rule draw_identifier.raw_induct [OF _ assms, where P = "\<lambda>_ sockets _ y. fst y \<notin> set (keys sockets)"])
  fix draw :: "(nat \<Rightarrow> identifier_t) \<Rightarrow> (identifier_t \<times> nat) list \<Rightarrow> nat \<Rightarrow> (identifier_t \<times> nat) option"
    and rand sockets n z
  assume "\<And>rand sockets n y. draw rand sockets n = Some y \<Longrightarrow> fst y \<notin> set (keys sockets)"
    and "(if rand n \<in> set (keys sockets) then draw rand sockets (Suc n) else Some (rand n, Suc n)) = Some z"
  then show "fst z \<notin> set (keys sockets)" by (cases "rand n \<in> set (keys sockets)") (auto simp del: set_map)
qed

lemma draw_identifier_returns:
  assumes "rand (n + d) \<notin> set (keys sockets)"
  shows "\<exists>i m. draw_identifier rand sockets n = Some (i, m)"
  using assms
proof (induction d arbitrary: n)
  case (Suc d)
  then show ?case by (subst draw_identifier.simps) simp
qed (subst draw_identifier.simps, simp)

section \<open>The invariant\<close>

definition conn_ok :: "connections \<Rightarrow> bool" where
  "conn_ok c \<longleftrightarrow> distinct (keys (cn_sockets c)) \<and>
     (\<forall>(i, k) \<in> set (cn_sockets c). k < length (cn_objects c) \<and> se_identifier (cn_objects c ! k) = i) \<and>
     (\<forall>session \<in> set (cn_objects c). se_socket session \<noteq> None)"

lemma conn_ok_start: "conn_ok (fst (new_connections cfg))"
  by (simp add: new_connections_def start_accept_def conn_ok_def)

lemma start_accept_ok [simp]: "conn_ok (fst (start_accept c)) \<longleftrightarrow> conn_ok c"
  by (simp add: start_accept_def conn_ok_def)

lemma disconnect_open:
  "se_socket session \<noteq> None \<Longrightarrow> worker_session_disconnect callback session = Some (session, [])"
  by (auto simp: worker_session_disconnect_def)

lemma conn_ok_object: "conn_ok c \<Longrightarrow> k < length (cn_objects c) \<Longrightarrow> se_socket (cn_objects c ! k) \<noteq> None"
  by (simp add: conn_ok_def)

lemma conn_ok_lookup:
  "conn_ok c \<Longrightarrow> map_of (cn_sockets c) i = Some k \<Longrightarrow>
    k < length (cn_objects c) \<and> se_identifier (cn_objects c ! k) = i"
  by (auto simp: conn_ok_def dest!: map_of_SomeD)

lemma disconnect_worker_eq:
  assumes "conn_ok c"
  shows "disconnect_worker i callback c = Some (c\<lparr>cn_sockets := erase_key i (cn_sockets c)\<rparr>, [])"
proof (cases "map_of (cn_sockets c) i")
  case None
  then have "erase_key i (cn_sockets c) = cn_sockets c"
    by (intro erase_key_absent) (simp only: map_of_None_keys not_False_eq_True)
  with None show ?thesis by (simp add: disconnect_worker_def)
next
  case (Some k)
  with conn_ok_lookup [OF assms Some] conn_ok_object [OF assms] show ?thesis
    by (simp add: disconnect_worker_def disconnect_open)
qed

lemma session_lost_eq:
  assumes "conn_ok c"
  shows "conn_step cfg rand (Session_lost k) c = Some (c, [])"
  using conn_ok_object [OF assms, of k] by (simp add: disconnect_open)

lemma conn_ok_add:
  assumes "conn_ok c" and "i \<notin> set (keys (cn_sockets c))"
  shows "conn_ok (c\<lparr>cn_draws := m, cn_objects := cn_objects c @ [new_worker_session i socket n],
    cn_sockets := cn_sockets c @ [(i, length (cn_objects c))], cn_accepting := b\<rparr>)"
  using assms unfolding conn_ok_def by (auto simp: new_worker_session_def nth_append)

lemma conn_ok_fields [simp]:
  "conn_ok (c\<lparr>cn_accepting := b\<rparr>) = conn_ok c" "conn_ok (c\<lparr>cn_draws := m\<rparr>) = conn_ok c"
  by (simp_all add: conn_ok_def)

lemma on_accept_ok:
  assumes "conn_ok c" and "on_accept cfg rand err c = Some (c', acts)"
  shows "conn_ok c'"
proof (cases err)
  case (Accept_ok socket known)
  then obtain i m where draw: "draw_identifier rand (cn_sockets c) (cn_draws c) = Some (i, m)"
    using assms(2) by (auto simp: on_accept_def split: option.splits)
  have fresh: "i \<notin> set (keys (cn_sockets c))" using draw_identifier_fresh [OF draw] by simp
  show ?thesis
  proof (cases known)
    case True
    then have "c' = c\<lparr>cn_draws := m, cn_objects := cn_objects c @ [new_worker_session i socket (cc_read_buffer_size cfg)],
        cn_sockets := cn_sockets c @ [(i, length (cn_objects c))], cn_accepting := True\<rparr>"
      using assms(2) draw by (auto simp add: on_accept_def start_accept_def Let_def Accept_ok)
    then show ?thesis using conn_ok_add [OF assms(1) fresh] by (simp only:)
  next
    case False
    then have "c' = c\<lparr>cn_accepting := False, cn_draws := m\<rparr>"
      using assms(2) draw by (auto simp add: on_accept_def Accept_ok)
    then show ?thesis using assms(1) by simp
  qed
qed (use assms in \<open>auto simp: on_accept_def start_accept_def\<close>)

lemma conn_ok_step:
  assumes ok: "conn_ok c" and step: "conn_step cfg rand ev c = Some (c', acts)"
  shows "conn_ok c'"
proof (cases ev)
  case (Accepted err)
  with ok step show ?thesis by (auto intro: on_accept_ok split: if_splits)
next
  case (Disconnect_request i callback)
  with ok step show ?thesis by (auto simp: disconnect_worker_eq conn_ok_def)
next
  case (Session_lost k)
  with ok step show ?thesis by (simp only: session_lost_eq) simp
qed (use ok step in \<open>auto split: if_splits\<close>)

inductive conn_start :: "connections \<Rightarrow> bool" where
  "conn_start (fst (new_connections cfg))"

inductive conn_rel :: "connections \<Rightarrow> connections \<Rightarrow> bool" where
  "conn_step cfg rand ev c = Some (c', acts) \<Longrightarrow> conn_rel c c'"

interpretation manager: invariant_system conn_start conn_rel conn_ok
  by unfold_locales (auto simp: conn_start.simps conn_rel.simps conn_ok_start intro: conn_ok_step)

lemma conn_ok_run: "conn_ok c \<Longrightarrow> run_conn cfg rand es c = Some (c', acts) \<Longrightarrow> conn_ok c'"
proof (induction es arbitrary: c c' acts)
  case (Cons e es)
  then show ?case by (auto split: option.splits dest: conn_ok_step)
qed simp

lemma run_conn_Cons:
  assumes "run_conn cfg rand (e # es) c = Some (c', acts)"
  obtains d a1 a2 where "conn_step cfg rand e c = Some (d, a1)"
    "run_conn cfg rand es d = Some (c', a2)" "acts = a1 @ a2"
  using assms by (auto split: option.splits)

text \<open>No step reports a lost worker.\<close>

lemma step_no_disconnect_handler:
  assumes "conn_ok c" and "conn_step cfg rand ev c = Some (c', acts)"
  shows "Disconnect_handler i \<notin> set acts"
proof (cases ev)
  case (Session_lost k)
  with assms show ?thesis by (simp only: session_lost_eq) simp
next
  case (Disconnect_request j callback)
  with assms show ?thesis by (simp add: disconnect_worker_eq)
qed (use assms in \<open>auto simp: on_accept_def start_accept_def Let_def on_timer_tick_def reschedule_timer_def
  send_message_def worker_session_send_def
  split: if_splits option.splits accept_result.splits timer_result.splits\<close>)

lemma run_no_disconnect_handler:
  "conn_ok c \<Longrightarrow> run_conn cfg rand es c = Some (c', acts) \<Longrightarrow> Disconnect_handler i \<notin> set acts"
proof (induction es arbitrary: c acts)
  case (Cons e es)
  from Cons.prems(2) obtain d a1 a2 where step: "conn_step cfg rand e c = Some (d, a1)"
    "run_conn cfg rand es d = Some (c', a2)" "acts = a1 @ a2" by (rule run_conn_Cons)
  then show ?case
    using Cons.IH [OF conn_ok_step [OF Cons.prems(1) step(1)] step(2)]
      step_no_disconnect_handler [OF Cons.prems(1) step(1)] by simp
qed simp

text \<open>A manager that is not accepting never accepts again.\<close>

definition accept_action :: "conn_action \<Rightarrow> bool" where
  "accept_action a \<longleftrightarrow> (case a of Start_accept \<Rightarrow> True | New_worker_handler _ \<Rightarrow> True | _ \<Rightarrow> False)"

lemma step_not_accepting:
  assumes "\<not> cn_accepting c" and "conn_step cfg rand ev c = Some (c', acts)"
  shows "\<not> cn_accepting c' \<and> \<not> list_ex accept_action acts"
  using assms
  by (cases ev) (auto simp: on_timer_tick_def reschedule_timer_def send_message_def accept_action_def
      worker_session_send_def worker_session_disconnect_def disconnect_worker_def
      split: if_splits option.splits timer_result.splits)

lemma run_not_accepting:
  "\<not> cn_accepting c \<Longrightarrow> run_conn cfg rand es c = Some (c', acts) \<Longrightarrow>
    \<not> cn_accepting c' \<and> \<not> list_ex accept_action acts"
proof (induction es arbitrary: c acts)
  case (Cons e es)
  from Cons.prems(2) show ?case
    by (rule run_conn_Cons) (use Cons step_not_accepting in fastforce)
qed simp

end
