(* ===== verification/Dedup.thy ===== *)
theory Dedup
  imports Proto_Packets
begin

text \<open>
  The supervisor's record of the checksums already forwarded (src/supervisor/deduplicate_context.h,
  deduplicate_context.cpp): a sequence of entries in order of insertion with a unique index on the
  checksum. Times are nanoseconds.
\<close>

record deduplicate_entry =
  de_value :: checksum
  de_add_time :: int

type_synonym dedup = "deduplicate_entry list"

definition check_and_add :: "checksum \<Rightarrow> int \<Rightarrow> dedup \<Rightarrow> bool \<times> dedup" where
  "check_and_add c add_time d =
     (if c \<in> set (map de_value d) then (False, d)
      else (True, d @ [\<lparr>de_value = c, de_add_time = add_time\<rparr>]))"

definition check_expire :: "int \<Rightarrow> int \<Rightarrow> dedup \<Rightarrow> dedup" where
  "check_expire threshold_sec now d =
     dropWhile (\<lambda>e. de_add_time e < now - threshold_sec * 1000000000) d"

definition dedup_ok :: "dedup \<Rightarrow> bool" where
  "dedup_ok d \<longleftrightarrow> distinct (map de_value d)"

definition in_time_order :: "dedup \<Rightarrow> bool" where
  "in_time_order d \<longleftrightarrow> sorted (map de_add_time d)"

lemma check_and_add_ok: "dedup_ok d \<Longrightarrow> dedup_ok (snd (check_and_add c t d))"
  by (auto simp: check_and_add_def dedup_ok_def)

lemma check_expire_suffix: "\<exists>old. d = old @ check_expire thr now d"
  unfolding check_expire_def by (metis takeWhile_dropWhile_id)

lemma check_expire_ok: "dedup_ok d \<Longrightarrow> dedup_ok (check_expire thr now d)"
  using check_expire_suffix [of d thr now] unfolding dedup_ok_def
  by (metis distinct_append map_append)

lemma check_and_add_order:
  "in_time_order d \<Longrightarrow> (\<And>e. e \<in> set d \<Longrightarrow> de_add_time e \<le> t) \<Longrightarrow>
    in_time_order (snd (check_and_add c t d))"
  by (auto simp: check_and_add_def in_time_order_def sorted_append)

lemma dropWhile_sorted:
  "sorted (map f d) \<Longrightarrow> dropWhile (\<lambda>e. f e < x) d = filter (\<lambda>e. x \<le> f e) d"
  by (induction d) (auto simp: not_less intro!: filter_True [symmetric])

lemma check_expire_filter:
  "in_time_order d \<Longrightarrow> check_expire thr now d =
    filter (\<lambda>e. now - thr * 1000000000 \<le> de_add_time e) d"
  unfolding check_expire_def in_time_order_def by (rule dropWhile_sorted)

text \<open>
  A use of the record: an insertion at a time, or an expiry. \<open>accepted\<close> are the insertions that
  were new, in order.
\<close>

datatype dedup_op = Add checksum int | Expire int

fun run_dedup :: "int \<Rightarrow> dedup_op list \<Rightarrow> dedup \<Rightarrow> (checksum \<times> int) list \<times> dedup" where
  "run_dedup thr [] d = ([], d)"
| "run_dedup thr (Add c t # ops) d =
     (let (added, d) = check_and_add c t d; (acc, d) = run_dedup thr ops d in
      (if added then (c, t) # acc else acc, d))"
| "run_dedup thr (Expire now # ops) d = run_dedup thr ops (check_expire thr now d)"

fun op_time :: "dedup_op \<Rightarrow> int" where
  "op_time (Add c t) = t" | "op_time (Expire t) = t"

lemma run_dedup_Add:
  "fst (run_dedup thr (Add c t # ops) d) =
    (if c \<in> set (map de_value d) then fst (run_dedup thr ops d)
     else (c, t) # fst (run_dedup thr ops (d @ [\<lparr>de_value = c, de_add_time = t\<rparr>])))"
  by (simp add: check_and_add_def case_prod_beta)

declare run_dedup.simps(2) [simp del]

lemma run_dedup_accepted:
  "p \<in> set (fst (run_dedup thr ops d)) \<Longrightarrow> Add (fst p) (snd p) \<in> set ops"
proof (induction ops arbitrary: d)
  case (Cons op ops)
  then show ?case by (cases op) (auto simp: run_dedup_Add split: if_splits)
qed simp

text \<open>With times that do not decrease, a checksum accepted again is older than the threshold.\<close>

lemma run_dedup_old:
  "sorted (map op_time ops) \<Longrightarrow> e \<in> set d \<Longrightarrow> (c, t) \<in> set (fst (run_dedup thr ops d)) \<Longrightarrow>
    de_value e = c \<Longrightarrow> thr * 1000000000 < t - de_add_time e"
proof (induction ops arbitrary: d)
  case (Cons op ops)
  show ?case
  proof (cases op)
    case (Add c' t')
    show ?thesis
    proof (cases "c' \<in> set (map de_value d)")
      case True
      with Cons Add show ?thesis by (simp add: run_dedup_Add)
    next
      case False
      then have "c \<noteq> c'" using Cons.prems(2,4) by force
      with Cons.prems(3) False Add have
        "(c, t) \<in> set (fst (run_dedup thr ops (d @ [\<lparr>de_value = c', de_add_time = t'\<rparr>])))"
        by (simp add: run_dedup_Add)
      from Cons.IH [OF _ _ this Cons.prems(4)] Cons.prems(1,2) show ?thesis by simp
    qed
  next
    case (Expire now)
    show ?thesis
    proof (cases "e \<in> set (check_expire thr now d)")
      case True
      with Cons Expire show ?thesis by simp
    next
      case False
      have "set d = set (takeWhile (\<lambda>e. de_add_time e < now - thr * 1000000000) d) \<union> set (check_expire thr now d)"
        unfolding check_expire_def by (metis set_append takeWhile_dropWhile_id)
      with False Cons.prems(2) have "de_add_time e < now - thr * 1000000000"
        by (auto dest: set_takeWhileD)
      moreover have "now \<le> t"
        using run_dedup_accepted [of "(c, t)" thr ops "check_expire thr now d"] Cons.prems(1,3) Expire
        by force
      ultimately show ?thesis by simp
    qed
  qed
qed simp

definition spaced :: "int \<Rightarrow> (checksum \<times> int) list \<Rightarrow> bool" where
  "spaced thr acc \<longleftrightarrow> sorted_wrt (\<lambda>(c, t) (c', t'). c = c' \<longrightarrow> thr * 1000000000 < t' - t) acc"

lemma run_dedup_spaced: "sorted (map op_time ops) \<Longrightarrow> spaced thr (fst (run_dedup thr ops d))"
proof (induction ops arbitrary: d)
  case (Cons op ops)
  show ?case
  proof (cases op)
    case (Add c t)
    let ?e = "\<lparr>de_value = c, de_add_time = t\<rparr>"
    have "thr * 1000000000 < t' - t" if "(c, t') \<in> set (fst (run_dedup thr ops (d @ [?e])))" for t'
      using run_dedup_old [of ops ?e "d @ [?e]" c t' thr] that Cons.prems by simp
    with Cons Add show ?thesis by (auto simp: run_dedup_Add spaced_def)
  qed (use Cons in simp)
qed (simp add: spaced_def)

text \<open>Without expiry no checksum is accepted twice.\<close>

lemma run_dedup_no_expiry:
  "list_all (\<lambda>op. case op of Add _ _ \<Rightarrow> True | _ \<Rightarrow> False) ops \<Longrightarrow>
    distinct (map fst (fst (run_dedup thr ops d))) \<and>
    set (map fst (fst (run_dedup thr ops d))) \<inter> set (map de_value d) = {}"
proof (induction ops arbitrary: d)
  case (Cons op ops)
  then obtain c t where "op = Add c t" by (cases op) auto
  with Cons.prems Cons.IH [of d] Cons.IH [of "d @ [\<lparr>de_value = c, de_add_time = t\<rparr>]"] show ?case
    by (auto simp: run_dedup_Add)
qed simp

end
