(* ===== verification/Supervisor.thy ===== *)
theory Supervisor
  imports Sched_Sync Conn_Manager Dedup
begin

text \<open>
  The supervisor process (src/supervisor/global_context.cpp): the connection manager's callbacks
  drive the scheduler, the scheduler's messages go back to the connection manager, and the data of
  the workers goes through the checksum record to the message broker. Everything runs on the
  manager's single thread, so one event is handled to its end before the next.
\<close>

record supervisor_env =
  sv_sched_env :: sched_env
  sv_conn_config :: conn_config
  sv_rand :: "nat \<Rightarrow> identifier_t"
  sv_ulong :: nat
  sv_memory :: "nat \<Rightarrow> byte"

record supervisor =
  sv_sched :: sched
  sv_conns :: connections
  sv_dedup :: dedup
  sv_posted :: "(checksum \<times> bytes \<times> bytes) list"
  sv_diag :: "diagnostics list"
  sv_actions :: "conn_action list"

definition start_supervisor :: "supervisor_env \<Rightarrow> supervisor option" where
  "start_supervisor env =
     map_option (\<lambda>s. let (c, acts) = new_connections (sv_conn_config env) in
       \<lparr>sv_sched = s, sv_conns = c, sv_dedup = [], sv_posted = [], sv_diag = [], sv_actions = acts\<rparr>)
     (init_sched (sv_sched_env env))"

definition on_worker_data :: "supervisor_env \<Rightarrow> checksum \<Rightarrow> bytes \<Rightarrow> bytes \<Rightarrow> supervisor \<Rightarrow> supervisor" where
  "on_worker_data env c routing_key data v =
     (if c = 0 then v\<lparr>sv_posted := sv_posted v @ [(c, routing_key, data)]\<rparr>
      else (let (now, s) = read_clock (sv_sched_env env) (sv_sched v);
                (added, d) = check_and_add c now (sv_dedup v);
                v = v\<lparr>sv_sched := s, sv_dedup := d\<rparr> in
            if added then v\<lparr>sv_posted := sv_posted v @ [(c, routing_key, data)]\<rparr> else v))"

definition on_diagnostic_data :: "diagnostics \<Rightarrow> supervisor \<Rightarrow> supervisor" where
  "on_diagnostic_data d v = v\<lparr>sv_diag := sv_diag v @ [d]\<rparr>"

definition on_server_tick :: "supervisor_env \<Rightarrow> int \<Rightarrow> supervisor \<Rightarrow> supervisor" where
  "on_server_tick env message_ttl_sec v =
     (let (now, s) = read_clock (sv_sched_env env) (sv_sched v) in
      v\<lparr>sv_sched := s, sv_dedup := check_expire message_ttl_sec now (sv_dedup v)\<rparr>)"

text \<open>What the scheduler's calls out of the session do. A message the generator writes past its buffer
  is undefined behaviour, the value \<open>None\<close>.\<close>

fun perform :: "supervisor_env \<Rightarrow> sched_output \<Rightarrow> supervisor \<Rightarrow> supervisor option" where
  "perform env (Send_assign i r) v =
     map_option (\<lambda>p. v\<lparr>sv_actions := sv_actions v @ send_message i p (sv_conns v)\<rparr>)
       (generate_assign_packet (sv_ulong env) (sv_memory env) r)"
| "perform env (Send_unassign i r) v =
     map_option (\<lambda>p. v\<lparr>sv_actions := sv_actions v @ send_message i p (sv_conns v)\<rparr>)
       (generate_unassign_packet (sv_ulong env) (sv_memory env) r)"
| "perform env (Disconnect_worker i) v =
     map_option (\<lambda>(c, acts). v\<lparr>sv_conns := c, sv_actions := sv_actions v @ acts\<rparr>)
       (disconnect_worker i False (sv_conns v))"
| "perform env (Worker_data c routing_key data) v = Some (on_worker_data env c routing_key data v)"
| "perform env (Diagnostics d) v = Some (on_diagnostic_data d v)"

fun perform_all :: "supervisor_env \<Rightarrow> sched_output list \<Rightarrow> supervisor \<Rightarrow> supervisor option" where
  "perform_all env [] v = Some v"
| "perform_all env (e # es) v = Option.bind (perform env e v) (perform_all env es)"

text \<open>One event of the scheduler with its calls out of the session.\<close>

definition sched_call :: "supervisor_env \<Rightarrow> sched_event \<Rightarrow> supervisor \<Rightarrow> supervisor option" where
  "sched_call env ev v =
     (case handle_event (sv_sched_env env) ev (sv_sched v) of None \<Rightarrow> None
      | Some s \<Rightarrow> perform_all env (drop (length (outputs (sv_sched v))) (outputs s)) (v\<lparr>sv_sched := s\<rparr>))"

text \<open>The callbacks the connection manager was given; its other actions have no effect here. The tick
  is bound to the scheduler's check.\<close>

fun callback :: "supervisor_env \<Rightarrow> conn_action \<Rightarrow> supervisor \<Rightarrow> supervisor option" where
  "callback env (New_worker_handler i) v = sched_call env (New_worker i) v"
| "callback env (Disconnect_handler i) v = sched_call env (Worker_disconnected i) v"
| "callback env (Buffer_handler i msg) v = sched_call env (Worker_buffer i msg) v"
| "callback env Tick_handler v = sched_call env Server_tick v"
| "callback env a v = Some (v\<lparr>sv_actions := sv_actions v @ [a]\<rparr>)"

fun callbacks :: "supervisor_env \<Rightarrow> conn_action list \<Rightarrow> supervisor \<Rightarrow> supervisor option" where
  "callbacks env [] v = Some v"
| "callbacks env (a # as) v = Option.bind (callback env a v) (callbacks env as)"

datatype supervisor_event =
    Network conn_event
  | Vtuber_list "room_id list"
  | Auth_code_update

fun supervisor_step :: "supervisor_env \<Rightarrow> supervisor_event \<Rightarrow> supervisor \<Rightarrow> supervisor option" where
  "supervisor_step env (Network ev) v =
     (case conn_step (sv_conn_config env) (sv_rand env) ev (sv_conns v) of None \<Rightarrow> None
      | Some (c, acts) \<Rightarrow> callbacks env acts (v\<lparr>sv_conns := c\<rparr>))"
| "supervisor_step env (Vtuber_list room_ids) v = sched_call env (Room_list room_ids) v"
| "supervisor_step env Auth_code_update v = sched_call env Auth_code_changed v"

inductive supervisor_start :: "supervisor \<Rightarrow> bool" where
  "start_supervisor env = Some v \<Longrightarrow> supervisor_start v"

inductive supervisor_rel :: "supervisor \<Rightarrow> supervisor \<Rightarrow> bool" where
  "containers_ok (sv_sched_env env) \<Longrightarrow> supervisor_step env ev v = Some v' \<Longrightarrow> supervisor_rel v v'"

section \<open>Invariants of the process\<close>

text \<open>Every posted message with a checksum has that checksum in the record, no checksum is posted
  twice, and the parts keep their own invariants.\<close>

definition posted_once :: "supervisor \<Rightarrow> bool" where
  "posted_once v \<longleftrightarrow> distinct (filter (\<lambda>c. c \<noteq> 0) (map fst (sv_posted v))) \<and>
     set (filter (\<lambda>c. c \<noteq> 0) (map fst (sv_posted v))) \<subseteq> set (map de_value (sv_dedup v))"

definition supervisor_inv :: "supervisor \<Rightarrow> bool" where
  "supervisor_inv v \<longleftrightarrow> sched_inv (sv_sched v) \<and> conn_ok (sv_conns v) \<and> posted_once v"

lemma supervisor_inv_fields [simp]:
  "supervisor_inv (v\<lparr>sv_actions := a\<rparr>) = supervisor_inv v"
  "supervisor_inv (v\<lparr>sv_diag := d\<rparr>) = supervisor_inv v"
  by (simp_all add: supervisor_inv_def posted_once_def)

lemma supervisor_inv_conns:
  "supervisor_inv v \<Longrightarrow> conn_ok c \<Longrightarrow> supervisor_inv (v\<lparr>sv_conns := c\<rparr>)"
  by (simp add: supervisor_inv_def posted_once_def)

lemma supervisor_inv_conn_ok: "supervisor_inv v \<Longrightarrow> conn_ok (sv_conns v)"
  by (simp add: supervisor_inv_def)

lemma erase_socket_ok: "conn_ok c \<Longrightarrow> conn_ok (c\<lparr>cn_sockets := erase_key i (cn_sockets c)\<rparr>)"
  by (auto simp: conn_ok_def)

lemma on_worker_data_inv: "supervisor_inv v \<Longrightarrow> supervisor_inv (on_worker_data env c k d v)"
  by (auto simp: supervisor_inv_def posted_once_def on_worker_data_def check_and_add_def Let_def
      case_prod_beta)

lemma perform_inv: "supervisor_inv v \<Longrightarrow> perform env e v = Some v' \<Longrightarrow> supervisor_inv v'"
  by (cases e) (auto simp: on_worker_data_inv on_diagnostic_data_def disconnect_worker_eq
      supervisor_inv_conn_ok intro!: supervisor_inv_conns erase_socket_ok)

lemma perform_all_inv: "supervisor_inv v \<Longrightarrow> perform_all env es v = Some v' \<Longrightarrow> supervisor_inv v'"
proof (induction es arbitrary: v)
  case (Cons e es)
  from Cons.prems(2) obtain u where "perform env e v = Some u" "perform_all env es u = Some v'"
    by (auto simp: bind_eq_Some_conv)
  with Cons perform_inv show ?case by blast
qed simp

lemma sched_call_inv:
  assumes "containers_ok (sv_sched_env env)" and inv: "supervisor_inv v"
    and "sched_call env ev v = Some v'"
  shows "supervisor_inv v'"
proof -
  obtain s where s: "handle_event (sv_sched_env env) ev (sv_sched v) = Some s"
    and all: "perform_all env (drop (length (outputs (sv_sched v))) (outputs s)) (v\<lparr>sv_sched := s\<rparr>) = Some v'"
    using assms(3) by (auto simp: sched_call_def split: option.splits)
  have "sched_inv s" using handle_event_inv [OF assms(1) _ s] inv by (simp add: supervisor_inv_def)
  with inv have "supervisor_inv (v\<lparr>sv_sched := s\<rparr>)" by (simp add: supervisor_inv_def posted_once_def)
  from perform_all_inv [OF this all] show ?thesis .
qed

lemma callbacks_inv:
  assumes "containers_ok (sv_sched_env env)"
  shows "supervisor_inv v \<Longrightarrow> callbacks env acts v = Some v' \<Longrightarrow> supervisor_inv v'"
proof (induction acts arbitrary: v)
  case (Cons a acts)
  from Cons.prems(2) obtain u where u: "callback env a v = Some u" "callbacks env acts u = Some v'"
    by (auto simp: bind_eq_Some_conv)
  have "supervisor_inv u"
    using sched_call_inv [OF assms Cons.prems(1)] u(1) Cons.prems(1) by (cases a) auto
  with Cons.IH u(2) show ?case by blast
qed simp

lemma supervisor_step_inv:
  assumes "containers_ok (sv_sched_env env)" and "supervisor_inv v"
    and "supervisor_step env ev v = Some v'"
  shows "supervisor_inv v'"
proof (cases ev)
  case (Network e)
  then obtain c acts where step: "conn_step (sv_conn_config env) (sv_rand env) e (sv_conns v) = Some (c, acts)"
    and cb: "callbacks env acts (v\<lparr>sv_conns := c\<rparr>) = Some v'"
    using assms(3) by (auto split: option.splits)
  have "conn_ok c" using assms(2) conn_ok_step [OF _ step] by (simp add: supervisor_inv_def)
  with assms(2) have "supervisor_inv (v\<lparr>sv_conns := c\<rparr>)" by (simp add: supervisor_inv_def posted_once_def)
  from callbacks_inv [OF assms(1) this cb] show ?thesis .
qed (use assms sched_call_inv in \<open>auto\<close>)

interpretation supervisor: invariant_system supervisor_start supervisor_rel supervisor_inv
proof
  show "supervisor_start v \<Longrightarrow> supervisor_inv v" for v
  proof (erule supervisor_start.cases, clarify)
    fix env assume "start_supervisor env = Some v"
    then obtain s where s: "init_sched (sv_sched_env env) = Some s"
      and v: "v = \<lparr>sv_sched = s, sv_conns = fst (new_connections (sv_conn_config env)), sv_dedup = [],
        sv_posted = [], sv_diag = [], sv_actions = snd (new_connections (sv_conn_config env))\<rparr>"
      by (auto simp: start_supervisor_def case_prod_beta)
    have "sched_inv s" using scheduler.inv_start [OF sched_start.intros [OF s]] .
    then show "supervisor_inv v" by (simp add: v supervisor_inv_def posted_once_def conn_ok_start)
  qed
  show "supervisor_inv v \<Longrightarrow> supervisor_rel v v' \<Longrightarrow> supervisor_inv v'" for v v'
    by (auto simp: supervisor_rel.simps intro: supervisor_step_inv)
qed

end
