(* ===== verification/Supervisor_Props.thy ===== *)
theory Supervisor_Props
  imports Supervisor Sched_Props
begin

text \<open>
  Properties of the supervisor's connections, of its checksum record, and of the whole process.
\<close>

section \<open>A concrete process\<close>

definition demo_supervisor_env :: supervisor_env where
  "demo_supervisor_env = \<lparr>sv_sched_env = demo_env,
     sv_conn_config = \<lparr>cc_read_buffer_size = 128, cc_check_interval_msec = 1000, cc_min_check_interval_msec = 500\<rparr>,
     sv_rand = (\<lambda>_. 1), sv_ulong = 4, sv_memory = (\<lambda>_. 0)\<rparr>"

definition demo_supervisor :: supervisor where
  "demo_supervisor = \<lparr>sv_sched = empty_sched, sv_conns = fst (new_connections (sv_conn_config demo_supervisor_env)),
     sv_dedup = [], sv_posted = [], sv_diag = [],
     sv_actions = snd (new_connections (sv_conn_config demo_supervisor_env))\<rparr>"

definition checked_payload :: bytes where
  "checked_payload = [worker_data_code, 0, 0, 0, 7, 5, 0, 0, 0] @ replicate 32 0 @ [1, 2]"

fun run_supervisor :: "supervisor_env \<Rightarrow> supervisor_event list \<Rightarrow> supervisor \<Rightarrow> supervisor option" where
  "run_supervisor env [] v = Some v"
| "run_supervisor env (e # es) v = Option.bind (supervisor_step env e v) (run_supervisor env es)"

lemma run_supervisor_reach:
  "containers_ok (sv_sched_env env) \<Longrightarrow> reach supervisor_start supervisor_rel v \<Longrightarrow>
    run_supervisor env es v = Some v' \<Longrightarrow> reach supervisor_start supervisor_rel v'"
proof (induction es arbitrary: v)
  case (Cons e es)
  then obtain u where u: "supervisor_step env e v = Some u" "run_supervisor env es u = Some v'"
    by (auto simp: bind_eq_Some_conv)
  have "reach supervisor_start supervisor_rel u"
    by (rule reach_step [OF Cons.prems(2)]) (rule supervisor_rel.intros [OF Cons.prems(1) u(1)])
  with Cons.IH Cons.prems(1) u(2) show ?case by blast
qed simp

lemma demo_supervisor_reach: "reach supervisor_start supervisor_rel demo_supervisor"
proof (rule reach_start, rule supervisor_start.intros)
  show "start_supervisor demo_supervisor_env = Some demo_supervisor" by code_simp
qed

text \<open>The run, one event at a time.\<close>

definition demo_conns :: connections where
  "demo_conns = \<lparr>cn_objects = [new_worker_session 1 3 128], cn_sockets = [(1, 0)], cn_accepting = True,
     cn_draws = 1\<rparr>"

definition demo_v1 :: supervisor where
  "demo_v1 = demo_supervisor\<lparr>sv_sched := empty_sched\<lparr>rooms := demo_rooms\<rparr>\<rparr>"

definition demo_v2 :: supervisor where
  "demo_v2 = demo_v1\<lparr>sv_sched := demo_connected, sv_conns := demo_conns,
     sv_actions := [Start_accept, Arm_timer 500, Start_read 3, Start_accept]\<rparr>"

definition demo_v3 :: supervisor where
  "demo_v3 = demo_v2\<lparr>sv_sched := demo_sched,
     sv_diag := [\<lparr>dg_room_statuses = [(7, 0), (9, 0)], dg_worker_statuses = [(1, 0, 3, 1)],
       dg_tasks = [], dg_max_tasks_per_room = 1\<rparr>],
     sv_actions := [Start_accept, Arm_timer 500, Start_read 3, Start_accept,
       Write_socket 3 [0, 0, 0, 5, 1, 0, 0, 0, 7], Write_socket 3 [0, 0, 0, 5, 1, 0, 0, 0, 9]]\<rparr>"

lemma demo_step1: "supervisor_step demo_supervisor_env (Vtuber_list [7, 9]) demo_supervisor = Some demo_v1"
  by code_simp

lemma demo_step2: "supervisor_step demo_supervisor_env (Network (Accepted (Accept_ok 3 True))) demo_v1 = Some demo_v2"
  by code_simp

lemma demo_step3: "supervisor_step demo_supervisor_env (Network (Session_message 0 demo_payload)) demo_v2 = Some demo_v3"
proof -
  have "handle_event (sv_sched_env demo_supervisor_env) (Worker_buffer 1 demo_payload) demo_connected = Some demo_sched"
    using demo_run_buffer demo_run_check by (simp add: demo_supervisor_env_def)
  then have "sched_call demo_supervisor_env (Worker_buffer 1 demo_payload) demo_v2 =
      perform_all demo_supervisor_env (drop (length (outputs demo_connected)) (outputs demo_sched))
        (demo_v2\<lparr>sv_sched := demo_sched\<rparr>)"
    by (simp add: sched_call_def demo_v2_def)
  also have "\<dots> = Some demo_v3" by code_simp
  finally have "callback demo_supervisor_env (Buffer_handler 1 demo_payload) demo_v2 = Some demo_v3" by simp
  moreover have "conn_step (sv_conn_config demo_supervisor_env) (sv_rand demo_supervisor_env)
      (Session_message 0 demo_payload) (sv_conns demo_v2) = Some (sv_conns demo_v2, [Buffer_handler 1 demo_payload])"
    by (simp add: demo_v2_def demo_conns_def new_worker_session_def)
  ultimately show ?thesis by simp
qed

definition demo_v4 :: supervisor where
  "demo_v4 = the (supervisor_step demo_supervisor_env (Network (Session_message 0 checked_payload)) demo_v3)"

lemma demo_step4:
  "supervisor_step demo_supervisor_env (Network (Session_message 0 checked_payload)) demo_v3 = Some demo_v4"
  "map fst (sv_posted demo_v4) = [5]"
  unfolding demo_v4_def by code_simp+

lemma demo_v4_reach: "reach supervisor_start supervisor_rel demo_v4"
proof (rule run_supervisor_reach [OF _ demo_supervisor_reach])
  show "containers_ok (sv_sched_env demo_supervisor_env)"
    by (simp add: demo_supervisor_env_def demo_containers)
  show "run_supervisor demo_supervisor_env [Vtuber_list [7, 9], Network (Accepted (Accept_ok 3 True)),
      Network (Session_message 0 demo_payload), Network (Session_message 0 checked_payload)] demo_supervisor = Some demo_v4"
    by (simp only: run_supervisor.simps demo_step1 demo_step2 demo_step3 demo_step4(1) bind.simps)
qed

section \<open>The process\<close>

text \<open>C17 No message twice. In every reachable state of the supervisor each checksum other than zero is
  among the posted messages at most once. The record is only ever emptied by the server tick, and
  the scheduler never calls the tick handler it is given, so this holds for the whole run and not
  only for the configured time to live.\<close>

theorem posted_at_most_once:
  assumes "reach supervisor_start supervisor_rel v" and "c \<noteq> 0"
  shows "count_list (map fst (sv_posted v)) c \<le> 1"
proof -
  have "distinct (filter (\<lambda>c. c \<noteq> 0) (map fst (sv_posted v)))"
    using supervisor.inv_reach [OF assms(1)] by (simp add: supervisor_inv_def posted_once_def)
  then have "count_list (filter (\<lambda>c. c \<noteq> 0) (map fst (sv_posted v))) c \<le> 1"
    by (rule distinct_count_le)
  moreover have "count_list (filter (\<lambda>c. c \<noteq> 0) xs) c = count_list xs c" for xs
    using assms(2) by (induction xs) auto
  ultimately show ?thesis by simp
qed

theorem posted_at_most_once_witness:
  "count_list (map fst (sv_posted demo_v4)) 5 \<le> 1 \<and> map fst (sv_posted demo_v4) = [5]"
  using posted_at_most_once [OF demo_v4_reach, of 5] demo_step4(2) by simp

text \<open>Spacing. Used with times that do not decrease, the checksum record accepts the same checksum
  again only when more than the threshold has passed since it last accepted it.\<close>

theorem dedup_spacing:
  assumes "sorted (map op_time ops)" and "fst (run_dedup thr ops d) = xs @ (c, t) # ys @ (c, t') # zs"
  shows "thr * 1000000000 < t' - t"
  using run_dedup_spaced [OF assms(1), of thr d] unfolding assms(2)
  by (auto simp: spaced_def sorted_wrt_append)

theorem dedup_spacing_witness:
  "fst (run_dedup 2 [Add 5 0, Add 5 1000000000, Expire 3000000000, Add 5 3000000000] []) =
     [(5, 0), (5, 3000000000)] \<and> (2 :: int) * 1000000000 < 3000000000 - 0"
proof -
  have run: "fst (run_dedup 2 [Add 5 0, Add 5 1000000000, Expire 3000000000, Add 5 3000000000] []) =
     [] @ (5, 0) # [] @ (5, 3000000000) # []" by code_simp
  from dedup_spacing [OF _ run] run show ?thesis by simp
qed

section \<open>The connections\<close>

text \<open>Disconnection has no effect. In every reachable state of the connection manager a request to
  disconnect a worker closes no socket, whether or not the caller is to be notified, it only forgets
  the identifier; the session still delivers the messages of that worker to the scheduler; and the
  loss of a session's connection is not reported to the scheduler. The guard of
  \<open>worker_session::disconnect\<close> returns exactly when there is a socket to close.\<close>

theorem disconnect_has_no_effect:
  assumes "reach conn_start conn_rel c" and "map_of (cn_sockets c) i = Some k"
  shows "disconnect_worker i notify c = Some (c\<lparr>cn_sockets := erase_key i (cn_sockets c)\<rparr>, []) \<and>
    conn_step cfg rand (Session_message k msg) (c\<lparr>cn_sockets := erase_key i (cn_sockets c)\<rparr>) =
      Some (c\<lparr>cn_sockets := erase_key i (cn_sockets c)\<rparr>, [Buffer_handler i msg]) \<and>
    conn_step cfg rand (Session_lost k) c = Some (c, [])"
proof -
  have ok: "conn_ok c" by (rule manager.inv_reach [OF assms(1)])
  then show ?thesis
    using disconnect_worker_eq [OF ok] conn_ok_lookup [OF ok assms(2)] session_lost_eq [OF ok]
    by (intro conjI) (simp_all del: conn_step.simps(3))
qed

lemma demo_conns_reach: "reach conn_start conn_rel demo_conns"
proof -
  let ?cfg = "sv_conn_config demo_supervisor_env"
  have "conn_step ?cfg (sv_rand demo_supervisor_env) (Accepted (Accept_ok 3 True)) (fst (new_connections ?cfg)) =
      Some (demo_conns, [Start_read 3, New_worker_handler 1, Start_accept])" by code_simp
  moreover have "reach conn_start conn_rel (fst (new_connections ?cfg))"
    by (rule reach_start) (rule conn_start.intros)
  ultimately show ?thesis by (blast intro: reach_step conn_rel.intros)
qed

theorem disconnect_has_no_effect_witness:
  "disconnect_worker 1 True demo_conns = Some (demo_conns\<lparr>cn_sockets := []\<rparr>, [])"
  using disconnect_has_no_effect [OF demo_conns_reach, of 1 0 True]
  by (simp add: demo_conns_def erase_key_def)

text \<open>The listener can stop. When the remote endpoint of an accepted socket cannot be read, the
  socket is closed and no further accept is started: whatever happens afterwards, no worker is
  accepted again.\<close>

theorem accepting_stops:
  assumes "conn_step cfg rand (Accepted (Accept_ok socket False)) c = Some (d, acts)"
    and "cn_accepting c" and "run_conn cfg rand evs d = Some (e, acts')"
  shows "acts = [Close_socket socket] \<and> \<not> cn_accepting e \<and> Start_accept \<notin> set acts' \<and>
    (\<forall>i. New_worker_handler i \<notin> set acts')"
proof -
  have stop: "acts = [Close_socket socket]" "\<not> cn_accepting d"
    using assms(1,2) by (auto simp: on_accept_def split: option.splits)
  from run_not_accepting [OF stop(2) assms(3)] have "\<not> cn_accepting e" "\<not> list_ex accept_action acts'"
    by simp_all
  moreover from this(2) have "Start_accept \<notin> set acts'" "New_worker_handler i \<notin> set acts'" for i
    by (auto simp: list_ex_iff accept_action_def)
  ultimately show ?thesis using stop by blast
qed

theorem accepting_stops_witness:
  "\<exists>d acts. conn_step (sv_conn_config demo_supervisor_env) (\<lambda>_. 1) (Accepted (Accept_ok 4 False))
     (fst (new_connections (sv_conn_config demo_supervisor_env))) = Some (d, acts) \<and>
   acts = [Close_socket 4] \<and> \<not> cn_accepting d"
proof -
  let ?cfg = "sv_conn_config demo_supervisor_env" and ?d = "\<lparr>cn_objects = [], cn_sockets = [],
    cn_accepting = False, cn_draws = 1\<rparr>"
  have step: "conn_step ?cfg (\<lambda>_. 1) (Accepted (Accept_ok 4 False)) (fst (new_connections ?cfg)) =
      Some (?d, [Close_socket 4])" by code_simp
  have "cn_accepting (fst (new_connections ?cfg))" by code_simp
  from accepting_stops [OF step this, of "[]"] step show ?thesis by simp
qed

end
