(* ===== verification/Text_Format.thy ===== *)
theory Text_Format
  imports Wire
begin

text \<open>
  Text as bytes: literals, the decimal conversions of \<open>printf\<close> and \<open>fmt\<close> with their inverse, and
  \<open>strtoul\<close>. Both the packet generators and the routing keys of the messages are built from them.
\<close>

definition ascii :: "string \<Rightarrow> bytes" where
  "ascii s = map of_char s"

definition digit :: "nat \<Rightarrow> byte" where
  "digit n = word_of_nat (48 + n)"

fun decimal :: "nat \<Rightarrow> bytes" where
  "decimal n = (if n < 10 then [digit n] else decimal (n div 10) @ [digit (n mod 10)])"

declare decimal.simps [simp del]

definition decimal_int :: "int \<Rightarrow> bytes" where
  "decimal_int i = (if i < 0 then ascii ''-'' @ decimal (nat (- i)) else decimal (nat i))"

definition undecimal :: "bytes \<Rightarrow> nat" where
  "undecimal bs = foldl (\<lambda>n b. 10 * n + (unat b - 48)) 0 bs"

lemma ascii_append: "ascii (s @ t) = ascii s @ ascii t"
  by (simp add: ascii_def)

lemma length_ascii [simp]: "length (ascii s) = length s"
  by (simp add: ascii_def)

lemma unat_digit: "n < 10 \<Longrightarrow> unat (digit n) = 48 + n"
  by (simp add: digit_def unat_of_nat del: of_nat_add)

lemma undecimal_decimal: "undecimal (decimal n) = n"
proof (induction n rule: decimal.induct)
  case (1 n)
  then show ?case
    by (cases "n < 10") (simp_all add: decimal.simps [of n] undecimal_def unat_digit)
qed

lemma decimal_inject: "decimal m = decimal n \<longleftrightarrow> m = n"
  by (metis undecimal_decimal)

lemma decimal_digits: "b \<in> set (decimal n) \<Longrightarrow> 48 \<le> unat b \<and> unat b < 58"
proof (induction n rule: decimal.induct)
  case (1 n)
  then show ?case
    by (cases "n < 10") (auto simp: decimal.simps [of n] unat_digit)
qed

lemma decimal_not: "unat b < 48 \<or> 58 \<le> unat b \<Longrightarrow> b \<notin> set (decimal n)"
  using decimal_digits [of b n] by auto

lemma length_decimal: "n < 10 ^ Suc k \<Longrightarrow> length (decimal n) \<le> Suc k"
proof (induction k arbitrary: n)
  case 0
  then show ?case by (simp add: decimal.simps)
next
  case (Suc k)
  then have "n div 10 < 10 ^ Suc k" by (simp add: less_mult_imp_div_less mult.commute)
  with Suc.IH [of "n div 10"] show ?case by (simp add: decimal.simps [of n])
qed

lemma decimal_not_Nil [simp]: "decimal n \<noteq> []"
  by (simp add: decimal.simps [of n])

lemma length_decimal_u32: "length (decimal (unat (w :: 32 word))) \<le> 10"
proof -
  have "unat w < 2 ^ 32" using unsigned_less [of w, where ?'a = nat] by simp
  also have "\<dots> \<le> 10 ^ Suc 9" by simp
  finally show ?thesis using length_decimal [of "unat w" 9] by simp
qed

lemma length_decimal_int: "- (2 ^ 31) \<le> i \<Longrightarrow> i < 2 ^ 31 \<Longrightarrow> length (decimal_int i) \<le> 11"
  using length_decimal [of "nat (- i)" 9] length_decimal [of "nat i" 9]
  by (cases "i < 0") (fastforce simp: decimal_int_def)+

section \<open>strtoul\<close>

text \<open>
  \<open>strtoul\<close> and \<open>strtoull\<close> of the C library for base 10 and 16: white space, an optional sign, for
  base 16 an optional 0x, then the longest run of digits. The result is 0 without digits, the
  largest value on overflow, and negated modulo \<open>2 ^ 64\<close> after a minus sign.
\<close>

definition digit_value :: "byte \<Rightarrow> nat" where
  "digit_value b =
     (let n = unat b in
      if 48 \<le> n \<and> n < 58 then n - 48
      else if 97 \<le> n \<and> n < 123 then n - 87
      else if 65 \<le> n \<and> n < 91 then n - 55 else 255)"

definition is_space :: "byte \<Rightarrow> bool" where
  "is_space b \<longleftrightarrow> unat b = 32 \<or> (9 \<le> unat b \<and> unat b \<le> 13)"

definition strip_hex_prefix :: "nat \<Rightarrow> bytes \<Rightarrow> bytes" where
  "strip_hex_prefix base bs =
     (case bs of a # x # d # r \<Rightarrow>
        if base = 16 \<and> unat a = 48 \<and> (unat x = 120 \<or> unat x = 88) \<and> digit_value d < 16 then d # r else bs
      | _ \<Rightarrow> bs)"

definition strtoul :: "nat \<Rightarrow> bytes \<Rightarrow> nat" where
  "strtoul base s =
     (let s = takeWhile (\<lambda>b. b \<noteq> 0) s; s = dropWhile is_space s;
          neg = (case s of [] \<Rightarrow> False | c # _ \<Rightarrow> unat c = 45);
          s = (case s of [] \<Rightarrow> [] | c # r \<Rightarrow> if unat c = 45 \<or> unat c = 43 then r else s);
          ds = takeWhile (\<lambda>b. digit_value b < base) (strip_hex_prefix base s);
          n = foldl (\<lambda>n b. base * n + digit_value b) 0 ds
      in if 2 ^ 64 \<le> n then 2 ^ 64 - 1 else if neg then wrap_u64 (- int n) else n)"

lemma digit_value_digit: "n < 10 \<Longrightarrow> digit_value (digit n) = n"
  by (simp add: digit_value_def unat_digit)

lemma digit_value_decimal: "b \<in> set (decimal n) \<Longrightarrow> digit_value b = unat b - 48"
  using decimal_digits [of b n] by (simp add: digit_value_def)

lemma takeWhile_all: "(\<And>x. x \<in> set xs \<Longrightarrow> P x) \<Longrightarrow> takeWhile P xs = xs"
  by (simp add: takeWhile_eq_all_conv)

lemma foldl_cong_set:
  "(\<And>x n. x \<in> set xs \<Longrightarrow> f n x = g n x) \<Longrightarrow> foldl f n xs = foldl g n xs"
  by (induction xs arbitrary: n) auto

text \<open>A decimal number read in base 10 or 16: the value of its digits in that base.\<close>

lemma strtoul_digits:
  assumes "base = 10 \<or> base = 16" and "foldl (\<lambda>a b. base * a + (unat b - 48)) 0 (decimal n) < 2 ^ 64"
  shows "strtoul base (decimal n) = foldl (\<lambda>a b. base * a + (unat b - 48)) 0 (decimal n)"
proof -
  note digits = decimal_digits [of _ n]
  obtain c r where cr: "decimal n = c # r" by (cases "decimal n") auto
  with digits [of c] have c: "48 \<le> unat c" "unat c < 58" by auto
  have "takeWhile (\<lambda>b. b \<noteq> 0) (decimal n) = decimal n"
    using digits by (intro takeWhile_all) fastforce
  moreover have "dropWhile is_space (decimal n) = decimal n"
    using c by (simp add: cr is_space_def)
  moreover have "takeWhile (\<lambda>b. digit_value b < base) (decimal n) = decimal n"
    using digits digit_value_decimal [of _ n] assms(1) by (intro takeWhile_all) fastforce
  moreover have "strip_hex_prefix base (decimal n) = decimal n"
    using digits [of "hd r"] by (cases r) (auto simp: strip_hex_prefix_def cr split: list.split)
  moreover have "foldl (\<lambda>a b. base * a + digit_value b) 0 (decimal n) =
      foldl (\<lambda>a b. base * a + (unat b - 48)) 0 (decimal n)"
    by (rule foldl_cong_set) (simp add: digit_value_decimal)
  ultimately show ?thesis using c assms(2)
    by (simp add: strtoul_def Let_def cr)
qed

lemma strtoul_decimal: "n < 2 ^ 64 \<Longrightarrow> strtoul 10 (decimal n) = n"
  using strtoul_digits [of 10 n] undecimal_decimal [of n] by (simp add: undecimal_def)

end
