(* ===== verification/Bili_Packet.thy ===== *)
theory Bili_Packet
  imports Proto_Packets Text_Format
begin

text \<open>
  The packets of the live-streaming site (src/worker/bili_packet.cpp): the 16-byte header, the
  loop of \<open>handle_buffer\<close> that cuts a read buffer into packets, \<open>handle_packet\<close> with its nested
  call on a decompressed buffer, and the two packets the worker sends. The JSON serialiser and
  zlib are arguments (the record \<open>packet_env\<close>). A packet that announces length 0 makes the loop
  of the program spin for ever, so the loop is a partial function and \<open>None\<close> is "does not return".
\<close>

section \<open>The packet header\<close>

definition bilibili_header_size :: nat where
  "bilibili_header_size = 16"

definition zlib_buffer_size :: nat where
  "zlib_buffer_size = 256 * 1024"

definition heartbeat :: "32 word" where "heartbeat = 2"

definition heartbeat_resp :: "32 word" where "heartbeat_resp = 3"

definition json_message :: "32 word" where "json_message = 5"

definition join_room :: "32 word" where "join_room = 7"

definition join_room_resp :: "32 word" where "join_room_resp = 8"

definition json_protocol :: "16 word" where "json_protocol = 0"

definition zlib_compressed :: "16 word" where "zlib_compressed = 2"

record packet_header =
  packet_length :: "32 word"
  header_length :: "16 word"
  protocol_version :: "16 word"
  op_code :: "32 word"
  sequence_id :: "32 word"

text \<open>The fields are stored in network order; the accessors convert.\<close>

definition header_bytes :: "packet_header \<Rightarrow> bytes" where
  "header_bytes h = put_be32 (packet_length h) @ put_be16 (header_length h)
     @ put_be16 (protocol_version h) @ put_be32 (op_code h) @ put_be32 (sequence_id h)"

definition read_header :: "bytes \<Rightarrow> packet_header" where
  "read_header bs = \<lparr>packet_length = get_be32 bs, header_length = get_be16 (drop 4 bs),
     protocol_version = get_be16 (drop 6 bs), op_code = get_be32 (drop 8 bs),
     sequence_id = get_be32 (drop 12 bs)\<rparr>"

definition new_packet_header :: packet_header where
  "new_packet_header = \<lparr>packet_length = 0, header_length = word_of_nat bilibili_header_size,
     protocol_version = 0, op_code = 0, sequence_id = 1\<rparr>"

lemma length_header_bytes [simp]: "length (header_bytes h) = 16"
  by (simp add: header_bytes_def)

lemma read_header_bytes: "read_header (header_bytes h @ rest) = h"
proof -
  have "drop 4 (put_be32 a @ r) = r" "drop 6 (put_be32 a @ put_be16 b @ r) = r"
    "drop 8 (put_be32 a @ put_be16 b @ put_be16 c @ r) = r"
    "drop 12 (put_be32 a @ put_be16 b @ put_be16 c @ put_be32 d @ r) = r" for a b c d r
    by simp_all
  then show ?thesis by (simp add: read_header_def header_bytes_def wire_simps)
qed

interpretation packet_header: codec header_bytes
  "\<lambda>bs. if bilibili_header_size \<le> length bs then Some (read_header bs) else None" "\<lambda>_. True"
  by unfold_locales (simp add: bilibili_header_size_def read_header_bytes)

lemma get_be16_take: "2 \<le> length xs \<Longrightarrow> get_be16 (xs @ ys) = get_be16 xs"
  by (simp add: get_be16_def)

lemma read_header_append: "16 \<le> length xs \<Longrightarrow> read_header (xs @ ys) = read_header xs"
  by (simp add: read_header_def get_be32_take get_be16_take)

lemma read_header_take: "16 \<le> n \<Longrightarrow> n \<le> length xs \<Longrightarrow> read_header (take n xs) = read_header xs"
  by (metis append_take_drop_id length_take min.absorb2 read_header_append)

section \<open>handle_packet\<close>

text \<open>
  \<open>serialize_buffer\<close> of bili_json.cpp parses in place: it gets the payload and returns the message,
  if any, and the bytes it leaves in the buffer. \<open>uncompress\<close> is zlib's: a capacity and the
  compressed bytes, an error code or the output.
\<close>

record 'm packet_env =
  serialize_buffer :: "bytes \<Rightarrow> room_id \<Rightarrow> 'm option \<times> bytes"
  serialize_popularity :: "32 word \<Rightarrow> room_id \<Rightarrow> 'm"
  uncompress :: "nat \<Rightarrow> bytes \<Rightarrow> int + bytes"

text \<open>
  How the processing of a buffer ends early: \<open>malformed_packet\<close> is thrown, or memory outside the
  buffer is accessed. The messages delivered before are listed beside it.
\<close>

datatype packet_stop = Malformed_packet | Undefined

type_synonym 'm handled = "'m list \<times> (packet_stop + bytes)"

definition overwrite :: "nat \<Rightarrow> bytes \<Rightarrow> bytes \<Rightarrow> bytes" where
  "overwrite off bs buf = take off buf @ bs @ drop (off + length bs) buf"

definition payload_size_of :: "packet_header \<Rightarrow> nat" where
  "payload_size_of h = wrap_u64 (uint (packet_length h) - int bilibili_header_size)"

text \<open>
  A packet at \<open>b\<close> of a buffer with \<open>cap\<close> allocated bytes that is not compressed. The JSON case
  stores a terminating zero behind the packet, one byte past it.
\<close>

definition handle_plain_packet ::
    "'m packet_env \<Rightarrow> room_id \<Rightarrow> nat \<Rightarrow> bytes \<Rightarrow> nat \<Rightarrow> 'm handled" where
  "handle_plain_packet env room_id cap buf b =
     (let h = read_header (drop b buf); payload_size = payload_size_of h in
      if op_code h = json_message then
        (if unat (packet_length h) < bilibili_header_size \<or> cap \<le> b + unat (packet_length h)
         then ([], Inl Undefined)
         else (case serialize_buffer env (take payload_size (drop (b + bilibili_header_size) buf)) room_id of
             (msg, payload) \<Rightarrow> (case msg of None \<Rightarrow> [] | Some m \<Rightarrow> [m],
               Inr (overwrite (b + bilibili_header_size) payload buf))))
      else if op_code h = heartbeat_resp then
        (if payload_size \<noteq> 4 then ([], Inr buf)
         else ([serialize_popularity env (get_be32 (drop (b + bilibili_header_size) buf)) room_id], Inr buf))
      else ([], Inr buf))"

text \<open>
  The loop of \<open>handle_buffer\<close>: \<open>N\<close> is \<open>buffer_size\<close>, \<open>b\<close> the index \<open>begin\<close>, \<open>acc\<close> the messages
  delivered so far; the value is these messages with the returned pair or the early end.
\<close>

partial_function (option) packet_loop ::
    "(bytes \<Rightarrow> nat \<Rightarrow> 'm handled option) \<Rightarrow> nat \<Rightarrow> bytes \<Rightarrow> nat \<Rightarrow> nat \<Rightarrow> 'm list
      \<Rightarrow> ('m list \<times> (packet_stop + bytes \<times> nat \<times> nat)) option" where
  "packet_loop handle N buf b remaining acc =
     (if remaining = 0 then Some (acc, Inr (buf, 0, 0))
      else if remaining < bilibili_header_size
      then Some (acc, Inr (memmove_front buf b remaining, remaining, 0))
      else if header_length (read_header (drop b buf)) \<noteq> word_of_nat bilibili_header_size
      then Some (acc, Inl Malformed_packet)
      else if N < unat (packet_length (read_header (drop b buf)))
      then Some (acc, Inr (buf, 0, wrap_u64 (uint (packet_length (read_header (drop b buf))) - int remaining)))
      else if remaining < unat (packet_length (read_header (drop b buf)))
      then Some (acc, Inr (memmove_front buf b remaining, remaining, 0))
      else Option.bind (handle buf b) (\<lambda>(ms, r). case r of
          Inl e \<Rightarrow> Some (acc @ ms, Inl e)
        | Inr buf' \<Rightarrow> packet_loop handle N buf' (b + unat (packet_length (read_header (drop b buf))))
            (remaining - unat (packet_length (read_header (drop b buf)))) (acc @ ms)))"

declare packet_loop.simps [code]

text \<open>
  \<open>uncompress\<close> writes into the one zlib buffer of the thread, so a compressed packet inside a
  decompressed one has its source and its destination in the same buffer.
\<close>

definition handle_inner_packet ::
    "'m packet_env \<Rightarrow> room_id \<Rightarrow> bytes \<Rightarrow> nat \<Rightarrow> 'm handled option" where
  "handle_inner_packet env room_id buf b =
     (let h = read_header (drop b buf) in
      if header_length h \<noteq> word_of_nat bilibili_header_size then Some ([], Inl Malformed_packet)
      else if protocol_version h = zlib_compressed then Some ([], Inl Undefined)
      else Some (handle_plain_packet env room_id zlib_buffer_size buf b))"

definition handle_packet ::
    "'m packet_env \<Rightarrow> room_id \<Rightarrow> nat \<Rightarrow> bytes \<Rightarrow> nat \<Rightarrow> 'm handled option" where
  "handle_packet env room_id cap buf b =
     (let h = read_header (drop b buf); payload_size = payload_size_of h in
      if header_length h \<noteq> word_of_nat bilibili_header_size then Some ([], Inl Malformed_packet)
      else if protocol_version h = zlib_compressed then
        (if unat (packet_length h) < bilibili_header_size then Some ([], Inl Undefined)
         else (case uncompress env zlib_buffer_size (take payload_size (drop (b + bilibili_header_size) buf)) of
             Inl err_code \<Rightarrow> Some ([], Inr buf)
           | Inr out \<Rightarrow> map_option (\<lambda>(ms, r). (ms, case r of Inl e \<Rightarrow> Inl e | Inr _ \<Rightarrow> Inr buf))
               (packet_loop (handle_inner_packet env room_id) (length out) out 0 (length out) [])))
      else Some (handle_plain_packet env room_id cap buf b))"

definition bili_handle_buffer ::
    "'m packet_env \<Rightarrow> room_id \<Rightarrow> nat \<Rightarrow> bytes \<Rightarrow> nat \<Rightarrow> nat \<Rightarrow> nat \<Rightarrow> nat
      \<Rightarrow> ('m list \<times> (packet_stop + bytes \<times> nat \<times> nat)) option" where
  "bili_handle_buffer env room_id cap buf transferred buffer_size last_remaining_size skipping_size =
     (if transferred < skipping_size then Some ([], Inr (buf, 0, skipping_size - transferred))
      else packet_loop (handle_packet env room_id cap) buffer_size buf skipping_size
             (transferred - skipping_size + last_remaining_size) [])"

section \<open>The packets the worker sends\<close>

definition generate_heartbeat_packet :: bytes where
  "generate_heartbeat_packet = header_bytes (new_packet_header
     \<lparr>packet_length := ucast (header_length new_packet_header), protocol_version := json_protocol,
      op_code := heartbeat\<rparr>)"

definition join_room_json_max_length :: nat where
  "join_room_json_max_length = 256"

definition join_room_json :: "int \<Rightarrow> int \<Rightarrow> bytes \<Rightarrow> bytes" where
  "join_room_json proto_ver room_id token =
     ascii ''{\"clientver\":\"1.11.0\",\"platform\":\"web\",\"protover\":'' @ decimal_int proto_ver
       @ ascii '',\"roomid\":'' @ decimal_int room_id @ ascii '',\"uid\":0,\"type\":2,\"key\":\"''
       @ takeWhile (\<lambda>b. b \<noteq> 0) token @ ascii ''\"}''"

text \<open>\<open>snprintf\<close> stores at most 255 characters but returns the length of the whole text.\<close>

definition generate_join_room_packet :: "int \<Rightarrow> int \<Rightarrow> bytes \<Rightarrow> bytes" where
  "generate_join_room_packet room_id proto_ver token =
     (let text = join_room_json proto_ver room_id token; payload_size = length text;
          payload = take (join_room_json_max_length - 1) text
      in header_bytes (new_packet_header
           \<lparr>packet_length := word_of_nat (unat (header_length new_packet_header) + payload_size),
            protocol_version := json_protocol, op_code := join_room\<rparr>) @ payload)"

end
