(* ===== verification/Bili_Stream.thy ===== *)
theory Bili_Stream
  imports Bili_Packet
begin

text \<open>
  What \<open>handle_buffer\<close> does to a stream of site packets, against a specification that knows
  frames only: the buffer is cut by \<open>parse_frames\<close> and every frame is handled on its own
  (\<open>deliver_frames\<close>). The loop agrees with it whenever no frame of length 0 is in front of it.
\<close>

definition bili_frame_length :: "bytes \<Rightarrow> nat" where
  "bili_frame_length bs = unat (packet_length (read_header bs))"

abbreviation bili_parse :: "bytes \<Rightarrow> bytes list \<times> bytes" where
  "bili_parse \<equiv> parse_frames 16 bili_frame_length"

abbreviation bili_fit :: "nat \<Rightarrow> bytes \<Rightarrow> bool" where
  "bili_fit \<equiv> frames_fit 16 bili_frame_length"

interpretation bili: framing 16 bili_frame_length
  by unfold_locales (simp add: bili_frame_length_def read_header_append)

definition good_header :: "bytes \<Rightarrow> bool" where
  "good_header bs \<longleftrightarrow> header_length (read_header bs) = word_of_nat bilibili_header_size"

text \<open>
  The specification of a reader: every frame is handled on its own, in order, until one ends the
  processing; the header of the incomplete rest is already checked when it is complete.
\<close>

fun deliver_frames ::
    "(bytes \<Rightarrow> 'm handled option) \<Rightarrow> bytes list \<Rightarrow> bytes \<Rightarrow> ('m list \<times> packet_stop option) option" where
  "deliver_frames alone [] rest =
     Some ([], if 16 \<le> length rest \<and> \<not> good_header rest then Some Malformed_packet else None)"
| "deliver_frames alone (f # fs) rest =
     (case alone f of
        None \<Rightarrow> None
      | Some (ms, Inl e) \<Rightarrow> Some (ms, Some e)
      | Some (ms, Inr _) \<Rightarrow> map_option (apfst ((@) ms)) (deliver_frames alone fs rest))"

text \<open>Every length field covers at least the header, so no frame of length 0 blocks the loop.\<close>

definition sound_lengths :: "bytes \<Rightarrow> bool" where
  "sound_lengths bs \<longleftrightarrow> list_all (\<lambda>f. 16 \<le> length f) (fst (bili_parse bs))
     \<and> (length (snd (bili_parse bs)) < 16 \<or> 0 < bili_frame_length (snd (bili_parse bs)))"

text \<open>The in-place parser leaves as many bytes as it got.\<close>

definition parses_in_place :: "'m packet_env \<Rightarrow> bool" where
  "parses_in_place env \<longleftrightarrow> (\<forall>p room. length (snd (serialize_buffer env p room)) = length p)"

lemma length_overwrite: "off + length bs \<le> length buf \<Longrightarrow> length (overwrite off bs buf) = length buf"
  by (simp add: overwrite_def)

lemma drop_overwrite: "off + length bs \<le> n \<Longrightarrow> n \<le> length buf \<Longrightarrow> drop n (overwrite off bs buf) = drop n buf"
  by (simp add: overwrite_def)

lemma payload_size_of_nat:
  assumes "unat (packet_length h) = L"
  shows "payload_size_of h = (if 16 \<le> L then L - 16 else L + 2 ^ 64 - 16)"
proof -
  have u: "uint (packet_length h) = int L" using assms by (simp flip: assms)
  have "L < 2 ^ 32" using unsigned_less [of "packet_length h", where ?'a = nat] assms by simp
  moreover have "(int L - 16) mod 2 ^ 64 = int L - 16 + 2 ^ 64" if "L < 16"
    using that mod_add_self2 [of "int L - 16" "2 ^ 64"] by simp
  ultimately show ?thesis
    by (auto simp: payload_size_of_def bilibili_header_size_def wrap_u64_def u nat_diff_distrib')
qed

lemma payload_size_of_eq:
  "16 \<le> unat (packet_length h) \<Longrightarrow> payload_size_of h = unat (packet_length h) - 16"
  by (simp add: payload_size_of_nat [OF refl])

lemma payload_of_short: "unat (packet_length h) < 16 \<Longrightarrow> payload_size_of h \<noteq> 4"
  by (simp add: payload_size_of_nat [OF refl])

section \<open>A frame handled inside a buffer\<close>

lemma overwrite_same:
  assumes "b + L \<le> length buf"
  shows "overwrite b (take L (drop b buf)) buf = buf"
proof -
  have "drop (b + L) buf = drop L (drop b buf)" by (simp add: add.commute)
  moreover have "length (take L (drop b buf)) = L" using assms by simp
  ultimately show ?thesis unfolding overwrite_def by (simp only: append_take_drop_id)
qed

lemma overwrite_nested:
  assumes "b + L \<le> length buf" and "length p = L - k" and "k \<le> L"
  shows "overwrite (b + k) p buf = overwrite b (overwrite k p (take L (drop b buf))) buf"
proof -
  have "overwrite k p (take L (drop b buf)) = take k (drop b buf) @ p"
    using assms by (simp add: overwrite_def min_def)
  then show ?thesis using assms by (simp add: overwrite_def take_add min_def)
qed

text \<open>
  Handling the packet at \<open>b\<close> of a buffer is handling its frame alone and storing back what the
  parser leaves of it.
\<close>

lemma plain_in_buffer:
  assumes "bili_frame_length (drop b buf) = L" and "16 \<le> L" and "b + L \<le> length buf"
    and "length buf < cap" and "parses_in_place env"
  shows "handle_plain_packet env room cap buf b =
    apsnd (map_sum id (\<lambda>f. overwrite b f buf))
      (handle_plain_packet env room (L + 1) (take L (drop b buf)) 0)"
proof -
  let ?h = "read_header (drop b buf)"
  have h: "read_header (take L (drop b buf)) = ?h"
    using assms(2,3) by (intro read_header_take) auto
  have L: "unat (packet_length ?h) = L" and pl: "payload_size_of ?h = L - 16"
    using assms(1,2) payload_size_of_eq [of ?h] by (simp_all add: bili_frame_length_def)
  have pay: "take (L - 16) (drop 16 (take L (drop b buf))) = take (L - 16) (drop (b + 16) buf)"
    by (simp add: drop_take add.commute)
  have len: "length (snd (serialize_buffer env (take (L - 16) (drop (b + 16) buf)) room)) = L - 16"
    using assms(2,3,5) by (simp add: parses_in_place_def)
  show ?thesis
  proof (cases "op_code ?h = json_message")
    case True
    then show ?thesis using assms(2-4) L
      by (simp add: handle_plain_packet_def Let_def h pl pay bilibili_header_size_def
          overwrite_nested [OF assms(3) len assms(2)] case_prod_beta)
  next
    case False
    then show ?thesis using assms(2-4) L
      by (auto simp: handle_plain_packet_def Let_def h pl bilibili_header_size_def overwrite_same
          get_be32_of_take drop_take add.commute)
  qed
qed

lemma plain_length:
  assumes "handle_plain_packet env room cap buf b = (ms, Inr buf')" and "parses_in_place env"
    and "b + bili_frame_length (drop b buf) \<le> length buf" and "16 \<le> bili_frame_length (drop b buf)"
  shows "length buf' = length buf"
proof -
  let ?L = "bili_frame_length (drop b buf)"
  have pl: "payload_size_of (read_header (drop b buf)) = ?L - 16"
    using assms(4) by (simp add: bili_frame_length_def payload_size_of_eq)
  have len: "length (snd (serialize_buffer env (take (?L - 16) (drop (b + 16) buf)) room)) = ?L - 16"
    using assms(2-4) by (simp add: parses_in_place_def)
  from assms(1) consider "buf' = buf"
    | "buf' = overwrite (b + 16) (snd (serialize_buffer env (take (?L - 16) (drop (b + 16) buf)) room)) buf"
    by (auto simp: handle_plain_packet_def Let_def pl bilibili_header_size_def case_prod_beta
        split: if_splits)
  then show ?thesis using len assms(3,4) by cases (simp_all add: length_overwrite)
qed

section \<open>The loop against the specification\<close>

lemma packet_loop_eq:
  assumes "L = bili_frame_length (drop b buf)"
  shows "packet_loop handle N buf b rem acc =
     (if rem = 0 then Some (acc, Inr (buf, 0, 0))
      else if rem < 16 then Some (acc, Inr (memmove_front buf b rem, rem, 0))
      else if \<not> good_header (drop b buf) then Some (acc, Inl Malformed_packet)
      else if N < L then Some (acc, Inr (buf, 0, wrap_u64 (int L - int rem)))
      else if rem < L then Some (acc, Inr (memmove_front buf b rem, rem, 0))
      else Option.bind (handle buf b) (\<lambda>(ms, r). case r of
          Inl e \<Rightarrow> Some (acc @ ms, Inl e)
        | Inr buf' \<Rightarrow> packet_loop handle N buf' (b + L) (rem - L) (acc @ ms)))"
  by (subst packet_loop.simps)
    (simp add: bilibili_header_size_def good_header_def assms bili_frame_length_def)

text \<open>The segment a call has in front of it, split at its first frame.\<close>

lemma segment_header:
  assumes "b + rem \<le> length buf" and "16 \<le> rem"
  shows "bili_frame_length (take rem (drop b buf)) = bili_frame_length (drop b buf)"
    and "good_header (take rem (drop b buf)) = good_header (drop b buf)"
  using assms by (simp_all add: bili_frame_length_def good_header_def read_header_take)

lemma segment_Cons:
  assumes "b + rem \<le> length buf" and "16 \<le> rem" and "L \<le> rem"
    and "L = bili_frame_length (drop b buf)" and "sound_lengths (take rem (drop b buf))"
    and "f = take L (drop b buf)" and "s' = take (rem - L) (drop (b + L) buf)"
  shows "16 \<le> L" and "length f = L" and "bili_frame_length f = L"
    and "bili_parse (take rem (drop b buf)) = (f # fst (bili_parse s'), snd (bili_parse s'))"
    and "good_header f = good_header (drop b buf)" and "sound_lengths s'"
proof -
  let ?seg = "take rem (drop b buf)"
  have len: "length ?seg = rem" using assms(1) by simp
  note fl = segment_header [OF assms(1,2), folded assms(4)]
  have "0 < L"
  proof (rule ccontr)
    assume "\<not> 0 < L"
    then have "bili_parse ?seg = ([], ?seg)" by (simp add: parse_stuck fl)
    moreover from assms(5) have "length (snd (bili_parse ?seg)) < 16 \<or> 0 < bili_frame_length (snd (bili_parse ?seg))"
      unfolding sound_lengths_def by (rule conjunct2)
    ultimately show False using assms(2) \<open>\<not> 0 < L\<close> by (simp only: len fl snd_conv) simp
  qed
  have dseg: "take L ?seg = f" "drop L ?seg = s'"
    using assms(3,6,7) by (simp_all add: min_def drop_take add.commute)
  show pc: "bili_parse ?seg = (f # fst (bili_parse s'), snd (bili_parse s'))"
    using parse_Cons [of 16 ?seg bili_frame_length] assms(2,3) \<open>0 < L\<close> dseg
    by (simp only: len fl)
  show lf: "length f = L" using assms(1,3,6) by simp
  from assms(5) show "16 \<le> L" "sound_lengths s'" by (simp_all add: sound_lengths_def pc lf)
  then show "bili_frame_length f = L" "good_header f = good_header (drop b buf)"
    using assms(1,3,4,6) by (simp_all add: bili_frame_length_def good_header_def read_header_take)
qed

text \<open>The incomplete packet at the end is kept at the front of the buffer, unless it is one that can never
  be complete there: then the bytes of it that have not arrived are skipped.\<close>

definition oversize :: "nat \<Rightarrow> bytes \<Rightarrow> bool" where
  "oversize N rest \<longleftrightarrow> 16 \<le> length rest \<and> N < bili_frame_length rest"

definition rest_kept :: "nat \<Rightarrow> bytes \<Rightarrow> bytes \<times> nat \<times> nat \<Rightarrow> bool" where
  "rest_kept N rest res \<longleftrightarrow>
     (case res of (buf, off, skip) \<Rightarrow> length buf = N
        \<and> (if oversize N rest then off = 0 \<and> skip = bili_frame_length rest - length rest
           else off = length rest \<and> skip = 0 \<and> take off buf = rest))"

definition loop_value ::
    "(bytes \<Rightarrow> 'm handled option) \<Rightarrow> nat \<Rightarrow> 'm list \<Rightarrow> bytes
      \<Rightarrow> ('m list \<times> (packet_stop + bytes \<times> nat \<times> nat)) option \<Rightarrow> bool" where
  "loop_value alone N acc seg res \<longleftrightarrow>
     (case deliver_frames alone (fst (bili_parse seg)) (snd (bili_parse seg)) of
        None \<Rightarrow> res = None
      | Some (ms, Some e) \<Rightarrow> res = Some (acc @ ms, Inl e)
      | Some (ms, None) \<Rightarrow> \<exists>r. res = Some (acc @ ms, Inr r) \<and> rest_kept N (snd (bili_parse seg)) r)"

text \<open>The contract of a packet handler the loop may be run with, in a buffer of \<open>N\<close> bytes.\<close>

locale frame_handler =
  fixes handle :: "bytes \<Rightarrow> nat \<Rightarrow> 'm handled option"
    and alone :: "bytes \<Rightarrow> 'm handled option"
    and N :: nat
    and ok :: bool
  assumes handle_at: "ok \<Longrightarrow> bili_frame_length (drop b buf) = L \<Longrightarrow> 16 \<le> L \<Longrightarrow> b + L \<le> length buf \<Longrightarrow>
      length buf = N \<Longrightarrow> handle buf b =
        map_option (apsnd (map_sum id (\<lambda>f. overwrite b f buf))) (alone (take L (drop b buf)))"
    and alone_length: "ok \<Longrightarrow> alone f = Some (ms, Inr f') \<Longrightarrow> bili_frame_length f = length f \<Longrightarrow>
      16 \<le> length f \<Longrightarrow> length f' = length f"
    and alone_bad: "\<not> good_header f \<Longrightarrow> alone f = Some ([], Inl Malformed_packet)"
begin

lemma packet_loop_delivers:
  assumes "ok" and "b + remaining \<le> length buf" and "length buf = N"
    and "sound_lengths (take remaining (drop b buf))"
  shows "loop_value alone N acc (take remaining (drop b buf)) (packet_loop handle N buf b remaining acc)"
  using assms(2-)
proof (induction remaining arbitrary: b buf acc rule: less_induct)
  case (less rem)
  define seg where "seg = take rem (drop b buf)"
  have len: "length seg = rem" using less.prems(1) by (simp add: seg_def)
  define L where "L = bili_frame_length (drop b buf)"
  note moved = memmove_front_take [OF less.prems(1), folded seg_def]
  note eq = packet_loop_eq [OF L_def]
  have "loop_value alone N acc seg (packet_loop handle N buf b rem acc)"
  proof (cases "rem < 16")
    case True
    then have "bili_parse seg = ([], seg)" by (intro parse_stuck) (simp only: len simp_thms)
    with True moved less.prems(2) show ?thesis
      by (auto simp: eq loop_value_def rest_kept_def oversize_def len)
  next
    case False
    then have header: "16 \<le> rem" by simp
    note sh = segment_header [OF less.prems(1) header, folded L_def seg_def]
    show ?thesis
    proof (cases "rem < L")
      case True
      then have "bili_parse seg = ([], seg)" by (simp add: parse_stuck len sh)
      moreover have "L < 2 ^ 32"
        using L_def unsigned_less [of "packet_length (read_header (drop b buf))", where ?'a = nat]
        by (simp add: bili_frame_length_def)
      with True have "wrap_u64 (int L - int rem) = L - rem" by (simp add: wrap_u64_def flip: of_nat_diff)
      ultimately show ?thesis using True header moved less.prems(2)
        by (auto simp: eq loop_value_def rest_kept_def oversize_def len sh)
    next
      case complete: False
      then have le: "L \<le> rem" by simp
      with less.prems(1,2) have fits: "L \<le> N" by simp
      define f where "f = take L (drop b buf)"
      define s' where "s' = take (rem - L) (drop (b + L) buf)"
      note cons = segment_Cons [OF less.prems(1) header le L_def less.prems(3) f_def s'_def, folded seg_def]
      have hd: "handle buf b = map_option (apsnd (map_sum id (\<lambda>f. overwrite b f buf))) (alone f)"
        unfolding f_def using cons(1) le less.prems(1,2) L_def assms(1) by (intro handle_at) auto
      show ?thesis
      proof (cases "alone f")
        case None
        then show ?thesis using alone_bad [of f] header fits le cons(1,5)
          by (auto simp: eq loop_value_def cons(4) hd)
      next
        case (Some res)
        obtain ms r where res: "alone f = Some (ms, r)" using Some by (cases res) auto
        show ?thesis
        proof (cases r)
          case (Inl e)
          then show ?thesis using alone_bad [of f] header fits le cons(1,5) res
            by (auto simp: eq loop_value_def cons(4) hd)
        next
          case (Inr f')
          then have "length f' = L" using alone_length [OF assms(1)] res cons(1-3) by simp
          then have len': "length (overwrite b f' buf) = N"
            "drop (b + L) (overwrite b f' buf) = drop (b + L) buf"
            using less.prems(1,2) le by (simp_all add: length_overwrite drop_overwrite)
          have good: "good_header (drop b buf)" using alone_bad [of f] res Inr cons(5) by auto
          have "loop_value alone N (acc @ ms) s' (packet_loop handle N (overwrite b f' buf) (b + L) (rem - L) (acc @ ms))"
            using less.IH [of "rem - L" "b + L" "overwrite b f' buf" "acc @ ms"]
              len' cons(1,6) less.prems(1-3) [folded seg_def] le by (simp flip: s'_def)
          then show ?thesis using header fits le cons(1) good
            by (auto simp: eq loop_value_def cons(4) hd res Inr split: option.splits)
        qed
      qed
    qed
  qed
  then show ?case by (simp add: seg_def)
qed

end

section \<open>The handlers of the program\<close>

text \<open>A packet of the read buffer, and a packet of a decompressed buffer, on their own.\<close>

definition packet_alone :: "'m packet_env \<Rightarrow> room_id \<Rightarrow> bytes \<Rightarrow> 'm handled option" where
  "packet_alone env room f = handle_packet env room (length f + 1) f 0"

definition inner_alone :: "'m packet_env \<Rightarrow> room_id \<Rightarrow> bytes \<Rightarrow> 'm handled option" where
  "inner_alone env room f =
     (if \<not> good_header f then Some ([], Inl Malformed_packet)
      else if protocol_version (read_header f) = zlib_compressed then Some ([], Inl Undefined)
      else Some (handle_plain_packet env room (length f + 1) f 0))"

lemma frame_header:
  assumes "bili_frame_length (drop b buf) = L" and "16 \<le> L" and "b + L \<le> length buf"
  shows "read_header (take L (drop b buf)) = read_header (drop b buf)"
    and "length (take L (drop b buf)) = L"
    and "bili_frame_length (take L (drop b buf)) = L"
  using assms by (simp_all add: read_header_take bili_frame_length_def)

lemma handle_packet_at:
  assumes "parses_in_place env" and "bili_frame_length (drop b buf) = L" and "16 \<le> L"
    and "b + L \<le> length buf" and "length buf < cap"
  shows "handle_packet env room cap buf b =
    map_option (apsnd (map_sum id (\<lambda>f. overwrite b f buf))) (packet_alone env room (take L (drop b buf)))"
proof -
  note fr = frame_header [OF assms(2-4)]
  have L: "unat (packet_length (read_header (drop b buf))) = L" and
      pl: "payload_size_of (read_header (drop b buf)) = L - 16"
    using assms(2,3) payload_size_of_eq [of "read_header (drop b buf)"]
    by (simp_all add: bili_frame_length_def)
  have pay: "take (L - 16) (drop 16 (take L (drop b buf))) = take (L - 16) (drop (b + 16) buf)"
    by (simp add: drop_take add.commute)
  note plain = plain_in_buffer [OF assms(2-5,1), of room]
  have "overwrite b (take L (drop b buf)) buf = buf" by (rule overwrite_same [OF assms(4)])
  with fr pay plain assms(3) show ?thesis
    by (simp add: packet_alone_def handle_packet_def Let_def L pl bilibili_header_size_def
        case_prod_beta option.map_comp comp_def split: sum.split)
      (auto simp: option.map_comp comp_def case_prod_beta apsnd_def map_prod_def split: sum.splits
        intro!: option.map_cong)
qed

lemma packet_alone_length:
  assumes "parses_in_place env" and "packet_alone env room f = Some (ms, Inr f')"
    and "bili_frame_length f = length f" and "16 \<le> length f"
  shows "length f' = length f"
proof -
  have "length f' = length f" if "handle_plain_packet env room (length f + 1) f 0 = (ms, Inr f')"
    using plain_length [OF that assms(1)] assms(3,4) by simp
  with assms(2) show ?thesis
    by (auto simp: packet_alone_def handle_packet_def Let_def split: if_splits sum.split_asm)
      (metis sum.exhaust prod_cases3)
qed

lemma inner_at:
  assumes "parses_in_place env" and "bili_frame_length (drop b buf) = L" and "16 \<le> L"
    and "b + L \<le> length buf" and "length buf < zlib_buffer_size"
  shows "handle_inner_packet env room buf b =
    map_option (apsnd (map_sum id (\<lambda>f. overwrite b f buf))) (inner_alone env room (take L (drop b buf)))"
  using frame_header [OF assms(2-4)] plain_in_buffer [OF assms(2-5,1), of room]
  by (simp add: inner_alone_def handle_inner_packet_def Let_def good_header_def)

lemma inner_alone_length:
  assumes "parses_in_place env" and "inner_alone env room f = Some (ms, Inr f')"
    and "bili_frame_length f = length f" and "16 \<le> length f"
  shows "length f' = length f"
proof -
  have "handle_plain_packet env room (length f + 1) f 0 = (ms, Inr f')"
    using assms(2) by (auto simp: inner_alone_def split: if_splits)
  from plain_length [OF this assms(1)] assms(3,4) show ?thesis by simp
qed

interpretation outer: frame_handler "handle_packet env room (N + 1)" "packet_alone env room" N
  "parses_in_place env" for env room N
proof
  show "handle_packet env room (N + 1) buf b =
      map_option (apsnd (map_sum id (\<lambda>f. overwrite b f buf))) (packet_alone env room (take L (drop b buf)))"
    if "parses_in_place env" "bili_frame_length (drop b buf) = L" "16 \<le> L" "b + L \<le> length buf"
      "length buf = N" for b buf L
    using handle_packet_at [of env b buf L "N + 1"] that by simp
qed (auto dest: packet_alone_length simp: packet_alone_def handle_packet_def Let_def good_header_def)

interpretation inner: frame_handler "handle_inner_packet env room" "inner_alone env room" N
  "parses_in_place env \<and> N < zlib_buffer_size" for env room N
proof
  show "handle_inner_packet env room buf b =
      map_option (apsnd (map_sum id (\<lambda>f. overwrite b f buf))) (inner_alone env room (take L (drop b buf)))"
    if "parses_in_place env \<and> N < zlib_buffer_size" "bili_frame_length (drop b buf) = L" "16 \<le> L"
      "b + L \<le> length buf" "length buf = N" for b buf L
    using inner_at [of env b buf L] that by simp
qed (auto dest: inner_alone_length simp: inner_alone_def)

section \<open>Buffers\<close>

text \<open>\<open>handle_buffer\<close> on a buffer with a spare byte, as the TCP connection allocates it.\<close>

lemma handle_buffer_delivers:
  assumes "parses_in_place env" and "transferred + off \<le> length buf" and "skip \<le> transferred"
    and "sound_lengths (take (transferred - skip + off) (drop skip buf))"
  shows "loop_value (packet_alone env room) (length buf) [] (take (transferred - skip + off) (drop skip buf))
    (bili_handle_buffer env room (length buf + 1) buf transferred (length buf) off skip)"
  using outer.packet_loop_delivers [of env skip "transferred - skip + off" buf "length buf" room "[]"] assms
  by (simp add: bili_handle_buffer_def)

text \<open>Uncompressed packets inside a compressed one.\<close>

lemma zlib_packet_alone:
  assumes "parses_in_place env" and "good_header f" and "protocol_version (read_header f) = zlib_compressed"
    and "bili_frame_length f = length f" and "16 \<le> length f"
    and "uncompress env zlib_buffer_size (drop 16 f) = Inr out" and "length out < zlib_buffer_size"
    and "bili_parse out = (fs, [])" and "list_all (\<lambda>g. 16 \<le> length g) fs"
    and "deliver_frames (inner_alone env room) fs [] = Some (ms, None)"
  shows "packet_alone env room f = Some (ms, Inr f)"
proof -
  have pl: "payload_size_of (read_header f) = length f - 16" and L: "unat (packet_length (read_header f)) = length f"
    using assms(4,5) payload_size_of_eq [of "read_header f"] by (simp_all add: bili_frame_length_def)
  have "loop_value (inner_alone env room) (length out) [] out
      (packet_loop (handle_inner_packet env room) (length out) out 0 (length out) [])"
    using inner.packet_loop_delivers [of env "length out" 0 "length out" out room "[]"]
      assms(1,7-9) by (simp add: sound_lengths_def)
  then obtain r where "packet_loop (handle_inner_packet env room) (length out) out 0 (length out) []
      = Some (ms, Inr r)"
    by (auto simp: loop_value_def assms(8,10))
  then show ?thesis using assms(2,3,5,6)
    by (simp add: packet_alone_def handle_packet_def Let_def good_header_def pl L bilibili_header_size_def)
qed

end
