(* ===== verification/Bili_Conn_Tcp.thy ===== *)
theory Bili_Conn_Tcp
  imports Bili_Stream
begin

text \<open>
  The plain TCP connection to a chat server (src/worker/bili_conn_plain_tcp.cpp): one function per
  completion handler on the record of the connection, returning the new record and what it
  asks of the socket, the timer and the connection manager, in order. The socket pointer is reset by \<open>close\<close>;
  a handler that uses it afterwards dereferences a null pointer (\<open>Crashed\<close>). The main lemma is
  that the reader is insensitive to how the stream is chopped.
\<close>

section \<open>Handlers\<close>

text \<open>The error code of a completed operation, as far as the handlers distinguish it.\<close>

datatype io_result = Io_ok | Io_aborted | Io_closed | Io_eof | Io_other

datatype 'm site_action =
    Fetch_config | Resolve bytes bytes | Connect_socket | Ssl_handshake | Ws_handshake bytes bytes
  | Start_read nat nat | Send_packet bytes | Schedule_timer | Cancel_timer | Close_socket
  | Room_failed | Room_closed | Room_data 'm

datatype 'a ran = Ran 'a | Crashed | Spins

record tcp_conn =
  tcp_read_buffer :: bytes
  tcp_offset :: nat
  tcp_skipping :: nat
  tcp_room :: int
  tcp_token :: bytes
  tcp_protocol_ver :: int
  tcp_socket :: bool
  tcp_closed :: bool

definition new_tcp_conn :: "bytes \<Rightarrow> int \<Rightarrow> bytes \<Rightarrow> int \<Rightarrow> tcp_conn" where
  "new_tcp_conn buf room_id token ver = \<lparr>tcp_read_buffer = buf, tcp_offset = 0, tcp_skipping = 0,
     tcp_room = room_id, tcp_token = token, tcp_protocol_ver = ver, tcp_socket = True, tcp_closed = False\<rparr>"

definition tcp_close :: "bool \<Rightarrow> tcp_conn \<Rightarrow> tcp_conn \<times> 'm site_action list" where
  "tcp_close failed c =
     (if tcp_closed c then (c, [])
      else if \<not> tcp_socket c then (c\<lparr>tcp_closed := True\<rparr>, [])
      else (c\<lparr>tcp_closed := True, tcp_socket := False\<rparr>,
        [Close_socket, Cancel_timer] @ (if failed then [Room_failed] else []) @ [Room_closed]))"

definition tcp_init :: "tcp_conn \<Rightarrow> tcp_conn \<times> 'm site_action list" where
  "tcp_init c = (c, [Connect_socket])"

definition tcp_start_read :: "tcp_conn \<Rightarrow> (tcp_conn \<times> 'm site_action list) ran" where
  "tcp_start_read c =
     (if tcp_socket c
      then Ran (c, [Start_read (tcp_offset c) (length (tcp_read_buffer c) - tcp_offset c)]) else Crashed)"

definition tcp_on_connected :: "io_result \<Rightarrow> tcp_conn \<Rightarrow> (tcp_conn \<times> 'm site_action list) ran" where
  "tcp_on_connected r c =
     (if r = Io_aborted then Ran (c, [])
      else if r \<noteq> Io_ok then Ran (tcp_close True c)
      else (case tcp_start_read c of
          Ran (c, as) \<Rightarrow> Ran (c, as @ [Send_packet (generate_join_room_packet (tcp_room c) (tcp_protocol_ver c) (tcp_token c))])
        | e \<Rightarrow> e))"

text \<open>After an error these handlers close the connection and go on all the same.\<close>

definition tcp_on_join_room_sent :: "io_result \<Rightarrow> tcp_conn \<Rightarrow> tcp_conn \<times> 'm site_action list" where
  "tcp_on_join_room_sent r c =
     (if r = Io_aborted then (c, [])
      else (let (c, as) = (if r \<noteq> Io_ok then tcp_close True c else (c, [])) in (c, as @ [Schedule_timer])))"

definition tcp_on_heartbeat_sent :: "io_result \<Rightarrow> tcp_conn \<Rightarrow> tcp_conn \<times> 'm site_action list" where
  "tcp_on_heartbeat_sent r c =
     (if r = Io_aborted \<or> r = Io_ok then (c, []) else tcp_close True c)"

definition tcp_on_heartbeat_tick :: "io_result \<Rightarrow> tcp_conn \<Rightarrow> (tcp_conn \<times> 'm site_action list) ran" where
  "tcp_on_heartbeat_tick r c =
     (if r \<noteq> Io_ok then Ran (c, [])
      else if \<not> tcp_socket c then Crashed
      else Ran (c, [Send_packet generate_heartbeat_packet, Schedule_timer]))"

text \<open>\<open>chunk\<close> is what the socket stored at the offset before completing, so its length is
  \<open>transferred\<close>.\<close>

definition tcp_on_receive ::
    "'m packet_env \<Rightarrow> io_result \<Rightarrow> bytes \<Rightarrow> tcp_conn \<Rightarrow> (tcp_conn \<times> 'm site_action list) ran" where
  "tcp_on_receive env r chunk c =
     (if r = Io_aborted then Ran (c, [])
      else (let (c, as) = (if r \<noteq> Io_ok then tcp_close True c else (c, []));
                buf = overwrite (tcp_offset c) chunk (tcp_read_buffer c) in
        case bili_handle_buffer env (word_of_int (tcp_room c)) (length (tcp_read_buffer c) + 1) buf
               (length chunk) (length (tcp_read_buffer c)) (tcp_offset c) (tcp_skipping c) of
          None \<Rightarrow> Spins
        | Some (ms, Inl Undefined) \<Rightarrow> Crashed
        | Some (ms, Inl Malformed_packet) \<Rightarrow>
            (let (c, as') = tcp_close True (c\<lparr>tcp_read_buffer := buf\<rparr>) in Ran (c, as @ map Room_data ms @ as'))
        | Some (ms, Inr (buf', off, skip)) \<Rightarrow>
            (case tcp_start_read (c\<lparr>tcp_read_buffer := buf', tcp_offset := off, tcp_skipping := skip\<rparr>) of
               Ran (c, as') \<Rightarrow> Ran (c, as @ map Room_data ms @ as')
             | e \<Rightarrow> e)))"

section \<open>The stream\<close>

definition tcp_buffered :: "tcp_conn \<Rightarrow> bytes" where
  "tcp_buffered c = take (tcp_offset c) (tcp_read_buffer c)"

definition room_data :: "'m site_action list \<Rightarrow> 'm list" where
  "room_data as = [m. Room_data m \<leftarrow> as]"

lemma room_data_simps [simp]:
  "room_data (xs @ ys) = room_data xs @ room_data ys" "room_data (map Room_data ms) = ms"
  "room_data [Start_read a b] = []"
  by (induction ms) (simp_all add: room_data_def)

fun tcp_receive_all ::
    "'m packet_env \<Rightarrow> tcp_conn \<Rightarrow> bytes list \<Rightarrow> (tcp_conn \<times> 'm list) ran" where
  "tcp_receive_all env c [] = Ran (c, [])"
| "tcp_receive_all env c (chunk # cs) =
     (case tcp_on_receive env Io_ok chunk c of
        Ran (c, as) \<Rightarrow> (case tcp_receive_all env c cs of
            Ran (c, ms) \<Rightarrow> Ran (c, room_data as @ ms)
          | e \<Rightarrow> e)
      | Crashed \<Rightarrow> Crashed
      | Spins \<Rightarrow> Spins)"

text \<open>What the reads of a buffer of \<open>N\<close> bytes may store: behind the bytes of an incomplete packet, which
  are kept at its front, a chunk is never longer than the room that is left. The bound speaks of the stream and
  its packets only, not of what the reader does.\<close>

fun tcp_chunks_fit :: "nat \<Rightarrow> bytes \<Rightarrow> bytes list \<Rightarrow> bool" where
  "tcp_chunks_fit N kept [] \<longleftrightarrow> True"
| "tcp_chunks_fit N kept (chunk # cs) \<longleftrightarrow>
     length kept + length chunk \<le> N \<and> tcp_chunks_fit N (snd (bili_parse (kept @ chunk))) cs"

lemma tcp_chunks_fit_take: "tcp_chunks_fit N kept cs \<Longrightarrow> tcp_chunks_fit N kept (take k cs)"
proof (induction cs arbitrary: kept k)
  case (Cons chunk cs)
  then show ?case by (cases k) simp_all
qed simp

definition tcp_ok :: "tcp_conn \<Rightarrow> bool" where
  "tcp_ok c \<longleftrightarrow> tcp_socket c \<and> tcp_skipping c = 0 \<and> tcp_offset c \<le> length (tcp_read_buffer c)
     \<and> fst (bili_parse (tcp_buffered c)) = []"

definition valid_frame :: "nat \<Rightarrow> bytes \<Rightarrow> bool" where
  "valid_frame N f \<longleftrightarrow> 16 \<le> length f \<and> length f \<le> N \<and> bili_frame_length f = length f \<and> good_header f"

lemma valid_parse: "list_all (valid_frame N) fs \<Longrightarrow> bili_parse (concat fs) = (fs, [])"
  by (rule bili.parse_exact) (auto simp: list_all_iff valid_frame_def)

lemma valid_fit: "list_all (valid_frame N) fs \<Longrightarrow> bili_fit N (concat fs)"
  by (rule bili.fit_exact) (auto simp: list_all_iff valid_frame_def)

text \<open>The part of a valid stream that has arrived, and what is left of the stream behind it.\<close>

lemma arrived:
  assumes "xs @ ys = concat fs" and "list_all (valid_frame N) fs"
  obtains fs2 where "fs = fst (bili_parse xs) @ fs2" and "snd (bili_parse xs) @ ys = concat fs2"
    and "list_all (valid_frame N) fs2" and "list_all (valid_frame N) (fst (bili_parse xs))"
proof -
  let ?r = "snd (bili_parse xs) @ ys"
  have split: "(fs, []) = (fst (bili_parse xs) @ fst (bili_parse ?r), snd (bili_parse ?r))"
    using bili.parse_append [of xs ys] valid_parse [OF assms(2)] assms(1) by simp
  then have "concat (fst (bili_parse ?r)) = ?r" using parse_concat [of 16 bili_frame_length ?r] by simp
  with split assms(2) show ?thesis by (intro that [of "fst (bili_parse ?r)"]) auto
qed

lemma arrived_ready:
  assumes "xs @ ys = concat fs" and "list_all (valid_frame N) fs"
  shows "bili_fit N xs" and "sound_lengths xs"
    and "16 \<le> length (snd (bili_parse xs)) \<Longrightarrow> good_header (snd (bili_parse xs))"
proof -
  show "bili_fit N xs"
    using valid_fit [OF assms(2)] by (metis assms(1) bili.fit_append_left)
  from assms obtain fs2 where fs2: "snd (bili_parse xs) @ ys = concat fs2" "list_all (valid_frame N) fs2"
      and ready: "list_all (valid_frame N) (fst (bili_parse xs))"
    by (rule arrived)
  have rest: "0 < bili_frame_length (snd (bili_parse xs)) \<and> good_header (snd (bili_parse xs))"
    if long: "16 \<le> length (snd (bili_parse xs))"
  proof -
    obtain f fs3 where f: "fs2 = f # fs3" using fs2(1) long by (cases fs2) auto
    then have "valid_frame N f" using fs2(2) by simp
    moreover have "read_header (snd (bili_parse xs)) = read_header f"
      using read_header_append [OF long, of ys] read_header_append [of f "concat fs3"] fs2(1) f
        \<open>valid_frame N f\<close> by (simp add: valid_frame_def)
    ultimately show ?thesis by (auto simp: valid_frame_def bili_frame_length_def good_header_def)
  qed
  then show "16 \<le> length (snd (bili_parse xs)) \<Longrightarrow> good_header (snd (bili_parse xs))" by blast
  have "length (snd (bili_parse xs)) < 16 \<or> 0 < bili_frame_length (snd (bili_parse xs))"
    using rest by (meson not_le)
  with ready show "sound_lengths xs" by (auto simp: sound_lengths_def valid_frame_def list_all_iff)
qed

definition frame_messages :: "'m packet_env \<Rightarrow> room_id \<Rightarrow> bytes \<Rightarrow> 'm list option" where
  "frame_messages env room f =
     (case packet_alone env room f of Some (ms, Inr _) \<Rightarrow> Some ms | _ \<Rightarrow> None)"

lemma deliver_all:
  assumes "list_all (\<lambda>f. frame_messages env room f = Some (msgs f)) fs"
    and "16 \<le> length rest \<Longrightarrow> good_header rest"
  shows "deliver_frames (packet_alone env room) fs rest = Some (concat (map msgs fs), None)"
  using assms by (induction fs) (auto simp: frame_messages_def split: option.splits sum.splits prod.splits)

lemma tcp_on_receive_valid:
  assumes "parses_in_place env" and "tcp_ok c" and "tcp_offset c + length chunk \<le> length (tcp_read_buffer c)"
    and "(tcp_buffered c @ chunk) @ ys = concat fs" and "list_all (valid_frame (length (tcp_read_buffer c))) fs"
    and "list_all (\<lambda>f. frame_messages env (word_of_int (tcp_room c)) f = Some (msgs f)) fs"
  obtains c' as where "tcp_on_receive env Io_ok chunk c = Ran (c', as)" and "tcp_ok c'"
    and "tcp_buffered c' = snd (bili_parse (tcp_buffered c @ chunk))"
    and "length (tcp_read_buffer c') = length (tcp_read_buffer c)" and "tcp_room c' = tcp_room c"
    and "room_data as = concat (map msgs (fst (bili_parse (tcp_buffered c @ chunk))))"
proof -
  let ?N = "length (tcp_read_buffer c)" and ?xs = "tcp_buffered c @ chunk"
  define buf where "buf = overwrite (tcp_offset c) chunk (tcp_read_buffer c)"
  have off: "tcp_offset c \<le> ?N" "tcp_skipping c = 0" "tcp_socket c"
    using assms(2) by (simp_all add: tcp_ok_def)
  have len: "length buf = ?N" using assms(3) by (simp add: buf_def length_overwrite)
  have seg: "take (length chunk + tcp_offset c) buf = ?xs"
    using off assms(3) by (simp add: buf_def overwrite_def tcp_buffered_def)
  note ready = arrived_ready [OF assms(4,5)]
  from arrived [OF assms(4,5)] obtain fs2 where "fs = fst (bili_parse ?xs) @ fs2" by metis
  with assms(6) have "deliver_frames (packet_alone env (word_of_int (tcp_room c))) (fst (bili_parse ?xs))
      (snd (bili_parse ?xs)) = Some (concat (map msgs (fst (bili_parse ?xs))), None)"
    using ready(3) by (intro deliver_all) simp_all
  moreover have "loop_value (packet_alone env (word_of_int (tcp_room c))) ?N [] ?xs
      (bili_handle_buffer env (word_of_int (tcp_room c)) (?N + 1) buf (length chunk) ?N (tcp_offset c) 0)"
    using handle_buffer_delivers [of env "length chunk" "tcp_offset c" buf 0 "word_of_int (tcp_room c)"]
      assms(1,3) ready(2) len seg by (simp add: add.commute)
  moreover have "\<not> oversize ?N (snd (bili_parse ?xs))"
    using fit_bound [OF fit_rest [OF ready(1)]] by (auto simp: oversize_def)
  ultimately obtain buf' where hb:
      "bili_handle_buffer env (word_of_int (tcp_room c)) (?N + 1) buf (length chunk) ?N (tcp_offset c) 0 =
        Some (concat (map msgs (fst (bili_parse ?xs))), Inr (buf', length (snd (bili_parse ?xs)), 0))"
      "length buf' = ?N" "take (length (snd (bili_parse ?xs))) buf' = snd (bili_parse ?xs)"
    by (auto simp: loop_value_def rest_kept_def)
  have "length (snd (bili_parse ?xs)) \<le> ?N"
    using hb(2,3) by (metis length_take min.cobounded1)
  moreover have "fst (bili_parse (snd (bili_parse ?xs))) = []"
    by (subst parse_stuck [OF parse_rest_stuck]) simp
  moreover define c' where "c' = c\<lparr>tcp_read_buffer := buf', tcp_offset := length (snd (bili_parse ?xs)), tcp_skipping := 0\<rparr>"
  ultimately have c': "tcp_ok c'" "tcp_buffered c' = snd (bili_parse ?xs)"
      "length (tcp_read_buffer c') = ?N" "tcp_room c' = tcp_room c"
    using hb off by (simp_all add: tcp_ok_def tcp_buffered_def)
  obtain a b where "tcp_on_receive env Io_ok chunk c =
      Ran (c', map Room_data (concat (map msgs (fst (bili_parse ?xs)))) @ [Start_read a b])"
    using hb off by (auto simp: tcp_on_receive_def tcp_start_read_def c'_def simp flip: buf_def)
  from that [OF this c'] show ?thesis by simp
qed

text \<open>After the chunks \<open>cs\<close> of a valid stream the complete packets have been delivered and the rest is kept.\<close>

lemma tcp_receive_all_valid:
  assumes "parses_in_place env" and "tcp_ok c" and "tcp_chunks_fit (length (tcp_read_buffer c)) (tcp_buffered c) cs"
    and "tcp_buffered c @ concat cs @ ys = concat fs" and "list_all (valid_frame (length (tcp_read_buffer c))) fs"
    and "list_all (\<lambda>f. frame_messages env (word_of_int (tcp_room c)) f = Some (msgs f)) fs"
  shows "\<exists>c'. tcp_receive_all env c cs
      = Ran (c', concat (map msgs (fst (bili_parse (tcp_buffered c @ concat cs)))))
    \<and> tcp_buffered c' = snd (bili_parse (tcp_buffered c @ concat cs))"
  using assms(2-)
proof (induction cs arbitrary: c fs)
  case Nil
  then have "fst (bili_parse (tcp_buffered c)) = []" by (simp add: tcp_ok_def)
  moreover from this have "snd (bili_parse (tcp_buffered c)) = tcp_buffered c"
    using parse_concat [of 16 bili_frame_length "tcp_buffered c"] by simp
  ultimately show ?case by simp
next
  case (Cons chunk cs)
  have stream: "(tcp_buffered c @ chunk) @ concat cs @ ys = concat fs" using Cons.prems(3) by simp
  have "length (tcp_buffered c) = tcp_offset c" using Cons.prems(1) by (simp add: tcp_ok_def tcp_buffered_def)
  then have room: "tcp_offset c + length chunk \<le> length (tcp_read_buffer c)" using Cons.prems(2) by simp
  from tcp_on_receive_valid [OF assms(1) Cons.prems(1) room stream Cons.prems(4,5)]
  obtain c' as where c': "tcp_on_receive env Io_ok chunk c = Ran (c', as)" "tcp_ok c'"
      "tcp_buffered c' = snd (bili_parse (tcp_buffered c @ chunk))"
      "length (tcp_read_buffer c') = length (tcp_read_buffer c)" "tcp_room c' = tcp_room c"
      "room_data as = concat (map msgs (fst (bili_parse (tcp_buffered c @ chunk))))" by metis
  from arrived [OF stream Cons.prems(4)] obtain fs2 where fs2:
      "fs = fst (bili_parse (tcp_buffered c @ chunk)) @ fs2" "tcp_buffered c' @ concat cs @ ys = concat fs2"
      "list_all (valid_frame (length (tcp_read_buffer c'))) fs2"
    unfolding c' by metis
  have "\<exists>c''. tcp_receive_all env c' cs
        = Ran (c'', concat (map msgs (fst (bili_parse (tcp_buffered c' @ concat cs)))))
      \<and> tcp_buffered c'' = snd (bili_parse (tcp_buffered c' @ concat cs))"
    using Cons.prems(2,5) c' fs2 by (intro Cons.IH [of c' fs2]) auto
  moreover have "bili_parse (tcp_buffered c @ concat (chunk # cs)) =
      (fst (bili_parse (tcp_buffered c @ chunk)) @ fst (bili_parse (tcp_buffered c' @ concat cs)),
       snd (bili_parse (tcp_buffered c' @ concat cs)))"
    using bili.parse_append [of "tcp_buffered c @ chunk" "concat cs"] by (simp add: c'(3))
  ultimately show ?case using c'(1,6) by auto
qed

end
