(* ===== verification/Bili_Props.thy ===== *)
theory Bili_Props
  imports Bili_Conn_Tcp
begin

text \<open>
  The properties of the site protocol: reassembly of the packet stream on a connection,
  compressed packets, the packets on which the loop does not return or leaves its buffer, the
  packets the worker sends, and what a connection does after an error.
\<close>

section \<open>Packets used in the examples\<close>

definition demo_header :: "nat \<Rightarrow> 16 word \<Rightarrow> 32 word \<Rightarrow> packet_header" where
  "demo_header len ver oper = \<lparr>packet_length = word_of_nat len, header_length = 16,
     protocol_version = ver, op_code = oper, sequence_id = 1\<rparr>"

definition demo_packet :: "16 word \<Rightarrow> 32 word \<Rightarrow> bytes \<Rightarrow> bytes" where
  "demo_packet ver oper payload = header_bytes (demo_header (16 + length payload) ver oper) @ payload"

text \<open>A serialiser that delivers the payload itself, and an archive format that is the identity.\<close>

definition demo_site_env :: "bytes packet_env" where
  "demo_site_env = \<lparr>serialize_buffer = \<lambda>p room. (Some p, replicate (length p) 0),
     serialize_popularity = \<lambda>n room. put_be32 n, uncompress = \<lambda>cap bs. Inr (take cap bs)\<rparr>"

lemma demo_in_place: "parses_in_place demo_site_env"
  by (simp add: parses_in_place_def demo_site_env_def)

section \<open>Properties\<close>

text \<open>C6 Stream of packets. A connection whose buffer holds every packet delivers, whatever chunks the
  socket stores in the room left behind an incomplete packet, exactly the messages the packets give when each is
  handled alone, in the order of the stream, and keeps no byte of it; no read crashes or
  spins, and after any number of reads just the packets that are complete have been delivered.\<close>

theorem packet_stream_delivered:
  assumes "parses_in_place env" and "concat cs = concat fs" and "list_all (valid_frame (length buf)) fs"
    and "tcp_chunks_fit (length buf) [] cs"
    and "list_all (\<lambda>f. frame_messages env (word_of_int room_id) f = Some (msgs f)) fs"
  shows "(\<exists>c. tcp_receive_all env (new_tcp_conn buf room_id token ver) cs = Ran (c, concat (map msgs fs))
      \<and> tcp_buffered c = [])
    \<and> (\<forall>k. \<exists>c. tcp_receive_all env (new_tcp_conn buf room_id token ver) (take k cs)
          = Ran (c, concat (map msgs (fst (bili_parse (concat (take k cs))))))
        \<and> tcp_buffered c = snd (bili_parse (concat (take k cs))))"
proof -
  let ?c = "new_tcp_conn buf room_id token ver"
  have new: "tcp_ok ?c" "tcp_buffered ?c = []" "tcp_read_buffer ?c = buf" "tcp_room ?c = room_id"
    by (simp_all add: new_tcp_conn_def tcp_ok_def tcp_buffered_def parse_stuck)
  have prefix: "\<exists>c. tcp_receive_all env ?c (take k cs)
          = Ran (c, concat (map msgs (fst (bili_parse (concat (take k cs))))))
        \<and> tcp_buffered c = snd (bili_parse (concat (take k cs)))" for k
    using tcp_receive_all_valid [OF assms(1) new(1), of "take k cs" "concat (drop k cs)" fs msgs]
      tcp_chunks_fit_take [OF assms(4)] assms(2,3,5)
    by (simp add: new flip: concat_append)
  have "bili_parse (concat cs) = (fs, [])" using valid_parse [OF assms(3)] assms(2) by simp
  with prefix [of "length cs"] prefix show ?thesis by simp
qed

theorem packet_stream_delivered_witness:
  "\<exists>c. tcp_receive_all demo_site_env (new_tcp_conn (replicate 24 0) 7 [] 2)
     [take 5 (demo_packet 0 5 [1, 2]), drop 5 (demo_packet 0 5 [1, 2]) @ take 3 (demo_packet 0 3 [0, 0, 0, 9]),
      drop 3 (demo_packet 0 3 [0, 0, 0, 9])] = Ran (c, [[1, 2], [0, 0, 0, 9]]) \<and> tcp_buffered c = []"
proof -
  let ?fs = "[demo_packet 0 5 [1, 2], demo_packet 0 3 [0, 0, 0, 9]]"
  let ?cs = "[take 5 (demo_packet 0 5 [1, 2]), drop 5 (demo_packet 0 5 [1, 2]) @ take 3 (demo_packet 0 3 [0, 0, 0, 9]),
      drop 3 (demo_packet 0 3 [0, 0, 0, 9])]"
  have conc: "concat ?cs = concat ?fs" by code_simp
  have valid: "list_all (valid_frame (length (replicate 24 0 :: bytes))) ?fs" by code_simp
  have fits: "tcp_chunks_fit (length (replicate 24 0 :: bytes)) [] ?cs" by code_simp
  have msgs: "list_all (\<lambda>f. frame_messages demo_site_env (word_of_int 7) f = Some [drop 16 f]) ?fs" by code_simp
  show ?thesis
    using packet_stream_delivered [OF demo_in_place conc valid fits msgs, of "[]" 2, THEN conjunct1]
    by (simp add: demo_packet_def)
qed

text \<open>C26 Compressed packets. A packet whose payload decompresses to whole uncompressed packets, in
  fewer bytes than the decompression buffer holds, delivers the messages of these packets in
  order, as if they had been received themselves; a decompressed JSON packet that fills the
  buffer to its last byte makes the parser's terminating zero go one byte past it.\<close>

theorem compressed_packet:
  assumes "parses_in_place env" and "valid_frame N f" and "protocol_version (read_header f) = zlib_compressed"
    and "uncompress env zlib_buffer_size (drop 16 f) = Inr (concat fs)"
    and "list_all (\<lambda>g. valid_frame N g \<and> protocol_version (read_header g) \<noteq> zlib_compressed) fs"
    and "list_all (\<lambda>g. frame_messages env room g = Some (msgs g)) fs"
  shows "if length (concat fs) < zlib_buffer_size
    then packet_alone env room f = Some (concat (map msgs fs), Inr f)
    else \<forall>g. fs = [g] \<and> length g = zlib_buffer_size \<and> op_code (read_header g) = json_message
      \<longrightarrow> packet_alone env room f = Some ([], Inl Undefined)"
proof (cases "length (concat fs) < zlib_buffer_size")
  case True
  have alone: "inner_alone env room g = packet_alone env room g"
    if "good_header g" "protocol_version (read_header g) \<noteq> zlib_compressed" for g
    using that by (simp add: inner_alone_def packet_alone_def handle_packet_def good_header_def Let_def)
  have "deliver_frames (inner_alone env room) fs [] = Some (concat (map msgs fs), None)"
    using assms(5,6)
    by (induction fs) (auto simp: frame_messages_def alone valid_frame_def split: option.splits sum.splits prod.splits)
  moreover have "list_all (\<lambda>g. 16 \<le> length g) fs" "list_all (valid_frame N) fs"
    using assms(5) by (auto simp: list_all_iff valid_frame_def)
  ultimately show ?thesis
    using zlib_packet_alone [of env f "concat fs" fs room "concat (map msgs fs)"] True valid_parse assms(1-4)
    by (simp add: valid_frame_def)
next
  case False
  have "packet_alone env room f = Some ([], Inl Undefined)"
    if g: "fs = [g]" "length g = zlib_buffer_size" "op_code (read_header g) = json_message" for g
  proof -
    have "valid_frame N g" "protocol_version (read_header g) \<noteq> zlib_compressed" using assms(5) g by simp_all
    then have "packet_loop (handle_inner_packet env room) zlib_buffer_size g 0 zlib_buffer_size [] = Some ([], Inl Undefined)"
      using g by (simp add: packet_loop_eq [OF refl] zlib_buffer_size_def [symmetric] valid_frame_def)
        (simp add: zlib_buffer_size_def handle_inner_packet_def handle_plain_packet_def Let_def
          good_header_def bili_frame_length_def bilibili_header_size_def)
    then show ?thesis using assms(2-4) g
      by (simp add: packet_alone_def handle_packet_def Let_def good_header_def valid_frame_def
          bili_frame_length_def bilibili_header_size_def payload_size_of_eq)
  qed
  with False show ?thesis by simp
qed

theorem compressed_packet_witness:
  "packet_alone demo_site_env 7 (demo_packet 2 5 (demo_packet 0 5 [1, 2] @ demo_packet 0 3 [0, 0, 0, 9]))
     = Some ([[1, 2], [0, 0, 0, 9]], Inr (demo_packet 2 5 (demo_packet 0 5 [1, 2] @ demo_packet 0 3 [0, 0, 0, 9])))"
proof -
  let ?fs = "[demo_packet 0 5 [1, 2], demo_packet 0 3 [0, 0, 0, 9]]"
  let ?f = "demo_packet 2 5 (concat ?fs)"
  have f: "valid_frame 1000 ?f" by code_simp
  have ver: "protocol_version (read_header ?f) = zlib_compressed" by code_simp
  have out: "uncompress demo_site_env zlib_buffer_size (drop 16 ?f) = Inr (concat ?fs)" by code_simp
  have fs: "list_all (\<lambda>g. valid_frame 1000 g \<and> protocol_version (read_header g) \<noteq> zlib_compressed) ?fs"
    by code_simp
  have msgs: "list_all (\<lambda>g. frame_messages demo_site_env 7 g = Some [drop 16 g]) ?fs" by code_simp
  have "length (concat ?fs) < zlib_buffer_size" by code_simp
  with compressed_packet [OF demo_in_place f ver out fs msgs] show ?thesis
    by (simp add: demo_packet_def)
qed

text \<open>Packets of length 0. A packet that announces length 0, and is neither JSON nor compressed,
  makes \<open>handle_buffer\<close> loop for ever on it.\<close>

theorem zero_length_spins:
  fixes env :: "'m packet_env"
  assumes "packet_length h = 0" and "header_length h = 16" and "op_code h \<noteq> json_message"
    and "protocol_version h \<noteq> zlib_compressed" and "transferred \<le> length bs"
  shows "bili_handle_buffer env room cap (header_bytes h @ bs) (16 + transferred) N 0 0 = None"
proof -
  let ?buf = "header_bytes h @ bs"
  have rh: "read_header ?buf = h" by (rule read_header_bytes)
  have step: "handle_packet env room cap ?buf 0 = Some ([], Inr ?buf)"
    using assms payload_of_short [of h]
    by (simp add: handle_packet_def handle_plain_packet_def Let_def rh bilibili_header_size_def)
  have spin: "\<not> (handle = handle_packet env room cap \<and> buf = ?buf \<and> b = 0 \<and> 16 \<le> rem)"
    if "packet_loop handle N' buf b rem acc = Some y" for handle :: "bytes \<Rightarrow> nat \<Rightarrow> 'm handled option" and N' buf b rem acc y
  proof (rule packet_loop.raw_induct [OF _ that])
    fix loop handle N' buf b rem acc y
    assume IH: "\<And>handle N' buf b rem acc y. loop handle N' buf b rem acc = Some y \<Longrightarrow>
        \<not> (handle = handle_packet env room cap \<and> buf = ?buf \<and> b = 0 \<and> 16 \<le> rem)"
      and body: "(if rem = 0 then Some (acc, Inr (buf, 0, 0))
      else if rem < bilibili_header_size
      then Some (acc, Inr (memmove_front buf b rem, rem, 0))
      else if header_length (read_header (drop b buf)) \<noteq> word_of_nat bilibili_header_size
      then Some (acc, Inl Malformed_packet)
      else if N' < unat (packet_length (read_header (drop b buf)))
      then Some (acc, Inr (buf, 0, wrap_u64 (uint (packet_length (read_header (drop b buf))) - int rem)))
      else if rem < unat (packet_length (read_header (drop b buf)))
      then Some (acc, Inr (memmove_front buf b rem, rem, 0))
      else Option.bind (handle buf b) (\<lambda>(ms, r). case r of
          Inl e \<Rightarrow> Some (acc @ ms, Inl e)
        | Inr buf' \<Rightarrow> loop handle N' buf' (b + unat (packet_length (read_header (drop b buf))))
            (rem - unat (packet_length (read_header (drop b buf)))) (acc @ ms))) = Some y"
    show "\<not> (handle = handle_packet env room cap \<and> buf = ?buf \<and> b = 0 \<and> 16 \<le> rem)"
    proof
      assume "handle = handle_packet env room cap \<and> buf = ?buf \<and> b = 0 \<and> 16 \<le> rem"
      with IH [of handle N' buf b rem acc y] body step assms(1,2) show False
        by (auto simp: rh bilibili_header_size_def)
    qed
  qed
  from spin [of "handle_packet env room cap" N ?buf 0 "16 + transferred" "[]"]
  have "packet_loop (handle_packet env room cap) N ?buf 0 (16 + transferred) [] = None"
    by (cases "packet_loop (handle_packet env room cap) N ?buf 0 (16 + transferred) []") auto
  then show ?thesis by (simp add: bili_handle_buffer_def)
qed

theorem zero_length_spins_witness:
  "bili_handle_buffer demo_site_env 7 25 (header_bytes (demo_header 0 0 3)) (16 + 0) 24 0 0 = None"
  using zero_length_spins [of "demo_header 0 0 3" 0 "[]" demo_site_env 7 25 24]
  by (simp add: demo_header_def json_message_def zlib_compressed_def)









lemma join_packet_length:
  assumes "length (join_room_json ver room token) + 16 < 2 ^ 32"
  shows "bili_frame_length (generate_join_room_packet room ver token @ bs) = 16 + length (join_room_json ver room token)"
    and "length (generate_join_room_packet room ver token) = 16 + min 255 (length (join_room_json ver room token))"
  using assms
  by (simp_all add: bili_frame_length_def generate_join_room_packet_def Let_def read_header_bytes
      new_packet_header_def bilibili_header_size_def join_room_json_max_length_def unat_of_nat min_def
      del: of_nat_add)

lemma heartbeat_packet_valid: "valid_frame N generate_heartbeat_packet \<longleftrightarrow> 16 \<le> N"
proof -
  have "bili_frame_length generate_heartbeat_packet = 16" "good_header generate_heartbeat_packet"
    by code_simp+
  then show ?thesis by (auto simp: valid_frame_def generate_heartbeat_packet_def)
qed

text \<open>Join packet. The server can cut the join packet and the heartbeats behind it into frames
  exactly when the formatted JSON text has at most 255 characters, as it has for every token of up to 146 bytes; for a
  longer one the length field counts characters that \<open>snprintf\<close> did not store.\<close>

theorem join_packet_framed:
  assumes "length (join_room_json ver room token) + 16 < 2 ^ 32"
  shows "(bili_parse (generate_join_room_packet room ver token @ generate_heartbeat_packet)
      = ([generate_join_room_packet room ver token, generate_heartbeat_packet], [])
    \<longleftrightarrow> length (join_room_json ver room token) \<le> 255)
    \<and> (- (2 ^ 31) \<le> ver \<and> ver < 2 ^ 31 \<and> - (2 ^ 31) \<le> room \<and> room < 2 ^ 31 \<and> length token \<le> 146
      \<longrightarrow> length (join_room_json ver room token) \<le> 255)"
    (is "?framed \<and> (?small \<longrightarrow> _)")
proof -
  let ?j = "generate_join_room_packet room ver token" and ?t = "join_room_json ver room token"
  note len = join_packet_length [OF assms]
  have ?framed
  proof
    assume "bili_parse (?j @ generate_heartbeat_packet) = ([?j, generate_heartbeat_packet], [])"
    then have "bili_frame_length ?j = length ?j"
      using bili.parse_lengths [of ?j "?j @ generate_heartbeat_packet"] len(2) by simp
    with len(1) [of "[]"] len(2) show "length ?t \<le> 255" by simp
  next
    assume "length ?t \<le> 255"
    then have "bili_frame_length ?j = length ?j" using len(1) [of "[]"] len(2) by simp
    moreover have "bili_frame_length generate_heartbeat_packet = length generate_heartbeat_packet"
      "16 \<le> length generate_heartbeat_packet"
      using heartbeat_packet_valid [of 16] by (simp_all add: valid_frame_def)
    ultimately show "bili_parse (?j @ generate_heartbeat_packet) = ([?j, generate_heartbeat_packet], [])"
      using bili.parse_frame_Cons [of ?j] bili.parse_frame_Cons [of generate_heartbeat_packet "[]"] len(2)
      by (fastforce simp: parse_stuck)
  qed
  moreover have "length ?t \<le> 255" if ?small
    using that length_takeWhile_le [of "\<lambda>b. b \<noteq> 0" token] length_decimal_int [of ver]
      length_decimal_int [of room] by (simp add: join_room_json_def)
  ultimately show ?thesis by blast
qed

theorem join_packet_framed_witness:
  "bili_parse (generate_join_room_packet 21 2 (replicate 146 65) @ generate_heartbeat_packet)
      = ([generate_join_room_packet 21 2 (replicate 146 65), generate_heartbeat_packet], [])
   \<and> bili_parse (generate_join_room_packet 21 2 (replicate 200 65) @ generate_heartbeat_packet)
      \<noteq> ([generate_join_room_packet 21 2 (replicate 200 65), generate_heartbeat_packet], [])"
proof -
  have len: "length (join_room_json 2 21 (replicate n 65)) = 90 + n" for n
    by (simp add: join_room_json_def decimal_int_def decimal.simps)
  show ?thesis
    using join_packet_framed [of 2 21 "replicate 200 65"] join_packet_framed [of 2 21 "replicate 146 65"]
    unfolding len by simp
qed

text \<open>Errors of a TCP connection. After a failed send of the join packet the connection is closed
  and reported, yet a heartbeat is scheduled, and its tick uses the socket that \<open>close\<close> has reset; a
  failed read does so at once. Only an aborted operation leaves the connection alone.\<close>

theorem tcp_error_crashes:
  assumes "tcp_socket c" and "\<not> tcp_closed c" and "r \<noteq> Io_ok" and "r \<noteq> Io_aborted"
    and "tcp_skipping c = 0" and "tcp_offset c < 16"
  shows "(tcp_on_join_room_sent r c :: tcp_conn \<times> 'm site_action list) =
      (c\<lparr>tcp_closed := True, tcp_socket := False\<rparr>,
       [Close_socket, Cancel_timer, Room_failed, Room_closed, Schedule_timer])
    \<and> (tcp_on_heartbeat_tick Io_ok (c\<lparr>tcp_closed := True, tcp_socket := False\<rparr>)
        :: (tcp_conn \<times> 'm site_action list) ran) = Crashed
    \<and> (tcp_on_receive env r [] c :: (tcp_conn \<times> 'm site_action list) ran) = Crashed"
  using assms
  by (simp add: tcp_on_join_room_sent_def tcp_close_def tcp_on_heartbeat_tick_def tcp_on_receive_def
      bili_handle_buffer_def packet_loop.simps bilibili_header_size_def tcp_start_read_def Let_def)

theorem tcp_error_crashes_witness:
  "tcp_on_receive demo_site_env Io_other [] (new_tcp_conn (replicate 24 0) 7 [] 2) = Crashed"
  using tcp_error_crashes [of "new_tcp_conn (replicate 24 0) 7 [] 2" Io_other demo_site_env]
  by (simp add: new_tcp_conn_def)

end
