(* ===== verification/Bili_Json.thy ===== *)
theory Bili_Json
  imports Bili_Packet
begin

text \<open>
  The translation of the site's JSON messages (src/worker/bili_json.cpp): the parsed document, the
  macros \<open>ASSERT_TRACE\<close>, \<open>GetMemberCheck\<close> and \<open>ROUTING_KEY\<close> as combinators, and the parse context
  with its dispatch on \<open>cmd\<close>. The generated protobuf classes are not under src/: a message is the
  record of the setter calls made on it, newest first. The JSON parser, the CRC library and the date
  conversion are arguments. An accessor of the JSON library called on a value of another type
  fails its assertion (\<open>Bad_access\<close>).
\<close>

section \<open>Documents\<close>

datatype json = JNull | JBool bool | JInt int | JDouble bytes | JStr bytes
  | JArr "json list" | JObj "(bytes \<times> json) list"

text \<open>The type tests of the library: an integer token carries the flags of every width it fits.\<close>

fun is_int_in :: "int \<Rightarrow> int \<Rightarrow> json \<Rightarrow> bool" where
  "is_int_in lo hi (JInt i) \<longleftrightarrow> lo \<le> i \<and> i < hi"
| "is_int_in lo hi _ \<longleftrightarrow> False"

definition is_int :: "json \<Rightarrow> bool" where "is_int = is_int_in (- (2 ^ 31)) (2 ^ 31)"
definition is_uint :: "json \<Rightarrow> bool" where "is_uint = is_int_in 0 (2 ^ 32)"
definition is_int64 :: "json \<Rightarrow> bool" where "is_int64 = is_int_in (- (2 ^ 63)) (2 ^ 63)"
definition is_uint64 :: "json \<Rightarrow> bool" where "is_uint64 = is_int_in 0 (2 ^ 64)"

fun is_number :: "json \<Rightarrow> bool" where
  "is_number (JInt _) \<longleftrightarrow> True" | "is_number (JDouble _) \<longleftrightarrow> True" | "is_number _ \<longleftrightarrow> False"

fun is_bool :: "json \<Rightarrow> bool" where "is_bool (JBool _) \<longleftrightarrow> True" | "is_bool _ \<longleftrightarrow> False"
fun is_string :: "json \<Rightarrow> bool" where "is_string (JStr _) \<longleftrightarrow> True" | "is_string _ \<longleftrightarrow> False"
fun is_object :: "json \<Rightarrow> bool" where "is_object (JObj _) \<longleftrightarrow> True" | "is_object _ \<longleftrightarrow> False"

definition is_array_of :: "nat \<Rightarrow> json \<Rightarrow> bool" where
  "is_array_of n v \<longleftrightarrow> (case v of JArr vs \<Rightarrow> n \<le> length vs | _ \<Rightarrow> False)"

text \<open>Accessors, used behind the test of the type.\<close>

fun num :: "json \<Rightarrow> int" where "num (JInt i) = i" | "num _ = 0"
fun str :: "json \<Rightarrow> bytes" where "str (JStr s) = s" | "str _ = []"
fun truth :: "json \<Rightarrow> bool" where "truth (JBool b) = b" | "truth _ = False"
fun elems :: "json \<Rightarrow> json list" where "elems (JArr vs) = vs" | "elems _ = []"

definition c_str :: "bytes \<Rightarrow> bytes" where
  "c_str s = takeWhile (\<lambda>b. b \<noteq> 0) s"

section \<open>Messages\<close>

datatype guard_level = NO_GUARD | LEVEL1 | LEVEL2 | LEVEL3
datatype live_vip_level = NO_VIP | MONTHLY_VIP | YEARLY_VIP
datatype lottery_type = NO_LOTTERY | STORM | LOTTERY
datatype guard_buy_type = BUY | RENEW
datatype guard_duration = MONTHLY_GUARD | WEEKLY_GUARD
datatype live_status = LIVE | PREPARING | ROUND | CUT_OFF

datatype field_value = Num int | Flag bool | Txt bytes | Present | Guard guard_level
  | Vip live_vip_level | Lottery lottery_type | Buy guard_buy_type | Duration guard_duration
  | Status live_status

record bili_message =
  jm_routing_key :: bytes
  jm_crc32 :: "32 word"
  jm_fields :: "(string \<times> field_value) list"

definition put :: "string \<Rightarrow> field_value \<Rightarrow> bili_message \<Rightarrow> bili_message" where
  "put f v m = m\<lparr>jm_fields := (f, v) # jm_fields m\<rparr>"

definition field :: "bili_message \<Rightarrow> string \<Rightarrow> field_value option" where
  "field m f = map_of (jm_fields m) f"

definition values_of :: "bili_message \<Rightarrow> string \<Rightarrow> field_value list" where
  "values_of m f = rev [v. (g, v) \<leftarrow> jm_fields m, g = f]"

text \<open>\<open>clear_medal\<close>.\<close>

definition clear_field :: "string \<Rightarrow> bili_message \<Rightarrow> bili_message" where
  "clear_field p m = m\<lparr>jm_fields := filter (\<lambda>(f, v). take (length p) f \<noteq> p) (jm_fields m)\<rparr>"

section \<open>The macros\<close>

datatype outcome = Accepted bili_message | Refused bili_message | Bad_access

definition assert_trace :: "bool \<Rightarrow> bili_message \<Rightarrow> outcome \<Rightarrow> outcome" where
  "assert_trace b m k = (if b then k else Refused m)"

definition find_member :: "json \<Rightarrow> string \<Rightarrow> json option option" where
  "find_member src name = (case src of JObj ms \<Rightarrow> Some (map_of ms (ascii name)) | _ \<Rightarrow> None)"

definition has_member :: "json \<Rightarrow> string \<Rightarrow> bool" where
  "has_member src name = (case find_member src name of Some (Some _) \<Rightarrow> True | _ \<Rightarrow> False)"

definition get_member_check ::
    "json \<Rightarrow> string \<Rightarrow> (json \<Rightarrow> bool) \<Rightarrow> bili_message \<Rightarrow> (json \<Rightarrow> outcome) \<Rightarrow> outcome" where
  "get_member_check src name test m k =
     (case find_member src name of
        None \<Rightarrow> Bad_access
      | Some None \<Rightarrow> Refused m
      | Some (Some v) \<Rightarrow> if test v then k v else Refused m)"

text \<open>\<open>GetInt\<close>, \<open>GetUint\<close> and \<open>GetString\<close> where the code has not tested the type they need.\<close>

definition need :: "(json \<Rightarrow> bool) \<Rightarrow> json \<Rightarrow> outcome \<Rightarrow> outcome" where
  "need test v k = (if test v then k else Bad_access)"

definition routing_key_text :: "room_id \<Rightarrow> string \<Rightarrow> bytes" where
  "routing_key_text room_id topic = ascii ''blv.'' @ decimal (unat room_id) @ ascii ''.'' @ ascii topic"

text \<open>\<open>format_to_n\<close> stores at most \<open>routing_key_max_size\<close> characters and returns the full length.\<close>

definition put_routing_key :: "room_id \<Rightarrow> string \<Rightarrow> bili_message \<Rightarrow> bili_message" where
  "put_routing_key room_id topic m =
     (let text = routing_key_text room_id topic;
          key = overwrite 0 (take routing_key_max_size text) (jm_routing_key m);
          size = (if routing_key_max_size \<le> length text then routing_key_max_size - 1 else length text)
      in m\<lparr>jm_routing_key := key[size := 0]\<rparr>)"

definition convert_guard_level :: "int \<Rightarrow> guard_level" where
  "convert_guard_level level =
     (if level = 0 then NO_GUARD else if level = 1 then LEVEL3 else if level = 2 then LEVEL2
      else if level = 3 then LEVEL1 else NO_GUARD)"

definition convert_live_vip_level :: "int \<Rightarrow> int \<Rightarrow> live_vip_level" where
  "convert_live_vip_level vip svip =
     (if svip = 1 then YEARLY_VIP else if vip = 1 then MONTHLY_VIP else NO_VIP)"

type_synonym command_handler = "room_id \<Rightarrow> json \<Rightarrow> bili_message \<Rightarrow> outcome"

end
