(* ===== verification/Bili_Commands.thy ===== *)
theory Bili_Commands
  imports Bili_Json
begin

text \<open>
  The command handlers of src/worker/bili_json.cpp, one per \<open>CMD(name)\<close>, in the order of the file:
  what each requires of the document and which fields of the message it sets.
\<close>

section \<open>DANMU_MSG\<close>

definition danmu_user :: "json \<Rightarrow> json \<Rightarrow> json \<Rightarrow> bili_message \<Rightarrow> (bili_message \<Rightarrow> outcome) \<Rightarrow> outcome" where
  "danmu_user user_info user_level_info title_info m k =
     (let u = elems user_info; l = elems user_level_info in
      assert_trace (is_uint64 (u ! 0)) m (let m = put ''user.uid'' (Num (num (u ! 0))) m in
      assert_trace (is_string (u ! 1)) m (let m = put ''user.name'' (Txt (str (u ! 1))) m in
      assert_trace (is_int (u ! 2)) m (let m = put ''user.admin'' (Flag (num (u ! 2) = 1)) m in
      assert_trace (is_int (u ! 3) \<and> is_int (u ! 4)) m
        (let m = put ''user.live_vip_level'' (Vip (convert_live_vip_level (num (u ! 3)) (num (u ! 4)))) m in
      assert_trace (is_number (u ! 5)) m (need is_int (u ! 5)
        (let m = (if num (u ! 5) = 10000 then put ''user.regular_user'' (Flag True) m
                  else if num (u ! 5) = 5000 then put ''user.regular_user'' (Flag False) m else m) in
      assert_trace (is_int (u ! 6)) m (let m = put ''user.phone_verified'' (Flag (num (u ! 6) = 1)) m in
      assert_trace (is_uint (l ! 0)) m (let m = put ''user.user_level'' (Num (num (l ! 0))) m in
      assert_trace (is_uint (l ! 2)) m (let m = put ''user.user_level'' (Num (num (l ! 2))) m in
      k (if is_array_of 2 title_info \<and> is_string (elems title_info ! 1)
         then put ''user.title'' (Txt (str (elems title_info ! 1))) m else m)))))))))))"

definition danmu_medal :: "json \<Rightarrow> bili_message \<Rightarrow> (bili_message \<Rightarrow> outcome) \<Rightarrow> outcome" where
  "danmu_medal medal_info m k =
     (let d = elems medal_info in
      if \<not> is_array_of 6 medal_info then k m
      else let m = put ''user.medal'' Present m in
      assert_trace (is_string (d ! 1)) m (let m = put ''user.medal.medal_name'' (Txt (str (d ! 1))) m in
      assert_trace (is_uint (d ! 0)) m (let m = put ''user.medal.medal_level'' (Num (num (d ! 0))) m in
      assert_trace (is_uint (d ! 4)) m (let m = put ''user.medal.medal_color'' (Num (num (d ! 4))) m in
      assert_trace (is_string (d ! 2)) m (let m = put ''user.medal.streamer_name'' (Txt (str (d ! 2))) m in
      assert_trace (is_uint (d ! 3)) m (k (put ''user.medal.streamer_roomid'' (Num (num (d ! 3))) m)))))))"

definition danmu_content :: "json list \<Rightarrow> bili_message \<Rightarrow> outcome" where
  "danmu_content info m =
     (let danmaku_type = elems (info ! 0) ! 9; guard_level = info ! 7 in
      assert_trace (is_string (info ! 1)) m (let m = put ''danmaku.message'' (Txt (str (info ! 1))) m in
      assert_trace (is_uint danmaku_type) m
        (let m = (if num danmaku_type = 0 then put ''danmaku.lottery_type'' (Lottery NO_LOTTERY) m
                  else if num danmaku_type = 1 then put ''danmaku.lottery_type'' (Lottery STORM) m
                  else if num danmaku_type = 2 then put ''danmaku.lottery_type'' (Lottery LOTTERY) m else m) in
      assert_trace (is_uint guard_level) m (need is_int guard_level
        (Accepted (put ''user.guard_level'' (Guard (convert_guard_level (num guard_level))) m))))))"

definition cmd_DANMU_MSG :: command_handler where
  "cmd_DANMU_MSG room_id document m =
     (let m = put_routing_key room_id ''danmaku'' m in
      get_member_check document ''info'' (is_array_of 15) m (\<lambda>info. let info = elems info in
      assert_trace (is_array_of 11 (info ! 0)) m (
      assert_trace (is_array_of 8 (info ! 2)) m (
      assert_trace (is_array_of 4 (info ! 4)) m (
      let m = put ''danmaku'' Present (put ''user'' Present (put ''user_message'' Present m)) in
      danmu_user (info ! 2) (info ! 4) (info ! 5) m (\<lambda>m. danmu_medal (info ! 3) m (danmu_content info)))))))"

section \<open>SUPER_CHAT_MESSAGE\<close>

definition sc_user :: "json \<Rightarrow> json \<Rightarrow> bili_message \<Rightarrow> (bili_message \<Rightarrow> outcome) \<Rightarrow> outcome" where
  "sc_user data user_info m k =
     get_member_check data ''uid'' is_int64 m (\<lambda>uid. let m = put ''user.uid'' (Num (num uid)) m in
     get_member_check user_info ''uname'' is_string m (\<lambda>uname. let m = put ''user.name'' (Txt (str uname)) m in
     get_member_check user_info ''manager'' is_int m (\<lambda>manager. let m = put ''user.admin'' (Flag (num manager = 1)) m in
     get_member_check user_info ''is_vip'' is_int m (\<lambda>is_vip.
     get_member_check user_info ''is_svip'' is_int m (\<lambda>is_svip.
       let m = put ''user.live_vip_level'' (Vip (convert_live_vip_level (num is_vip) (num is_svip))) m;
           m = put ''user.regular_user'' (Flag True) m; m = put ''user.phone_verified'' (Flag True) m in
     get_member_check user_info ''user_level'' is_uint m (\<lambda>user_level. let m = put ''user.user_level'' (Num (num user_level)) m in
     get_member_check user_info ''level_color'' is_string m (\<lambda>level_color.
       let m = (if 7 \<le> length (str level_color)
                then put ''user.user_level_border_color'' (Num (int (strtoul 16 (drop 1 (c_str (str level_color)))))) m else m) in
     get_member_check user_info ''title'' is_string m (\<lambda>title.
       let m = put ''user.title'' (Txt (if c_str (str title) = ascii ''0'' then [] else str title)) m in
     get_member_check user_info ''is_main_vip'' is_int m (\<lambda>is_main_vip. let m = put ''user.main_vip'' (Flag (num is_main_vip = 1)) m in
     get_member_check user_info ''face'' is_string m (\<lambda>face. let m = put ''user.avatar_url'' (Txt (str face)) m in
     get_member_check user_info ''guard_level'' is_uint m (\<lambda>guard_level. need is_int guard_level
       (k (put ''user.guard_level'' (Guard (convert_guard_level (num guard_level))) m)))))))))))))"

definition sc_medal :: "json \<Rightarrow> bili_message \<Rightarrow> (bili_message \<Rightarrow> outcome) \<Rightarrow> outcome" where
  "sc_medal data m k =
     (case find_member data ''medal_info'' of
        Some (Some medal_info) \<Rightarrow>
          (if has_member medal_info ''target_id'' then
            (let m = put ''user.medal'' Present m in
             get_member_check medal_info ''medal_name'' is_string m (\<lambda>medal_name. let m = put ''user.medal.medal_name'' (Txt (str medal_name)) m in
             get_member_check medal_info ''medal_level'' is_uint m (\<lambda>medal_level. let m = put ''user.medal.medal_level'' (Num (num medal_level)) m in
             get_member_check medal_info ''medal_color'' is_string m (\<lambda>medal_color.
               let m = (if 7 \<le> length (str medal_color)
                        then put ''user.medal.medal_color'' (Num (int (strtoul 16 (c_str (str medal_color))))) m else m) in
             get_member_check medal_info ''target_id'' is_uint m (\<lambda>target_id. let m = put ''user.medal.streamer_uid'' (Num (num target_id)) m in
             get_member_check medal_info ''anchor_uname'' is_string m (\<lambda>anchor_uname. let m = put ''user.medal.streamer_name'' (Txt (str anchor_uname)) m in
             get_member_check medal_info ''anchor_roomid'' is_uint m (\<lambda>anchor_roomid.
               k (put ''user.medal.streamer_roomid'' (Num (num anchor_roomid)) m))))))))
           else k (clear_field ''user.medal'' m))
      | _ \<Rightarrow> k (clear_field ''user.medal'' m))"

text \<open>\<open>GetUint\<close> after \<open>IsInt\<close>, the test of \<open>start_time\<close> for \<open>end_time\<close>, and the second
  \<open>set_start_time\<close> are the code's.\<close>

definition sc_content :: "json \<Rightarrow> bili_message \<Rightarrow> outcome" where
  "sc_content data m =
     get_member_check data ''id'' is_string m (\<lambda>id. let m = put ''super_chat.id'' (Num (int (strtoul 10 (c_str (str id))))) m in
     get_member_check data ''message'' (\<lambda>_. True) m (\<lambda>content. need is_string content
       (let m = put ''super_chat.message'' (Txt (str content)) m in
     get_member_check data ''price'' is_int m (\<lambda>price. need is_uint price
       (let m = put ''super_chat.price_cny'' (Num (num price)) m in
     get_member_check data ''rate'' is_uint m (\<lambda>rate. let m = put ''super_chat.price_coin'' (Num (num price * num rate mod 2 ^ 32)) m in
     get_member_check data ''token'' is_string m (\<lambda>token. let m = put ''super_chat.token'' (Txt (str token)) m in
     get_member_check data ''time'' is_uint m (\<lambda>time. let m = put ''super_chat.lasting_time_sec'' (Num (num time)) m in
     get_member_check data ''start_time'' is_uint64 m (\<lambda>start_time. let m = put ''super_chat.start_time'' (Num (num start_time)) m in
     get_member_check data ''end_time'' (\<lambda>_. is_uint64 start_time) m (\<lambda>end_time. need is_uint64 end_time
       (Accepted (put ''set_allocated_user_message'' Present (put ''super_chat.start_time'' (Num (num end_time)) m)))))))))))))"

definition cmd_SUPER_CHAT_MESSAGE :: command_handler where
  "cmd_SUPER_CHAT_MESSAGE room_id document m =
     (let m = put_routing_key room_id ''sc'' m in
      get_member_check document ''data'' is_object m (\<lambda>data.
      get_member_check data ''user_info'' is_object m (\<lambda>user_info.
        let m = put ''super_chat'' Present (put ''user'' Present (put ''user_message'' Present m)) in
        sc_user data user_info m (\<lambda>m. sc_medal data m (sc_content data)))))"

section \<open>Gifts, guards, welcomes, blocks\<close>

definition cmd_SEND_GIFT :: command_handler where
  "cmd_SEND_GIFT room_id document m =
     (let m = put_routing_key room_id ''gift'' m in
     get_member_check document ''data'' is_object m (\<lambda>data.
       let m = put ''gift'' Present (put ''user'' Present (put ''user_message'' Present m)) in
     get_member_check data ''uid'' is_uint64 m (\<lambda>uid. let m = put ''user.uid'' (Num (num uid)) m in
     get_member_check data ''uname'' is_string m (\<lambda>uname. let m = put ''user.name'' (Txt (str uname)) m in
     get_member_check data ''face'' is_string m (\<lambda>face. let m = put ''user.avatar_url'' (Txt (str face)) m in
     get_member_check data ''coin_type'' is_string m (\<lambda>coin_type.
       let m = put ''gift.is_gold'' (Flag (c_str (str coin_type) = ascii ''gold'')) m in
     get_member_check data ''total_coin'' is_uint m (\<lambda>total_coin. let m = put ''gift.total_coin'' (Num (num total_coin)) m in
     get_member_check data ''price'' is_uint m (\<lambda>price. let m = put ''gift.single_price_coin_raw'' (Num (num price)) m in
     get_member_check data ''giftId'' is_uint m (\<lambda>giftId. let m = put ''gift.gift_id'' (Num (num giftId)) m in
     get_member_check data ''giftName'' is_string m (\<lambda>giftName. let m = put ''gift.gift_name'' (Txt (str giftName)) m in
     get_member_check data ''num'' is_uint m (\<lambda>n. Accepted (put ''gift.count'' (Num (num n)) m))))))))))))"

text \<open>The units of a guard's term are the UTF-8 characters for month and week.\<close>

definition unit_month :: bytes where "unit_month = [0xe6, 0x9c, 0x88]"
definition unit_week :: bytes where "unit_week = [0xe5, 0x91, 0xa8]"

definition cmd_USER_TOAST_MSG :: command_handler where
  "cmd_USER_TOAST_MSG room_id document m =
     (let m = put_routing_key room_id ''new_guard'' m in
     get_member_check document ''data'' is_object m (\<lambda>data.
       let m = put ''new_guard'' Present (put ''user'' Present (put ''user_message'' Present m)) in
     get_member_check data ''uid'' is_uint64 m (\<lambda>uid. let m = put ''user.uid'' (Num (num uid)) m in
     get_member_check data ''username'' is_string m (\<lambda>username. let m = put ''user.name'' (Txt (str username)) m in
     get_member_check data ''guard_level'' is_int m (\<lambda>guard_level.
       let g = Guard (convert_guard_level (num guard_level));
           m = put ''new_guard.level'' g (put ''user.guard_level'' g m);
           m = put ''user.regular_user'' (Flag True) (put ''user.phone_verified'' (Flag True) m) in
     get_member_check data ''op_type'' is_int m (\<lambda>op_type.
       let m = (if num op_type = 1 then put ''new_guard.buy_type'' (Buy BUY) m
                else if num op_type = 2 then put ''new_guard.buy_type'' (Buy RENEW) m else m) in
     get_member_check data ''unit'' is_string m (\<lambda>un.
       let m = (if c_str (str un) = unit_month then put ''new_guard.duration_level'' (Duration MONTHLY_GUARD) m
                else if c_str (str un) = unit_week then put ''new_guard.duration_level'' (Duration WEEKLY_GUARD) m else m) in
     get_member_check data ''num'' is_int m (\<lambda>n. let m = put ''new_guard.count'' (Num (num n)) m in
     get_member_check data ''price'' is_uint m (\<lambda>price. Accepted (put ''new_guard.total_coin'' (Num (num price)) m))))))))))"

definition cmd_WELCOME :: command_handler where
  "cmd_WELCOME room_id document m =
     (let m = put_routing_key room_id ''welcome_vip'' m in
     get_member_check document ''data'' is_object m (\<lambda>data.
       let m = put ''welcome_vip'' Present (put ''user'' Present (put ''user_message'' Present m)) in
     get_member_check data ''uid'' is_uint64 m (\<lambda>uid. let m = put ''user.uid'' (Num (num uid)) m in
     get_member_check data ''uname'' is_string m (\<lambda>uname. let m = put ''user.name'' (Txt (str uname)) m in
     get_member_check data ''is_admin'' is_bool m (\<lambda>is_admin. let m = put ''user.admin'' (Flag (truth is_admin)) m in
     get_member_check data ''vip'' is_int m (\<lambda>vip.
     get_member_check data ''svip'' is_int m (\<lambda>svip.
       Accepted (put ''welcome_vip.level'' (Vip (convert_live_vip_level (num vip) (num svip))) m))))))))"

definition cmd_WELCOME_GUARD :: command_handler where
  "cmd_WELCOME_GUARD room_id document m =
     (let m = put_routing_key room_id ''welcome_guard'' m in
     get_member_check document ''data'' is_object m (\<lambda>data.
       let m = put ''welcome_guard'' Present (put ''user'' Present (put ''user_message'' Present m)) in
     get_member_check data ''uid'' is_uint64 m (\<lambda>uid. let m = put ''user.uid'' (Num (num uid)) m in
     get_member_check data ''username'' is_string m (\<lambda>username. let m = put ''user.name'' (Txt (str username)) m in
     get_member_check data ''guard_level'' is_int m (\<lambda>guard_level.
       Accepted (put ''welcome_guard.level'' (Guard (convert_guard_level (num guard_level))) m))))))"

text \<open>A \<open>uid\<close> given as a string is read in base 16.\<close>

definition cmd_ROOM_BLOCK_MSG :: command_handler where
  "cmd_ROOM_BLOCK_MSG room_id document m =
     (let m = put_routing_key room_id ''user_blocked'' m;
          m = put ''user_blocked'' Present (put ''user'' Present (put ''user_message'' Present m)) in
     get_member_check document ''uid'' (\<lambda>uid. is_string uid \<or> is_uint64 uid) m (\<lambda>uid.
       let m = put ''user.uid'' (Num (if is_string uid then int (strtoul 16 (c_str (str uid))) else num uid)) m in
     get_member_check document ''uname'' is_string m (\<lambda>uname. Accepted (put ''user.name'' (Txt (str uname)) m))))"

section \<open>The state of the room\<close>

definition cmd_LIVE :: command_handler where
  "cmd_LIVE room_id document m =
     Accepted (put ''live_status.status'' (Status LIVE) (put ''live_status'' Present (put_routing_key room_id ''live_status'' m)))"

definition cmd_PREPARING :: command_handler where
  "cmd_PREPARING room_id document m =
     Accepted (put ''live_status.status'' (Status PREPARING) (put ''live_status'' Present (put_routing_key room_id ''live_status'' m)))"

definition cmd_ROUND :: command_handler where
  "cmd_ROUND room_id document m =
     Accepted (put ''live_status.status'' (Status ROUND) (put ''live_status'' Present (put_routing_key room_id ''live_status'' m)))"

text \<open>The test for the member is inverted: without it the end iterator is dereferenced.\<close>

definition cmd_CUT_OFF :: command_handler where
  "cmd_CUT_OFF room_id document m =
     (let m = put ''live_status.status'' (Status CUT_OFF) (put ''live_status'' Present (put_routing_key room_id ''live_status'' m)) in
      if \<not> has_member document ''msg'' then Bad_access else Accepted m)"

definition cmd_ROOM_CHANGE :: command_handler where
  "cmd_ROOM_CHANGE room_id document m =
     (let m = put ''base_info'' Present (put ''info_change'' Present (put_routing_key room_id ''room_info'' m)) in
     get_member_check document ''data'' is_object m (\<lambda>data.
     get_member_check data ''title'' is_string m (\<lambda>title. let m = put ''base_info.title'' (Txt (str title)) m in
     get_member_check data ''area_id'' is_uint m (\<lambda>area_id. let m = put ''base_info.area_id'' (Num (num area_id)) m in
     get_member_check data ''area_name'' is_string m (\<lambda>area_name. let m = put ''base_info.area_name'' (Txt (str area_name)) m in
     get_member_check data ''parent_area_id'' is_uint m (\<lambda>parent_area_id. let m = put ''base_info.parent_area_id'' (Num (num parent_area_id)) m in
     get_member_check data ''parent_area_name'' is_string m (\<lambda>parent_area_name.
       Accepted (put ''base_info.parent_area_name'' (Txt (str parent_area_name)) m))))))))"

definition cmd_CHANGE_ROOM_INFO :: command_handler where
  "cmd_CHANGE_ROOM_INFO room_id document m =
     (let m = put ''info_change'' Present (put_routing_key room_id ''room_info'' m) in
     get_member_check document ''background'' is_string m (\<lambda>background.
       Accepted (put ''info_change.background_url'' (Txt (str background)) m)))"

definition cmd_ROOM_SKIN_MSG :: command_handler where
  "cmd_ROOM_SKIN_MSG room_id document m =
     (let m = put ''info_change'' Present (put_routing_key room_id ''room_info'' m) in
     get_member_check document ''skin_id'' is_uint m (\<lambda>skin_id.
       Accepted (put ''info_change.skin_id'' (Num (num skin_id)) m)))"

definition put_all :: "string \<Rightarrow> json list \<Rightarrow> bili_message \<Rightarrow> bili_message" where
  "put_all f vs m = fold (\<lambda>v m. if is_uint64 v then put f (Num (num v)) m else m) vs m"

definition cmd_ROOM_ADMINS :: command_handler where
  "cmd_ROOM_ADMINS room_id document m =
     (let m = put ''admin'' Present (put ''info_change'' Present (put_routing_key room_id ''room_info'' m)) in
     get_member_check document ''uids'' (is_array_of 0) m (\<lambda>uids. Accepted (put_all ''admin.uid'' (elems uids) m)))"

text \<open>\<open>time_of\<close> is \<open>std::get_time\<close> with the format of the code followed by \<open>mktime\<close>; it depends on
  the time zone of the host.\<close>

definition cmd_ROOM_LOCK :: "(bytes \<Rightarrow> int option) \<Rightarrow> command_handler" where
  "cmd_ROOM_LOCK time_of room_id document m =
     (let m = put ''room_locked'' Present (put_routing_key room_id ''room_locked'' m) in
     get_member_check document ''expire'' is_string m (\<lambda>expire.
       Accepted (case time_of (c_str (str expire)) of
           Some timestamp \<Rightarrow> put ''room_locked.locked_until'' (Num timestamp) m
         | None \<Rightarrow> m)))"

definition cmd_WARNING :: command_handler where
  "cmd_WARNING room_id document m =
     (let m = put ''room_warning'' Present (put_routing_key room_id ''room_warning'' m) in
     get_member_check document ''msg'' is_string m (\<lambda>msg. Accepted (put ''room_warning.message'' (Txt (str msg)) m)))"

definition cmd_ROOM_LIMIT :: command_handler where
  "cmd_ROOM_LIMIT room_id document m =
     (let m = put ''room_limited'' Present (put_routing_key room_id ''room_limited'' m) in
     get_member_check document ''type'' is_string m (\<lambda>ty. let m = put ''room_limited.type'' (Txt (str ty)) m in
     get_member_check document ''delay_range'' is_uint m (\<lambda>delay_range.
       Accepted (put ''room_limited.delay_range'' (Num (num delay_range)) m))))"

definition cmd_SUPER_CHAT_MESSAGE_DELETE :: command_handler where
  "cmd_SUPER_CHAT_MESSAGE_DELETE room_id document m =
     (let m = put ''superchat_delete'' Present (put_routing_key room_id ''sc_delete'' m) in
     get_member_check document ''data'' is_object m (\<lambda>data.
     get_member_check data ''ids'' (is_array_of 0) m (\<lambda>ids. Accepted (put_all ''superchat_delete.id'' (elems ids) m))))"

end
