(* ===== verification/Bili_Serialize.thy ===== *)
theory Bili_Serialize
  imports Bili_Commands
begin

text \<open>
  The parse context of src/worker/bili_json.cpp: the table of commands, \<open>serialize\<close> for a JSON
  buffer and for a popularity value. One message object is reused for all messages of a thread;
  the lemmas give every handler as a function that keeps the routing key, the checksum and the
  room of the message it is given, and that does not look at the fields set before it.
\<close>

section \<open>The parse context\<close>

record json_env =
  parse_insitu :: "bytes \<Rightarrow> json option \<times> bytes"
  crc_calculate :: "bytes \<Rightarrow> 32 word"
  time_of :: "bytes \<Rightarrow> int option"

definition command :: "json_env \<Rightarrow> (string \<times> command_handler) list" where
  "command env =
     [(''DANMU_MSG'', cmd_DANMU_MSG), (''SUPER_CHAT_MESSAGE'', cmd_SUPER_CHAT_MESSAGE),
      (''SEND_GIFT'', cmd_SEND_GIFT), (''USER_TOAST_MSG'', cmd_USER_TOAST_MSG),
      (''WELCOME'', cmd_WELCOME), (''WELCOME_GUARD'', cmd_WELCOME_GUARD),
      (''ROOM_BLOCK_MSG'', cmd_ROOM_BLOCK_MSG), (''LIVE'', cmd_LIVE),
      (''PREPARING'', cmd_PREPARING), (''ROUND'', cmd_ROUND), (''CUT_OFF'', cmd_CUT_OFF),
      (''ROOM_CHANGE'', cmd_ROOM_CHANGE), (''CHANGE_ROOM_INFO'', cmd_CHANGE_ROOM_INFO),
      (''ROOM_SKIN_MSG'', cmd_ROOM_SKIN_MSG), (''ROOM_ADMINS'', cmd_ROOM_ADMINS),
      (''ROOM_LOCK'', cmd_ROOM_LOCK (time_of env)), (''WARNING'', cmd_WARNING),
      (''ROOM_LIMIT'', cmd_ROOM_LIMIT),
      (''SUPER_CHAT_MESSAGE_DELETE'', cmd_SUPER_CHAT_MESSAGE_DELETE)]"

text \<open>The topic under which the messages of a command are published.\<close>

definition topics :: "(string \<times> string) list" where
  "topics =
     [(''DANMU_MSG'', ''danmaku''), (''SUPER_CHAT_MESSAGE'', ''sc''), (''SEND_GIFT'', ''gift''),
      (''USER_TOAST_MSG'', ''new_guard''), (''WELCOME'', ''welcome_vip''),
      (''WELCOME_GUARD'', ''welcome_guard''), (''ROOM_BLOCK_MSG'', ''user_blocked''),
      (''LIVE'', ''live_status''), (''PREPARING'', ''live_status''),
      (''ROUND'', ''live_status''), (''CUT_OFF'', ''live_status''),
      (''ROOM_CHANGE'', ''room_info''), (''CHANGE_ROOM_INFO'', ''room_info''),
      (''ROOM_SKIN_MSG'', ''room_info''), (''ROOM_ADMINS'', ''room_info''),
      (''ROOM_LOCK'', ''room_locked''), (''WARNING'', ''room_warning''),
      (''ROOM_LIMIT'', ''room_limited''), (''SUPER_CHAT_MESSAGE_DELETE'', ''sc_delete'')]"

definition find_command :: "json_env \<Rightarrow> bytes \<Rightarrow> command_handler option" where
  "find_command env s = map_of (map (\<lambda>(name, handler). (ascii name, handler)) (command env)) s"

definition serialize_json :: "json_env \<Rightarrow> bytes \<Rightarrow> room_id \<Rightarrow> bili_message \<Rightarrow> outcome" where
  "serialize_json env buf room_id m =
     (let m = m\<lparr>jm_fields := [], jm_crc32 := crc_calculate env buf\<rparr> in
      case fst (parse_insitu env buf) of
        None \<Rightarrow> Refused m
      | Some document \<Rightarrow>
          (if \<not> is_object document then Refused m
           else let m = put ''room_id'' (Num (uint room_id)) m in
           case find_member document ''cmd'' of
             Some (Some cmd) \<Rightarrow>
               (if \<not> is_string cmd then Refused m
                else case find_command env (str cmd) of
                    None \<Rightarrow> Refused m
                  | Some handler \<Rightarrow> handler room_id document m)
           | _ \<Rightarrow> Refused m))"

definition serialize_popularity_message :: "int \<Rightarrow> room_id \<Rightarrow> bili_message \<Rightarrow> bili_message" where
  "serialize_popularity_message popularity room_id m =
     (let m = put_routing_key room_id ''online'' (m\<lparr>jm_crc32 := 0\<rparr>); m = m\<lparr>jm_fields := []\<rparr>;
          m = put ''popularity_change.popularity'' (Num popularity) (put ''popularity_change'' Present m)
      in put ''room_id'' (Num (uint room_id)) m)"

section \<open>Routing keys\<close>

definition key_of :: "bili_message \<Rightarrow> bytes" where
  "key_of m = c_str (jm_routing_key m)"

lemma routing_key_length: "length topic \<le> 16 \<Longrightarrow> length (routing_key_text room topic) < 32"
  using length_decimal_u32 [of room] by (simp add: routing_key_text_def)

definition topic_ok :: "string \<Rightarrow> bool" where
  "topic_ok topic \<longleftrightarrow> length topic \<le> 16 \<and> list_all (\<lambda>c. of_char c \<noteq> (0 :: byte)) topic"

lemma routing_key_no_zero: "topic_ok topic \<Longrightarrow> 0 \<notin> set (routing_key_text room topic)"
  using decimal_not [of 0 "unat room"]
  by (auto simp: routing_key_text_def topic_ok_def ascii_def list_all_iff)

lemma c_str_terminated: "0 \<notin> set bs \<Longrightarrow> c_str (bs @ 0 # r) = bs"
  by (induction bs) (auto simp: c_str_def)

lemma put_routing_key_key:
  assumes "length (jm_routing_key m) = 32" and "topic_ok topic"
  shows "key_of (put_routing_key room topic m) = routing_key_text room topic"
    and "length (jm_routing_key (put_routing_key room topic m)) = 32"
proof -
  let ?t = "routing_key_text room topic"
  have t: "length ?t < 32" using assms(2) by (intro routing_key_length) (simp add: topic_ok_def)
  then have "jm_routing_key (put_routing_key room topic m) = ?t @ 0 # drop (Suc (length ?t)) (jm_routing_key m)"
    using assms(1)
    by (simp add: put_routing_key_def routing_key_max_size_def overwrite_def Let_def list_update_append
        upd_conv_take_nth_drop flip: Cons_nth_drop_Suc)
  then show "key_of (put_routing_key room topic m) = ?t"
      "length (jm_routing_key (put_routing_key room topic m)) = 32"
    using t assms routing_key_no_zero [OF assms(2)] by (simp_all add: key_of_def c_str_terminated)
qed

lemma put_routing_key_other [simp]:
  "jm_fields (put_routing_key room topic m) = jm_fields m"
  "jm_crc32 (put_routing_key room topic m) = jm_crc32 m"
  by (simp_all add: put_routing_key_def Let_def)

section \<open>What every handler keeps\<close>

text \<open>
  The unary rules: \<open>holds P bad out\<close> says that the message of \<open>out\<close> satisfies \<open>P\<close>, and that \<open>out\<close>
  is a failed access only if \<open>bad\<close>.
\<close>

definition holds :: "(bili_message \<Rightarrow> bool) \<Rightarrow> bool \<Rightarrow> outcome \<Rightarrow> bool" where
  "holds P bad out \<longleftrightarrow> (case out of Accepted m \<Rightarrow> P m | Refused m \<Rightarrow> P m | Bad_access \<Rightarrow> bad)"

definition stamped :: "bytes \<Rightarrow> 32 word \<Rightarrow> int \<Rightarrow> bili_message \<Rightarrow> bool" where
  "stamped key crc room m \<longleftrightarrow> key_of m = key \<and> length (jm_routing_key m) = 32 \<and> jm_crc32 m = crc
     \<and> field m ''room_id'' = Some (Num room)"

named_theorems handler_intros "rules that follow the text of a handler"

lemma holds_Accepted [handler_intros]: "P m \<Longrightarrow> holds P bad (Accepted m)"
  by (simp add: holds_def)

lemma holds_assert [handler_intros]:
  "P m \<Longrightarrow> (b \<Longrightarrow> holds P bad k) \<Longrightarrow> holds P bad (assert_trace b m k)"
  by (simp add: assert_trace_def holds_def)

lemma holds_member [handler_intros]:
  "is_object src \<Longrightarrow> P m \<Longrightarrow> (\<And>v. test v \<Longrightarrow> holds P bad (k v)) \<Longrightarrow>
     holds P bad (get_member_check src name test m k)"
  by (cases src) (auto simp: get_member_check_def find_member_def holds_def split: option.split)

lemma holds_need [handler_intros]: "bad \<or> test v \<Longrightarrow> holds P bad k \<Longrightarrow> holds P bad (need test v k)"
  by (auto simp: need_def holds_def)

lemma stamped_put [handler_intros]:
  "f \<noteq> ''room_id'' \<Longrightarrow> stamped key crc room m \<Longrightarrow> stamped key crc room (put f v m)"
  by (simp add: stamped_def put_def field_def key_of_def)

lemma stamped_if [handler_intros]:
  "stamped key crc room m \<Longrightarrow> stamped key crc room m' \<Longrightarrow> stamped key crc room (if b then m else m')"
  by simp

lemma stamped_clear [handler_intros]:
  "stamped key crc room m \<Longrightarrow> stamped key crc room (clear_field ''user.medal'' m)"
proof -
  have "map_of (filter (\<lambda>(f, v). take (length ''user.medal'') f \<noteq> ''user.medal'') fs) ''room_id'' = map_of fs ''room_id''"
    for fs :: "(string \<times> field_value) list"
    by (induction fs) auto
  then show "stamped key crc room m \<Longrightarrow> stamped key crc room (clear_field ''user.medal'' m)"
    unfolding stamped_def clear_field_def field_def key_of_def by simp
qed

lemma stamped_put_all [handler_intros]:
  assumes "f \<noteq> ''room_id''" and "stamped key crc room m"
  shows "stamped key crc room (put_all f vs m)"
proof -
  have "stamped key crc room (fold (\<lambda>v m. if is_uint64 v then put f (Num (num v)) m else m) vs m)"
    using assms by (induction vs arbitrary: m) (auto intro: handler_intros)
  then show ?thesis by (simp add: put_all_def)
qed

lemma stamped_key [handler_intros]:
  assumes "topic_ok topic" and "length (jm_routing_key m) = 32"
    and "jm_crc32 m = crc" and "field m ''room_id'' = Some (Num room)"
  shows "stamped (routing_key_text room_id topic) crc room (put_routing_key room_id topic m)"
  using assms put_routing_key_key [of m topic room_id] by (simp add: stamped_def field_def)

lemma holds_sc_medal [handler_intros]:
  assumes "is_object data" and "stamped key crc room m"
    and "\<And>m. stamped key crc room m \<Longrightarrow> holds (stamped key crc room) bad (k m)"
  shows "holds (stamped key crc room) bad (sc_medal data m k)"
proof (cases "find_member data ''medal_info''")
  case None
  with assms(1) show ?thesis by (cases data) (simp_all add: find_member_def)
next
  case (Some info)
  then show ?thesis
  proof (cases info)
    case None
    with Some assms show ?thesis by (simp add: sc_medal_def handler_intros)
  next
    case (Some medal_info)
    have "is_object medal_info" if "has_member medal_info ''target_id''"
      using that by (cases medal_info) (simp_all add: has_member_def find_member_def)
    with assms(1,2) Some \<open>find_member data ''medal_info'' = Some info\<close> show ?thesis
      by (auto simp: sc_medal_def Let_def intro!: handler_intros assms(3))
  qed
qed

lemma holds_danmu_user [handler_intros]:
  assumes "stamped key crc room m"
    and "\<And>m. stamped key crc room m \<Longrightarrow> holds (stamped key crc room) True (k m)"
  shows "holds (stamped key crc room) True (danmu_user u l ti m k)"
  unfolding danmu_user_def Let_def by (intro handler_intros assms disjI1 TrueI) (simp_all add: assms)

lemma holds_danmu_medal [handler_intros]:
  assumes "stamped key crc room m"
    and "\<And>m. stamped key crc room m \<Longrightarrow> holds (stamped key crc room) bad (k m)"
  shows "holds (stamped key crc room) bad (danmu_medal d m k)"
  using assms(1) by (auto simp: danmu_medal_def Let_def intro!: handler_intros assms(2))

lemma holds_danmu_content [handler_intros]:
  "stamped key crc room m \<Longrightarrow> holds (stamped key crc room) True (danmu_content info m)"
  by (auto simp: danmu_content_def Let_def intro!: handler_intros)

lemma holds_sc_user [handler_intros]:
  assumes "is_object data" and "is_object user_info" and "stamped key crc room m"
    and "\<And>m. stamped key crc room m \<Longrightarrow> holds (stamped key crc room) True (k m)"
  shows "holds (stamped key crc room) True (sc_user data user_info m k)"
  using assms(1-3) by (auto simp: sc_user_def Let_def intro!: handler_intros assms(4))

lemma holds_sc_content [handler_intros]:
  "is_object data \<Longrightarrow> stamped key crc room m \<Longrightarrow> holds (stamped key crc room) True (sc_content data m)"
  by (auto simp: sc_content_def Let_def intro!: handler_intros)

lemma topic_ok_simps [simp]:
  "topic_ok ''danmaku''"
  "topic_ok ''gift''"
  "topic_ok ''live_status''"
  "topic_ok ''new_guard''"
  "topic_ok ''room_info''"
  "topic_ok ''room_limited''"
  "topic_ok ''room_locked''"
  "topic_ok ''room_warning''"
  "topic_ok ''sc''"
  "topic_ok ''sc_delete''"
  "topic_ok ''user_blocked''"
  "topic_ok ''welcome_guard''"
  "topic_ok ''welcome_vip''"
  "topic_ok ''online''"
  by code_simp+

text \<open>Every handler publishes under its topic and keeps checksum and room; all but three of them
  never fail an access.\<close>

lemma stamped_ifs [handler_intros]:
  "stamped key crc room m \<Longrightarrow> (\<And>x. stamped key crc room (g x)) \<Longrightarrow>
     stamped key crc room (case opt of None \<Rightarrow> m | Some x \<Rightarrow> g x)"
  by (simp split: option.split)

lemma safe_handlers:
  assumes "length (jm_routing_key m) = 32" and "jm_crc32 m = crc"
    and "field m ''room_id'' = Some (Num room)" and "is_object document"
  shows "holds (stamped (routing_key_text room_id ''gift'') crc room) bad (cmd_SEND_GIFT room_id document m)"
    and "holds (stamped (routing_key_text room_id ''new_guard'') crc room) bad (cmd_USER_TOAST_MSG room_id document m)"
    and "holds (stamped (routing_key_text room_id ''welcome_vip'') crc room) bad (cmd_WELCOME room_id document m)"
    and "holds (stamped (routing_key_text room_id ''welcome_guard'') crc room) bad (cmd_WELCOME_GUARD room_id document m)"
    and "holds (stamped (routing_key_text room_id ''user_blocked'') crc room) bad (cmd_ROOM_BLOCK_MSG room_id document m)"
    and "holds (stamped (routing_key_text room_id ''live_status'') crc room) bad (cmd_LIVE room_id document m)"
    and "holds (stamped (routing_key_text room_id ''live_status'') crc room) bad (cmd_PREPARING room_id document m)"
    and "holds (stamped (routing_key_text room_id ''live_status'') crc room) bad (cmd_ROUND room_id document m)"
    and "holds (stamped (routing_key_text room_id ''room_info'') crc room) bad (cmd_ROOM_CHANGE room_id document m)"
    and "holds (stamped (routing_key_text room_id ''room_info'') crc room) bad (cmd_CHANGE_ROOM_INFO room_id document m)"
    and "holds (stamped (routing_key_text room_id ''room_info'') crc room) bad (cmd_ROOM_SKIN_MSG room_id document m)"
    and "holds (stamped (routing_key_text room_id ''room_info'') crc room) bad (cmd_ROOM_ADMINS room_id document m)"
    and "holds (stamped (routing_key_text room_id ''room_locked'') crc room) bad (cmd_ROOM_LOCK to_time room_id document m)"
    and "holds (stamped (routing_key_text room_id ''room_warning'') crc room) bad (cmd_WARNING room_id document m)"
    and "holds (stamped (routing_key_text room_id ''room_limited'') crc room) bad (cmd_ROOM_LIMIT room_id document m)"
    and "holds (stamped (routing_key_text room_id ''sc_delete'') crc room) bad (cmd_SUPER_CHAT_MESSAGE_DELETE room_id document m)"
  unfolding cmd_SEND_GIFT_def
    cmd_USER_TOAST_MSG_def
    cmd_WELCOME_def
    cmd_WELCOME_GUARD_def
    cmd_ROOM_BLOCK_MSG_def
    cmd_LIVE_def
    cmd_PREPARING_def
    cmd_ROUND_def
    cmd_ROOM_CHANGE_def
    cmd_CHANGE_ROOM_INFO_def
    cmd_ROOM_SKIN_MSG_def
    cmd_ROOM_ADMINS_def
    cmd_ROOM_LOCK_def
    cmd_WARNING_def
    cmd_ROOM_LIMIT_def
    cmd_SUPER_CHAT_MESSAGE_DELETE_def
    Let_def
  using assms(4) by (intro handler_intros assms; simp)+

lemma risky_handlers:
  assumes "length (jm_routing_key m) = 32" and "jm_crc32 m = crc"
    and "field m ''room_id'' = Some (Num room)" and "is_object document"
  shows "holds (stamped (routing_key_text room_id ''danmaku'') crc room) True (cmd_DANMU_MSG room_id document m)"
    and "holds (stamped (routing_key_text room_id ''sc'') crc room) True (cmd_SUPER_CHAT_MESSAGE room_id document m)"
    and "holds (stamped (routing_key_text room_id ''live_status'') crc room) True (cmd_CUT_OFF room_id document m)"
proof -
  note start = stamped_key [OF _ assms(1-3)]
  show "holds (stamped (routing_key_text room_id ''danmaku'') crc room) True (cmd_DANMU_MSG room_id document m)"
    unfolding cmd_DANMU_MSG_def Let_def by (intro handler_intros start assms) simp_all
  show "holds (stamped (routing_key_text room_id ''sc'') crc room) True (cmd_SUPER_CHAT_MESSAGE room_id document m)"
    unfolding cmd_SUPER_CHAT_MESSAGE_def Let_def by (intro handler_intros start assms) simp_all
  have "stamped (routing_key_text room_id ''live_status'') crc room
      (put ''live_status.status'' (Status CUT_OFF) (put ''live_status'' Present (put_routing_key room_id ''live_status'' m)))"
    by (intro handler_intros start) simp_all
  then show "holds (stamped (routing_key_text room_id ''live_status'') crc room) True (cmd_CUT_OFF room_id document m)"
    by (simp add: cmd_CUT_OFF_def Let_def holds_def)
qed

definition may_fail :: "string \<Rightarrow> bool" where
  "may_fail name \<longleftrightarrow> name \<in> {''DANMU_MSG'', ''SUPER_CHAT_MESSAGE'', ''CUT_OFF''}"

lemma command_handlers:
  assumes "(name, handler) \<in> set (command env)"
    and "length (jm_routing_key m) = 32" and "jm_crc32 m = crc"
    and "field m ''room_id'' = Some (Num room)" and "is_object document"
  shows "holds (stamped (routing_key_text room_id (the (map_of topics name))) crc room) (may_fail name)
    (handler room_id document m)"
  using assms(1) unfolding command_def set_simps insert_iff empty_iff prod.inject
  by (elim disjE conjE) (simp_all add: topics_def may_fail_def safe_handlers [OF assms(2-5)] risky_handlers [OF assms(2-5)])

lemma find_command_Some:
  assumes "find_command env s = Some handler"
  obtains name where "(name, handler) \<in> set (command env)" and "s = ascii name"
proof -
  from map_of_SomeD [OF assms [unfolded find_command_def]] show ?thesis by (auto intro: that)
qed

text \<open>What \<open>serialize\<close> does with the document, and what it keeps.\<close>

lemma serialize_json_holds:
  assumes "length (jm_routing_key m) = 32" and "fst (parse_insitu env buf) = Some document"
    and "is_object document" and "find_member document ''cmd'' = Some (Some (JStr (ascii name)))"
    and "find_command env (ascii name) = Some handler" and "(name, handler) \<in> set (command env)"
  shows "holds (stamped (routing_key_text room (the (map_of topics name))) (crc_calculate env buf) (uint room))
    (may_fail name) (serialize_json env buf room m)"
  using command_handlers [OF assms(6), of "put ''room_id'' (Num (uint room)) (m\<lparr>jm_fields := [], jm_crc32 := crc_calculate env buf\<rparr>)"
      "crc_calculate env buf" "uint room" document room] assms(1-5)
  by (simp add: serialize_json_def put_def field_def)

lemma serialize_json_cases:
  assumes "serialize_json env buf room m = out" and "\<And>m'. out \<noteq> Refused m'"
  obtains document name handler where "fst (parse_insitu env buf) = Some document" and "is_object document"
    and "find_member document ''cmd'' = Some (Some (JStr (ascii name)))"
    and "find_command env (ascii name) = Some handler" and "(name, handler) \<in> set (command env)"
proof -
  from assms obtain document cmd handler where doc: "fst (parse_insitu env buf) = Some document" "is_object document"
      "find_member document ''cmd'' = Some (Some cmd)" "is_string cmd" "find_command env (str cmd) = Some handler"
    by (auto simp: serialize_json_def Let_def split: option.splits if_splits)
  from find_command_Some [OF doc(5)] obtain name where "(name, handler) \<in> set (command env)" "str cmd = ascii name" .
  with doc show ?thesis by (cases cmd) (auto intro: that)
qed

text \<open>A popularity value is published under its own topic with checksum 0, which is never
  deduplicated.\<close>

lemma popularity_stamped:
  "length (jm_routing_key m) = 32 \<Longrightarrow>
     stamped (routing_key_text room ''online'') 0 (uint room) (serialize_popularity_message n room m)"
  using put_routing_key_key [of "m\<lparr>jm_crc32 := 0\<rparr>" "''online''" room]
  by (simp add: serialize_popularity_message_def Let_def stamped_def put_def field_def key_of_def)

end
