(* ===== verification/Bili_Fresh.thy ===== *)
theory Bili_Fresh
  imports Bili_Serialize
begin

text \<open>
  The one message object of the parse context is reused for every message of a thread. The rules
  of this theory follow two runs of a handler on two contexts at once; they show that the outcome
  does not depend on what the context held before.
\<close>

definition same :: "bili_message \<Rightarrow> bili_message \<Rightarrow> bool" where
  "same m m' \<longleftrightarrow> key_of m = key_of m' \<and> jm_crc32 m = jm_crc32 m' \<and> jm_fields m = jm_fields m'"

definition related :: "outcome \<Rightarrow> outcome \<Rightarrow> bool" where
  "related out out' \<longleftrightarrow>
     (case (out, out') of
        (Accepted m, Accepted m') \<Rightarrow> same m m'
      | (Refused m, Refused m') \<Rightarrow> True
      | (Bad_access, Bad_access) \<Rightarrow> True
      | _ \<Rightarrow> False)"

named_theorems pair_intros "rules that follow two runs of a handler"

lemma related_Accepted [pair_intros]: "same m m' \<Longrightarrow> related (Accepted m) (Accepted m')"
  by (simp add: related_def)

lemma related_Refused [pair_intros]: "related (Refused m) (Refused m')"
  by (simp add: related_def)

lemma related_Bad [pair_intros]: "related Bad_access Bad_access"
  by (simp add: related_def)

lemma related_assert [pair_intros]:
  "(b \<Longrightarrow> related k k') \<Longrightarrow> related (assert_trace b m k) (assert_trace b m' k')"
  by (simp add: assert_trace_def pair_intros)

lemma related_need [pair_intros]: "related k k' \<Longrightarrow> related (need test v k) (need test v k')"
  by (simp add: need_def pair_intros)

lemma related_member [pair_intros]:
  "(\<And>v. test v \<Longrightarrow> related (k v) (k' v)) \<Longrightarrow>
     related (get_member_check src name test m k) (get_member_check src name test m' k')"
  by (auto simp: get_member_check_def pair_intros split: option.split)

lemma related_if [pair_intros]:
  "(b \<Longrightarrow> related k k') \<Longrightarrow> (\<not> b \<Longrightarrow> related l l') \<Longrightarrow>
     related (if b then k else l) (if b then k' else l')"
  by simp

lemma same_put [pair_intros]: "same m m' \<Longrightarrow> same (put f v m) (put f v m')"
  by (simp add: same_def put_def key_of_def)

lemma same_clear [pair_intros]: "same m m' \<Longrightarrow> same (clear_field p m) (clear_field p m')"
  by (simp add: same_def clear_field_def key_of_def)

lemma same_if [pair_intros]: "same m m' \<Longrightarrow> same l l' \<Longrightarrow> same (if b then m else l) (if b then m' else l')"
  by simp

lemma same_case [pair_intros]:
  "same m m' \<Longrightarrow> (\<And>x. same (g x) (g' x)) \<Longrightarrow>
     same (case opt of None \<Rightarrow> m | Some x \<Rightarrow> g x) (case opt of None \<Rightarrow> m' | Some x \<Rightarrow> g' x)"
  by (simp split: option.split)

lemma same_put_all [pair_intros]: "same m m' \<Longrightarrow> same (put_all f vs m) (put_all f vs m')"
proof -
  have "same (fold (\<lambda>v m. if is_uint64 v then put f (Num (num v)) m else m) vs m)
      (fold (\<lambda>v m. if is_uint64 v then put f (Num (num v)) m else m) vs m')" if "same m m'"
    using that by (induction vs arbitrary: m m') (auto intro: pair_intros)
  then show "same m m' \<Longrightarrow> same (put_all f vs m) (put_all f vs m')" by (simp add: put_all_def)
qed

lemma same_key [pair_intros]:
  assumes "topic_ok topic" and "length (jm_routing_key m) = 32" and "length (jm_routing_key m') = 32"
    and "jm_crc32 m = jm_crc32 m'" and "jm_fields m = jm_fields m'"
  shows "same (put_routing_key room topic m) (put_routing_key room topic m')"
  using assms by (simp add: same_def put_routing_key_key)

lemma related_danmu_user [pair_intros]:
  assumes "same m m'" and "\<And>m m'. same m m' \<Longrightarrow> related (k m) (k' m')"
  shows "related (danmu_user u l ti m k) (danmu_user u l ti m' k')"
  using assms(1) unfolding danmu_user_def Let_def by (intro pair_intros assms(2))

lemma related_danmu_medal [pair_intros]:
  assumes "same m m'" and "\<And>m m'. same m m' \<Longrightarrow> related (k m) (k' m')"
  shows "related (danmu_medal d m k) (danmu_medal d m' k')"
  using assms(1) unfolding danmu_medal_def Let_def by (intro pair_intros assms(2))

lemma related_danmu_content [pair_intros]:
  "same m m' \<Longrightarrow> related (danmu_content info m) (danmu_content info m')"
  unfolding danmu_content_def Let_def by (intro pair_intros)

lemma related_sc_user [pair_intros]:
  assumes "same m m'" and "\<And>m m'. same m m' \<Longrightarrow> related (k m) (k' m')"
  shows "related (sc_user data user_info m k) (sc_user data user_info m' k')"
  using assms(1) unfolding sc_user_def Let_def by (intro pair_intros assms(2))

lemma related_sc_medal [pair_intros]:
  assumes "same m m'" and "\<And>m m'. same m m' \<Longrightarrow> related (k m) (k' m')"
  shows "related (sc_medal data m k) (sc_medal data m' k')"
proof -
  have "related (k (clear_field ''user.medal'' m)) (k' (clear_field ''user.medal'' m'))"
    by (intro pair_intros assms)
  with assms(1) show ?thesis
    by (auto simp: sc_medal_def Let_def split: option.split intro!: pair_intros assms(2))
qed

lemma related_sc_content [pair_intros]:
  "same m m' \<Longrightarrow> related (sc_content data m) (sc_content data m')"
  unfolding sc_content_def Let_def by (intro pair_intros)

lemma handlers_related:
  assumes "length (jm_routing_key m) = 32" and "length (jm_routing_key m') = 32"
    and "jm_crc32 m = jm_crc32 m'" and "jm_fields m = jm_fields m'"
  shows "related (cmd_DANMU_MSG room document m) (cmd_DANMU_MSG room document m')"
    and "related (cmd_SUPER_CHAT_MESSAGE room document m) (cmd_SUPER_CHAT_MESSAGE room document m')"
    and "related (cmd_SEND_GIFT room document m) (cmd_SEND_GIFT room document m')"
    and "related (cmd_USER_TOAST_MSG room document m) (cmd_USER_TOAST_MSG room document m')"
    and "related (cmd_WELCOME room document m) (cmd_WELCOME room document m')"
    and "related (cmd_WELCOME_GUARD room document m) (cmd_WELCOME_GUARD room document m')"
    and "related (cmd_ROOM_BLOCK_MSG room document m) (cmd_ROOM_BLOCK_MSG room document m')"
    and "related (cmd_LIVE room document m) (cmd_LIVE room document m')"
    and "related (cmd_PREPARING room document m) (cmd_PREPARING room document m')"
    and "related (cmd_ROUND room document m) (cmd_ROUND room document m')"
    and "related (cmd_CUT_OFF room document m) (cmd_CUT_OFF room document m')"
    and "related (cmd_ROOM_CHANGE room document m) (cmd_ROOM_CHANGE room document m')"
    and "related (cmd_CHANGE_ROOM_INFO room document m) (cmd_CHANGE_ROOM_INFO room document m')"
    and "related (cmd_ROOM_SKIN_MSG room document m) (cmd_ROOM_SKIN_MSG room document m')"
    and "related (cmd_ROOM_ADMINS room document m) (cmd_ROOM_ADMINS room document m')"
    and "related (cmd_ROOM_LOCK to_time room document m) (cmd_ROOM_LOCK to_time room document m')"
    and "related (cmd_WARNING room document m) (cmd_WARNING room document m')"
    and "related (cmd_ROOM_LIMIT room document m) (cmd_ROOM_LIMIT room document m')"
    and "related (cmd_SUPER_CHAT_MESSAGE_DELETE room document m) (cmd_SUPER_CHAT_MESSAGE_DELETE room document m')"
  unfolding cmd_DANMU_MSG_def
    cmd_SUPER_CHAT_MESSAGE_def
    cmd_SEND_GIFT_def
    cmd_USER_TOAST_MSG_def
    cmd_WELCOME_def
    cmd_WELCOME_GUARD_def
    cmd_ROOM_BLOCK_MSG_def
    cmd_LIVE_def
    cmd_PREPARING_def
    cmd_ROUND_def
    cmd_CUT_OFF_def
    cmd_ROOM_CHANGE_def
    cmd_CHANGE_ROOM_INFO_def
    cmd_ROOM_SKIN_MSG_def
    cmd_ROOM_ADMINS_def
    cmd_ROOM_LOCK_def
    cmd_WARNING_def
    cmd_ROOM_LIMIT_def
    cmd_SUPER_CHAT_MESSAGE_DELETE_def
    Let_def
  by (intro pair_intros assms; simp)+

lemma command_related:
  assumes "(name, handler) \<in> set (command env)"
    and "length (jm_routing_key m) = 32" and "length (jm_routing_key m') = 32"
    and "jm_crc32 m = jm_crc32 m'" and "jm_fields m = jm_fields m'"
  shows "related (handler room document m) (handler room document m')"
  using assms(1) unfolding command_def set_simps insert_iff empty_iff prod.inject
  by (elim disjE conjE) (simp_all add: handlers_related [OF assms(2-5)])

lemma serialize_json_related:
  assumes "length (jm_routing_key m) = 32" and "length (jm_routing_key m') = 32"
  shows "related (serialize_json env buf room m) (serialize_json env buf room m')"
proof -
  have "related (handler room document (put ''room_id'' (Num (uint room)) (m\<lparr>jm_fields := [], jm_crc32 := c\<rparr>)))
      (handler room document (put ''room_id'' (Num (uint room)) (m'\<lparr>jm_fields := [], jm_crc32 := c\<rparr>)))"
    if "find_command env s = Some handler" for s handler document c
  proof -
    from find_command_Some [OF that] obtain name where "(name, handler) \<in> set (command env)" by metis
    then show ?thesis by (rule command_related) (use assms in \<open>simp_all add: put_def\<close>)
  qed
  then show ?thesis
    by (auto simp: serialize_json_def Let_def split: option.split intro: pair_intros)
qed

end
