(* ===== verification/Bili_Json_Props.thy ===== *)
theory Bili_Json_Props
  imports Bili_Fresh
begin

text \<open>
  The properties of the JSON translation: what every published message carries, that it depends
  on its own document only, which documents break an access, and what the handlers of the main
  commands read out of a document.
\<close>

section \<open>Routing keys\<close>

lemma routing_key_inject:
  assumes "routing_key_text room topic = routing_key_text room' topic'"
  shows "room = room'" and "ascii topic = ascii topic'"
proof -
  have split: "takeWhile (\<lambda>b. b \<noteq> 46) (decimal n @ 46 # r) = decimal n"
    "dropWhile (\<lambda>b. b \<noteq> 46) (decimal n @ 46 # r) = 46 # r" for n r
  proof -
    have "b \<noteq> 46" if "b \<in> set (decimal n)" for b using that decimal_not [of 46 n] by auto
    then show "takeWhile (\<lambda>b. b \<noteq> 46) (decimal n @ 46 # r) = decimal n"
      "dropWhile (\<lambda>b. b \<noteq> 46) (decimal n @ 46 # r) = 46 # r"
      by (simp_all add: takeWhile_append2 dropWhile_append2)
  qed
  have eq: "decimal (unat room) @ 46 # ascii topic = decimal (unat room') @ 46 # ascii topic'"
    using assms by (simp add: routing_key_text_def ascii_def)
  have "unat room = unat room'" using arg_cong [OF eq, of "takeWhile (\<lambda>b. b \<noteq> 46)"]
    by (simp add: split decimal_inject)
  then show "room = room'" by (simp only: word_unat_eq_iff)
  show "ascii topic = ascii topic'" using arg_cong [OF eq, of "dropWhile (\<lambda>b. b \<noteq> 46)"]
    by (simp add: split)
qed

section \<open>Reading a result\<close>

lemma assert_Accepted [simp]: "assert_trace b m k = Accepted m' \<longleftrightarrow> b \<and> k = Accepted m'"
  by (simp add: assert_trace_def)

lemma need_Accepted [simp]: "need test v k = Accepted m' \<longleftrightarrow> test v \<and> k = Accepted m'"
  by (simp add: need_def)

lemma member_Accepted [simp]:
  "get_member_check src name test m k = Accepted m' \<longleftrightarrow>
     (\<exists>v. find_member src name = Some (Some v) \<and> test v \<and> k v = Accepted m')"
  by (auto simp: get_member_check_def split: option.split)

lemma field_put [simp]: "field (put f v m) g = (if f = g then Some v else field m g)"
  by (simp add: field_def put_def)

lemma field_if [simp]: "field (if b then m else m') g = (if b then field m g else field m' g)"
  by simp

text \<open>What the parts of a chat message leave in the message.\<close>

definition danmu_user_fields :: "json \<Rightarrow> json \<Rightarrow> bili_message \<Rightarrow> bool" where
  "danmu_user_fields user_info user_level_info m \<longleftrightarrow>
     field m ''user.uid'' = Some (Num (num (elems user_info ! 0)))
       \<and> field m ''user.name'' = Some (Txt (str (elems user_info ! 1)))
       \<and> field m ''user.admin'' = Some (Flag (num (elems user_info ! 2) = 1))
       \<and> field m ''user.user_level'' = Some (Num (num (elems user_level_info ! 2)))"

lemma danmu_user_Accepted:
  assumes "danmu_user u l ti m k = Accepted m'"
  shows "\<exists>m1. k m1 = Accepted m' \<and> danmu_user_fields u l m1
    \<and> field m1 ''user.user_level_border_color'' = field m ''user.user_level_border_color''"
proof -
  from assms obtain m1 where "k m1 = Accepted m'" and m1: "m1 =
     (let m = put ''user.live_vip_level'' (Vip (convert_live_vip_level (num (elems u ! 3)) (num (elems u ! 4))))
        (put ''user.admin'' (Flag (num (elems u ! 2) = 1)) (put ''user.name'' (Txt (str (elems u ! 1)))
          (put ''user.uid'' (Num (num (elems u ! 0))) m)));
          m = (if num (elems u ! 5) = 10000 then put ''user.regular_user'' (Flag True) m
               else if num (elems u ! 5) = 5000 then put ''user.regular_user'' (Flag False) m else m);
          m = put ''user.user_level'' (Num (num (elems l ! 2))) (put ''user.user_level'' (Num (num (elems l ! 0)))
            (put ''user.phone_verified'' (Flag (num (elems u ! 6) = 1)) m))
      in if is_array_of 2 ti \<and> is_string (elems ti ! 1) then put ''user.title'' (Txt (str (elems ti ! 1))) m else m)"
    unfolding danmu_user_def Let_def assert_Accepted need_Accepted by blast
  moreover have "danmu_user_fields u l m1
      \<and> field m1 ''user.user_level_border_color'' = field m ''user.user_level_border_color''"
    by (simp only: m1 Let_def danmu_user_fields_def field_if field_put) simp
  ultimately show ?thesis by blast
qed

definition keeps_user :: "bili_message \<Rightarrow> bili_message \<Rightarrow> bool" where
  "keeps_user m m' \<longleftrightarrow> list_all (\<lambda>f. field m' f = field m f)
     [''user.uid'', ''user.name'', ''user.admin'', ''user.user_level'', ''user.user_level_border_color'']"

lemma danmu_medal_Accepted:
  assumes "danmu_medal d m k = Accepted m'"
  shows "\<exists>m1. k m1 = Accepted m' \<and> keeps_user m m1"
proof (cases "is_array_of 6 d")
  case True
  let ?m = "put ''user.medal.streamer_roomid'' (Num (num (elems d ! 3))) (put ''user.medal.streamer_name'' (Txt (str (elems d ! 2)))
    (put ''user.medal.medal_color'' (Num (num (elems d ! 4))) (put ''user.medal.medal_level'' (Num (num (elems d ! 0)))
    (put ''user.medal.medal_name'' (Txt (str (elems d ! 1))) (put ''user.medal'' Present m)))))"
  have "k ?m = Accepted m'" using assms True unfolding danmu_medal_def Let_def by simp
  moreover have "keeps_user m ?m" by (simp add: keeps_user_def)
  ultimately show ?thesis by blast
qed (use assms in \<open>auto simp: danmu_medal_def Let_def keeps_user_def\<close>)

lemma danmu_content_Accepted:
  assumes "danmu_content info m = Accepted m'"
  shows "keeps_user m m' \<and> field m' ''danmaku.message'' = Some (Txt (str (info ! 1)))
    \<and> field m' ''user.guard_level'' = Some (Guard (convert_guard_level (num (info ! 7))))"
proof -
  define n where "n = num (elems (info ! 0) ! 9)"
  from assms have m': "m' = (let m = put ''danmaku.message'' (Txt (str (info ! 1))) m;
      m = (if n = 0 then put ''danmaku.lottery_type'' (Lottery NO_LOTTERY) m
           else if n = 1 then put ''danmaku.lottery_type'' (Lottery STORM) m
           else if n = 2 then put ''danmaku.lottery_type'' (Lottery LOTTERY) m else m)
      in put ''user.guard_level'' (Guard (convert_guard_level (num (info ! 7)))) m)"
    unfolding danmu_content_def Let_def assert_Accepted need_Accepted n_def by simp
  show ?thesis by (simp only: m' Let_def keeps_user_def field_if field_put) simp
qed

section \<open>Properties\<close>

definition demo_json :: json where
  "demo_json = JObj [(ascii ''cmd'', JStr (ascii ''DANMU_MSG'')), (ascii ''info'',
     JArr [JArr (replicate 9 JNull @ [JInt 0, JNull]), JStr (ascii ''hello''),
       JArr [JInt 42, JStr (ascii ''bob''), JInt 0, JInt 1, JInt 0, JInt 10000, JInt 1, JNull],
       JArr [], JArr [JInt 21, JNull, JInt 5805790, JNull], JArr [], JNull, JInt 3,
       JNull, JNull, JNull, JNull, JNull, JNull, JNull])]"

definition demo_jenv :: json_env where
  "demo_jenv = \<lparr>parse_insitu = \<lambda>bs. (Some demo_json, bs), crc_calculate = \<lambda>bs. 77, time_of = \<lambda>bs. None\<rparr>"

definition demo_context :: bili_message where
  "demo_context = \<lparr>jm_routing_key = replicate 32 1, jm_crc32 = 5, jm_fields = [(''user.title'', Txt [9])]\<rparr>"

text \<open>C14 What a message carries. Every JSON message that is passed on has the checksum of its own
  bytes, the room it was received for, and the whole routing key of its room and topic, shorter
  than the key field; no other room or topic has this key.\<close>

theorem message_stamp:
  assumes "length (jm_routing_key m) = 32" and "serialize_json env buf room m = Accepted m'"
  shows "\<exists>document name topic. fst (parse_insitu env buf) = Some document
      \<and> find_member document ''cmd'' = Some (Some (JStr (ascii name))) \<and> (name, topic) \<in> set topics
      \<and> key_of m' = routing_key_text room topic \<and> length (key_of m') < routing_key_max_size
      \<and> jm_crc32 m' = crc_calculate env buf \<and> field m' ''room_id'' = Some (Num (uint room))
      \<and> (\<forall>room2 topic2. routing_key_text room2 topic2 = key_of m' \<longrightarrow> room2 = room \<and> ascii topic2 = ascii topic)"
proof -
  from assms(2) obtain document name handler where doc: "fst (parse_insitu env buf) = Some document"
      "is_object document" "find_member document ''cmd'' = Some (Some (JStr (ascii name)))"
      "find_command env (ascii name) = Some handler" "(name, handler) \<in> set (command env)"
    by (rule serialize_json_cases) simp
  then have topic: "(name, the (map_of topics name)) \<in> set topics"
    by (auto simp: command_def topics_def)
  have "list_all (\<lambda>(name, topic). topic_ok topic) topics" by (simp add: topics_def)
  define topic where "topic = the (map_of topics name)"
  have "topic_ok topic" using \<open>list_all _ topics\<close> topic by (auto simp: list_all_iff topic_def)
  then have short: "length (routing_key_text room topic) < 32"
    by (intro routing_key_length) (simp add: topic_ok_def)
  have stamp: "stamped (routing_key_text room topic) (crc_calculate env buf) (uint room) m'"
    using serialize_json_holds [OF assms(1) doc, of room] assms(2) by (simp add: holds_def topic_def)
  have "room2 = room \<and> ascii topic2 = ascii topic"
    if "routing_key_text room2 topic2 = key_of m'" for room2 topic2
    using that stamp routing_key_inject [of room2 topic2 room topic] by (simp add: stamped_def)
  moreover have "key_of m' = routing_key_text room topic" "jm_crc32 m' = crc_calculate env buf"
      "field m' ''room_id'' = Some (Num (uint room))" "length (key_of m') < routing_key_max_size"
    using stamp short by (simp_all add: stamped_def routing_key_max_size_def)
  moreover have "(name, topic) \<in> set topics" using topic by (simp add: topic_def)
  ultimately show ?thesis using doc(1,3) by blast
qed

lemma demo_serialized: "case serialize_json demo_jenv [] 21452505 demo_context of
    Accepted m' \<Rightarrow> key_of m' = ascii ''blv.21452505.danmaku'' | _ \<Rightarrow> False"
  by code_simp

theorem message_stamp_witness:
  "\<exists>m'. serialize_json demo_jenv [] 21452505 demo_context = Accepted m' \<and> jm_crc32 m' = 77
    \<and> key_of m' = ascii ''blv.21452505.danmaku''"
proof -
  obtain m' where m': "serialize_json demo_jenv [] 21452505 demo_context = Accepted m'"
      "key_of m' = ascii ''blv.21452505.danmaku''"
    using demo_serialized by (cases "serialize_json demo_jenv [] 21452505 demo_context") auto
  have "length (jm_routing_key demo_context) = 32" by (simp add: demo_context_def)
  from message_stamp [OF this m'(1)] m' show ?thesis by (auto simp: demo_jenv_def)
qed

text \<open>C9 No leak. The message a document gives does not depend on what the reused message object
  held before: the outcome is the same for two contexts, and an accepted message has the same
  key, checksum and fields.\<close>

theorem message_fresh:
  assumes "length (jm_routing_key m) = 32" and "length (jm_routing_key m2) = 32"
  shows "case (serialize_json env buf room m, serialize_json env buf room m2) of
      (Accepted a, Accepted b) \<Rightarrow> key_of a = key_of b \<and> jm_crc32 a = jm_crc32 b \<and> jm_fields a = jm_fields b
    | (Refused a, Refused b) \<Rightarrow> True
    | (Bad_access, Bad_access) \<Rightarrow> True
    | _ \<Rightarrow> False"
  using serialize_json_related [OF assms, of env buf room]
  by (auto simp: related_def same_def split: outcome.splits)

theorem message_fresh_witness:
  "case (serialize_json demo_jenv [] 7 demo_context, serialize_json demo_jenv [] 7 (demo_context\<lparr>jm_fields := []\<rparr>)) of
     (Accepted a, Accepted b) \<Rightarrow> key_of a = key_of b \<and> jm_crc32 a = jm_crc32 b \<and> jm_fields a = jm_fields b
   | (Refused a, Refused b) \<Rightarrow> True | (Bad_access, Bad_access) \<Rightarrow> True | _ \<Rightarrow> False"
  by (rule message_fresh) (simp_all add: demo_context_def)

text \<open>Documents that break an access. Only a chat message, a super chat or a CUT_OFF can make a
  handler use an accessor on a value of the wrong type; a CUT_OFF does so exactly when it has no
  member \<open>msg\<close>, the case its test was written to exclude.\<close>

theorem bad_access_commands:
  assumes "length (jm_routing_key m) = 32" and "fst (parse_insitu env buf) = Some document"
    and "is_object document" and "find_member document ''cmd'' = Some (Some (JStr s))"
  shows "(serialize_json env buf room m = Bad_access \<longrightarrow>
      s \<in> {ascii ''DANMU_MSG'', ascii ''SUPER_CHAT_MESSAGE'', ascii ''CUT_OFF''})
    \<and> (s = ascii ''CUT_OFF'' \<longrightarrow>
        (serialize_json env buf room m = Bad_access \<longleftrightarrow> \<not> has_member document ''msg''))"
proof
  show "serialize_json env buf room m = Bad_access \<longrightarrow>
      s \<in> {ascii ''DANMU_MSG'', ascii ''SUPER_CHAT_MESSAGE'', ascii ''CUT_OFF''}"
  proof
    assume bad: "serialize_json env buf room m = Bad_access"
    then obtain document' name handler where doc: "fst (parse_insitu env buf) = Some document'"
        "is_object document'" "find_member document' ''cmd'' = Some (Some (JStr (ascii name)))"
        "find_command env (ascii name) = Some handler" "(name, handler) \<in> set (command env)"
      by (rule serialize_json_cases) simp
    have "may_fail name" using serialize_json_holds [OF assms(1) doc, of room] bad by (simp add: holds_def)
    moreover have "s = ascii name" using doc(1,3) assms(2,4) by simp
    ultimately show "s \<in> {ascii ''DANMU_MSG'', ascii ''SUPER_CHAT_MESSAGE'', ascii ''CUT_OFF''}"
      by (auto simp: may_fail_def)
  qed
  have "find_command env (ascii ''CUT_OFF'') = Some cmd_CUT_OFF"
    by (simp add: find_command_def command_def ascii_def)
  then show "s = ascii ''CUT_OFF'' \<longrightarrow>
      (serialize_json env buf room m = Bad_access \<longleftrightarrow> \<not> has_member document ''msg'')"
    using assms by (simp add: serialize_json_def cmd_CUT_OFF_def)
qed

definition cut_off_env :: json_env where
  "cut_off_env = demo_jenv\<lparr>parse_insitu := \<lambda>bs. (Some (JObj [(ascii ''cmd'', JStr (ascii ''CUT_OFF''))]), bs)\<rparr>"

theorem bad_access_commands_witness:
  "serialize_json cut_off_env [] 7 demo_context = Bad_access"
  using bad_access_commands [of demo_context cut_off_env "[]" "JObj [(ascii ''cmd'', JStr (ascii ''CUT_OFF''))]" "ascii ''CUT_OFF''" 7]
  by (simp add: demo_context_def cut_off_env_def find_member_def has_member_def ascii_def)

text \<open>C30 Chat messages. What the handler reads from an accepted chat message; the colour of the level's
  border is stored over the level, and its own field is never set.\<close>

theorem danmaku_decoded:
  assumes "cmd_DANMU_MSG room document m = Accepted m'"
    and "find_member document ''info'' = Some (Some (JArr info))"
  shows "field m' ''user.uid'' = Some (Num (num (elems (info ! 2) ! 0)))
    \<and> field m' ''user.name'' = Some (Txt (str (elems (info ! 2) ! 1)))
    \<and> field m' ''user.admin'' = Some (Flag (num (elems (info ! 2) ! 2) = 1))
    \<and> field m' ''user.guard_level'' = Some (Guard (convert_guard_level (num (info ! 7))))
    \<and> field m' ''danmaku.message'' = Some (Txt (str (info ! 1)))
    \<and> field m' ''user.user_level'' = Some (Num (num (elems (info ! 4) ! 2)))
    \<and> field m' ''user.user_level_border_color'' = field m ''user.user_level_border_color''"
proof -
  have key: "field (put_routing_key room t m) f = field m f" for t f by (simp add: field_def)
  from assms obtain m0 where m0: "danmu_user (info ! 2) (info ! 4) (info ! 5) m0 (\<lambda>m. danmu_medal (info ! 3) m (danmu_content info)) = Accepted m'"
      "field m0 ''user.user_level_border_color'' = field m ''user.user_level_border_color''"
    by (auto simp: cmd_DANMU_MSG_def Let_def key)
  from danmu_user_Accepted [OF m0(1)] obtain m1 where m1: "danmu_medal (info ! 3) m1 (danmu_content info) = Accepted m'"
      "danmu_user_fields (info ! 2) (info ! 4) m1"
      "field m1 ''user.user_level_border_color'' = field m0 ''user.user_level_border_color''" by metis
  from danmu_medal_Accepted [OF m1(1)] obtain m2 where m2: "danmu_content info m2 = Accepted m'"
      "keeps_user m1 m2" by metis
  from danmu_content_Accepted [OF m2(1)] m1(2,3) m2(2) m0(2) show ?thesis
    by (simp add: keeps_user_def danmu_user_fields_def)
qed

lemma demo_danmaku: "case cmd_DANMU_MSG 7 demo_json demo_context of Accepted m' \<Rightarrow> True | _ \<Rightarrow> False"
  by code_simp

theorem danmaku_decoded_witness:
  "\<exists>m'. cmd_DANMU_MSG 7 demo_json demo_context = Accepted m' \<and> field m' ''user.uid'' = Some (Num 42)
    \<and> field m' ''danmaku.message'' = Some (Txt (ascii ''hello''))
    \<and> field m' ''user.user_level'' = Some (Num 5805790) \<and> field m' ''user.user_level_border_color'' = None"
proof -
  obtain m' where m': "cmd_DANMU_MSG 7 demo_json demo_context = Accepted m'"
    using demo_danmaku by (cases "cmd_DANMU_MSG 7 demo_json demo_context") auto
  let ?info = "[JArr (replicate 9 JNull @ [JInt 0, JNull]), JStr (ascii ''hello''),
       JArr [JInt 42, JStr (ascii ''bob''), JInt 0, JInt 1, JInt 0, JInt 10000, JInt 1, JNull],
       JArr [], JArr [JInt 21, JNull, JInt 5805790, JNull], JArr [], JNull, JInt 3,
       JNull, JNull, JNull, JNull, JNull, JNull, JNull]"
  have "find_member demo_json ''info'' = Some (Some (JArr ?info))"
    by (simp add: find_member_def demo_json_def ascii_def)
  from danmaku_decoded [OF m' this] m' show ?thesis
    by (intro exI [of _ m']) (simp add: demo_context_def field_def)
qed

text \<open>Blocked users. The id of a blocked user that comes as a decimal string is read in base 16:
  from two digits on the published id is larger than the user's.\<close>

fun as_hex :: "nat \<Rightarrow> nat" where
  "as_hex n = (if n < 10 then n else 16 * as_hex (n div 10) + n mod 10)"

declare as_hex.simps [simp del]

lemma as_hex_step: "r < 10 \<Longrightarrow> 0 < q \<Longrightarrow> as_hex (10 * q + r) = 16 * as_hex q + r"
  by (subst as_hex.simps) simp

lemma decimal_split: "10 \<le> (n :: nat) \<Longrightarrow> \<exists>q r. n = 10 * q + r \<and> r < 10 \<and> 0 < q \<and> q < n"
  by (intro exI [of _ "n div 10"] exI [of _ "n mod 10"]) simp

lemma as_hex_ge: "n \<le> as_hex n"
proof (induction n rule: less_induct)
  case (less n)
  show ?case
  proof (cases "n < 10")
    case False
    then obtain q r where "n = 10 * q + r" "r < 10" "0 < q" "q < n"
      using decimal_split [of n] unfolding not_less by blast
    moreover have "q \<le> as_hex q" by (rule less.IH [OF \<open>q < n\<close>])
    ultimately show ?thesis by (simp add: as_hex_step)
  qed (simp add: as_hex.simps)
qed

lemma as_hex_greater: "10 \<le> n \<Longrightarrow> n < as_hex n"
proof -
  assume "10 \<le> n"
  then obtain q r where "n = 10 * q + r" "r < 10" "0 < q" using decimal_split [of n] by blast
  with as_hex_ge [of q] show ?thesis by (simp add: as_hex_step)
qed

lemma as_hex_bound: "n < 10 ^ Suc k \<Longrightarrow> as_hex n < 16 ^ Suc k"
proof (induction k arbitrary: n)
  case 0
  then show ?case by (simp add: as_hex.simps)
next
  case (Suc k)
  show ?case
  proof (cases "n < 10")
    case True
    moreover have "1 \<le> (16 :: nat) ^ k" by simp
    ultimately have "n < 256 * 16 ^ k" by linarith
    with True show ?thesis by (simp add: as_hex.simps [of n])
  next
    case False
    then obtain q r where n: "n = 10 * q + r" "r < 10" "0 < q"
      using decimal_split [of n] unfolding not_less by blast
    with Suc.prems have "q < 10 ^ Suc k" by simp
    from Suc.IH [OF this] n show ?thesis by (simp add: as_hex_step)
  qed
qed

lemma foldl_hex_decimal: "foldl (\<lambda>a b. 16 * a + (unat b - 48)) 0 (decimal n) = as_hex n"
proof (induction n rule: decimal.induct)
  case (1 n)
  then show ?case
    by (cases "n < 10") (simp_all add: decimal.simps [of n] as_hex.simps [of n] unat_digit)
qed

lemma c_str_decimal: "c_str (decimal n) = decimal n"
  using decimal_not [of 0 n] by (auto simp: c_str_def intro: takeWhile_all)

theorem block_uid_hex:
  assumes "cmd_ROOM_BLOCK_MSG room document m = Accepted m'"
    and "find_member document ''uid'' = Some (Some (JStr (decimal n)))" and "10 \<le> n" and "n < 10 ^ 15"
  shows "\<exists>uid > int n. field m' ''user.uid'' = Some (Num uid)"
proof -
  have "as_hex n < 16 ^ Suc 14" using assms(4) by (intro as_hex_bound) simp
  then have "strtoul 16 (decimal n) = as_hex n"
    using strtoul_digits [of 16 n] by (simp add: foldl_hex_decimal)
  with assms(1,2) have "field m' ''user.uid'' = Some (Num (int (as_hex n)))"
    by (auto simp: cmd_ROOM_BLOCK_MSG_def Let_def c_str_decimal)
  moreover have "int n < int (as_hex n)" using as_hex_greater [OF assms(3)] by simp
  ultimately show ?thesis by blast
qed

definition block_document :: json where
  "block_document = JObj [(ascii ''uid'', JStr (decimal 10)), (ascii ''uname'', JStr (ascii ''bob''))]"

lemma block_accepted: "case cmd_ROOM_BLOCK_MSG 7 block_document demo_context of
    Accepted m' \<Rightarrow> field m' ''user.uid'' = Some (Num 16) | _ \<Rightarrow> False"
  by code_simp

theorem block_uid_hex_witness:
  "\<exists>m' uid. cmd_ROOM_BLOCK_MSG 7 block_document demo_context = Accepted m'
    \<and> field m' ''user.uid'' = Some (Num uid) \<and> 10 < uid"
proof -
  obtain m' where m': "cmd_ROOM_BLOCK_MSG 7 block_document demo_context = Accepted m'"
    using block_accepted by (cases "cmd_ROOM_BLOCK_MSG 7 block_document demo_context") auto
  have "find_member block_document ''uid'' = Some (Some (JStr (decimal 10)))"
    by (simp add: block_document_def find_member_def)
  from block_uid_hex [OF m' this] m' show ?thesis by auto
qed

lemma strtoul_hash: "strtoul 16 (c_str (35 # r)) = 0"
  by (simp add: strtoul_def c_str_def is_space_def strip_hex_prefix_def digit_value_def Let_def split: list.split)

lemma sc_content_Accepted:
  assumes "sc_content data m = Accepted m'"
  shows "\<exists>e. find_member data ''end_time'' = Some (Some e) \<and> field m' ''super_chat.start_time'' = Some (Num (num e))
    \<and> field m' ''super_chat.end_time'' = field m ''super_chat.end_time''
    \<and> field m' ''user.medal.medal_color'' = field m ''user.medal.medal_color''"
  using assms by (auto simp: sc_content_def Let_def)

lemma sc_medal_Accepted:
  assumes "sc_medal data m k = Accepted m'" and "find_member data ''medal_info'' = Some (Some medal_info)"
    and "has_member medal_info ''target_id''"
    and "find_member medal_info ''medal_color'' = Some (Some (JStr (35 # hex)))" and "6 \<le> length hex"
  shows "\<exists>m1. k m1 = Accepted m' \<and> field m1 ''user.medal.medal_color'' = Some (Num 0)
    \<and> field m1 ''super_chat.end_time'' = field m ''super_chat.end_time''"
  using assms by (auto simp: sc_medal_def Let_def strtoul_hash)

lemma sc_user_Accepted:
  assumes "sc_user data user_info m k = Accepted m'"
  shows "\<exists>m1. k m1 = Accepted m' \<and> field m1 ''super_chat.end_time'' = field m ''super_chat.end_time''"
  using assms unfolding sc_user_def Let_def member_Accepted need_Accepted
  by (elim exE conjE) (rule exI, rule conjI, assumption, simp)

text \<open>C31 Super chats. The end of a super chat is stored as its start, the end itself is never set,
  and the colour of a medal given as '#rrggbb' is stored as 0, because the conversion starts at the
  '#' that the user's level colour skips.\<close>

theorem super_chat_decoded:
  assumes "cmd_SUPER_CHAT_MESSAGE room document m = Accepted m'"
    and "find_member document ''data'' = Some (Some data)" and "find_member data ''medal_info'' = Some (Some medal_info)"
    and "has_member medal_info ''target_id''"
    and "find_member medal_info ''medal_color'' = Some (Some (JStr (35 # hex)))" and "6 \<le> length hex"
  shows "\<exists>e. find_member data ''end_time'' = Some (Some e) \<and> field m' ''super_chat.start_time'' = Some (Num (num e))
    \<and> field m' ''super_chat.end_time'' = field m ''super_chat.end_time''
    \<and> field m' ''user.medal.medal_color'' = Some (Num 0)"
proof -
  have key: "field (put_routing_key room t m) f = field m f" for t f by (simp add: field_def)
  from assms(1,2) obtain m0 user_info where m0:
      "sc_user data user_info m0 (\<lambda>m. sc_medal data m (sc_content data)) = Accepted m'"
      "field m0 ''super_chat.end_time'' = field m ''super_chat.end_time''"
    by (auto simp: cmd_SUPER_CHAT_MESSAGE_def Let_def key)
  from sc_user_Accepted [OF m0(1)] obtain m1 where m1: "sc_medal data m1 (sc_content data) = Accepted m'"
      "field m1 ''super_chat.end_time'' = field m0 ''super_chat.end_time''" by blast
  from sc_medal_Accepted [OF m1(1) assms(3-6)] obtain m2 where m2: "sc_content data m2 = Accepted m'"
      "field m2 ''user.medal.medal_color'' = Some (Num 0)"
      "field m2 ''super_chat.end_time'' = field m1 ''super_chat.end_time''" by blast
  from sc_content_Accepted [OF m2(1)] m2(2,3) m1(2) m0(2) show ?thesis by simp
qed

definition sc_document :: json where
  "sc_document = JObj [(ascii ''data'', JObj [(ascii ''uid'', JInt 42),
     (ascii ''user_info'', JObj [(ascii ''uname'', JStr (ascii ''bob'')), (ascii ''manager'', JInt 0), (ascii ''is_vip'', JInt 0),
        (ascii ''is_svip'', JInt 0), (ascii ''user_level'', JInt 9), (ascii ''level_color'', JStr (ascii ''#61ddff'')),
        (ascii ''title'', JStr (ascii ''0'')), (ascii ''is_main_vip'', JInt 1), (ascii ''face'', JStr []), (ascii ''guard_level'', JInt 3)]),
     (ascii ''medal_info'', JObj [(ascii ''medal_name'', JStr []), (ascii ''medal_level'', JInt 5),
        (ascii ''medal_color'', JStr (35 # ascii ''61ddff'')), (ascii ''target_id'', JInt 1),
        (ascii ''anchor_uname'', JStr []), (ascii ''anchor_roomid'', JInt 7)]),
     (ascii ''id'', JStr (ascii ''123'')), (ascii ''message'', JStr (ascii ''hi'')), (ascii ''price'', JInt 30),
     (ascii ''rate'', JInt 1000), (ascii ''token'', JStr []), (ascii ''time'', JInt 60),
     (ascii ''start_time'', JInt 1000), (ascii ''end_time'', JInt 1060)])]"

lemma sc_accepted: "\<exists>m'. cmd_SUPER_CHAT_MESSAGE 7 sc_document demo_context = Accepted m'"
  by (simp add: cmd_SUPER_CHAT_MESSAGE_def sc_user_def sc_medal_def sc_content_def sc_document_def
      find_member_def has_member_def Let_def ascii_def is_int_def is_uint_def is_int64_def is_uint64_def)

theorem super_chat_decoded_witness:
  "\<exists>m'. cmd_SUPER_CHAT_MESSAGE 7 sc_document demo_context = Accepted m'
    \<and> field m' ''super_chat.start_time'' = Some (Num 1060) \<and> field m' ''super_chat.end_time'' = None
    \<and> field m' ''user.medal.medal_color'' = Some (Num 0)"
proof -
  obtain m' where m': "cmd_SUPER_CHAT_MESSAGE 7 sc_document demo_context = Accepted m'"
    using sc_accepted by blast
  obtain data where data: "find_member sc_document ''data'' = Some (Some data)"
    by (simp add: sc_document_def find_member_def)
  then have "find_member data ''end_time'' = Some (Some (JInt 1060))"
    by (auto simp: sc_document_def find_member_def ascii_def)
  moreover obtain medal_info where medal: "find_member data ''medal_info'' = Some (Some medal_info)"
      "has_member medal_info ''target_id''" "find_member medal_info ''medal_color'' = Some (Some (JStr (35 # ascii ''61ddff'')))"
    using data by (auto simp: sc_document_def find_member_def has_member_def ascii_def)
  ultimately show ?thesis using super_chat_decoded [OF m' data medal] m'
    by (auto simp: demo_context_def field_def)
qed

end
