(* ===== verification/Live_Config.thy ===== *)
theory Live_Config
  imports Bili_Json
begin

text \<open>
  Fetching the chat server of a room over HTTPS (src/worker/bilibili_live_config.cpp): the chain of
  completion handlers of the fetch context, the parsing of the response, and the start of a fetch.
  The URI parser, the JSON parser and the network are arguments or events. The value of every
  handler is the list of what it does, in order: the operations it starts and the callbacks it calls, any number of
  each; \<open>fetch_steps\<close> runs them on the operations in progress.
\<close>

section \<open>The response\<close>

record live_config =
  lc_host :: bytes
  lc_port :: int
  lc_token :: bytes
  lc_user_agent :: bytes

datatype fetch_reply = On_success live_config | On_failed

definition member_with :: "json \<Rightarrow> string \<Rightarrow> (json \<Rightarrow> bool) \<Rightarrow> json option" where
  "member_with src name test =
     (case find_member src name of Some (Some v) \<Rightarrow> if test v then Some v else None | _ \<Rightarrow> None)"

text \<open>The loop over the servers: the first object with a host string and a port number is reported and
  ends the function; behind the last element the failure is. The value lists the callbacks called.\<close>

fun pick_chat_server :: "bytes \<Rightarrow> bytes \<Rightarrow> json list \<Rightarrow> fetch_reply list" where
  "pick_chat_server user_agent token [] = [On_failed]"
| "pick_chat_server user_agent token (s # ss) =
     (if \<not> is_object s then pick_chat_server user_agent token ss
      else case (member_with s ''host'' is_string, member_with s ''wss_port'' is_int) of
          (Some host, Some port) \<Rightarrow>
            [On_success \<lparr>lc_host = str host, lc_port = num port, lc_token = token, lc_user_agent = user_agent\<rparr>]
        | _ \<Rightarrow> pick_chat_server user_agent token ss)"

definition parse_bilibili_config :: "bytes \<Rightarrow> json option \<Rightarrow> fetch_reply list" where
  "parse_bilibili_config user_agent result =
     (case result of
        None \<Rightarrow> [On_failed]
      | Some document \<Rightarrow>
          (if \<not> is_object document then [On_failed]
           else case member_with document ''code'' is_int of
             None \<Rightarrow> [On_failed]
           | Some code \<Rightarrow>
               (if num code \<noteq> 0 then [On_failed]
                else case member_with document ''data'' is_object of
                  None \<Rightarrow> [On_failed]
                | Some data \<Rightarrow>
                    (case member_with data ''token'' is_string of
                       None \<Rightarrow> [On_failed]
                     | Some token \<Rightarrow>
                         (case member_with data ''host_list'' (is_array_of 0) of
                            None \<Rightarrow> [On_failed]
                          | Some servers \<Rightarrow>
                              (if elems servers = [] then [On_failed]
                               else pick_chat_server user_agent (str token) (elems servers)))))))"

section \<open>The chain of handlers\<close>

record fetch_context =
  fc_host :: bytes
  fc_endpoint :: bytes
  fc_user_agent :: bytes
  fc_referer :: bytes

datatype fetch_op = F_resolve bytes bytes | F_connect | F_ssl_handshake
  | F_write_request bytes bytes bytes bytes | F_read_response

text \<open>The completion of an operation: whether it failed, and what it brought.\<close>

datatype fetch_event = Fe_resolved bool bool | Fe_connected bool | Fe_ssl bool | Fe_written bool
  | Fe_response bool nat bytes

datatype fetch_action = Start fetch_op | Reply fetch_reply

definition fc_on_resolved :: "bool \<Rightarrow> bool \<Rightarrow> fetch_context \<Rightarrow> fetch_action list" where
  "fc_on_resolved ec sni_ok c =
     (if ec then [Reply On_failed] else if \<not> sni_ok then [Reply On_failed] else [Start F_connect])"

definition fc_on_connected :: "bool \<Rightarrow> fetch_context \<Rightarrow> fetch_action list" where
  "fc_on_connected ec c = (if ec then [Reply On_failed] else [Start F_ssl_handshake])"

definition fc_on_ssl_handshake :: "bool \<Rightarrow> fetch_context \<Rightarrow> fetch_action list" where
  "fc_on_ssl_handshake ec c =
     (if ec then [Reply On_failed]
      else [Start (F_write_request (fc_endpoint c) (fc_host c) (fc_user_agent c) (fc_referer c))])"

definition fc_on_http_req_written :: "bool \<Rightarrow> fetch_context \<Rightarrow> fetch_action list" where
  "fc_on_http_req_written ec c = (if ec then [Reply On_failed] else [Start F_read_response])"

definition fc_on_response :: "(bytes \<Rightarrow> json option) \<Rightarrow> bool \<Rightarrow> nat \<Rightarrow> bytes \<Rightarrow> fetch_context \<Rightarrow> fetch_action list" where
  "fc_on_response parse ec status body c =
     (if ec then [Reply On_failed]
      else if status \<noteq> 200 then [Reply On_failed]
      else map Reply (parse_bilibili_config (fc_user_agent c) (parse (c_str body))))"

text \<open>The handler bound to an operation, for a completion of that operation.\<close>

fun fetch_step :: "(bytes \<Rightarrow> json option) \<Rightarrow> fetch_context \<Rightarrow> fetch_op \<Rightarrow> fetch_event \<Rightarrow> fetch_action list option" where
  "fetch_step parse c (F_resolve h p) (Fe_resolved ec sni_ok) = Some (fc_on_resolved ec sni_ok c)"
| "fetch_step parse c F_connect (Fe_connected ec) = Some (fc_on_connected ec c)"
| "fetch_step parse c F_ssl_handshake (Fe_ssl ec) = Some (fc_on_ssl_handshake ec c)"
| "fetch_step parse c (F_write_request e h u r) (Fe_written ec) = Some (fc_on_http_req_written ec c)"
| "fetch_step parse c F_read_response (Fe_response ec status body) = Some (fc_on_response parse ec status body c)"
| "fetch_step parse c _ _ = None"

section \<open>Starting a fetch\<close>

text \<open>The parts of a URI the code reads; the port may be empty.\<close>

record uri =
  uri_host :: bytes
  uri_port :: bytes
  uri_path :: "bytes list"
  uri_query :: bytes

definition path_seg_to_string :: "bytes list \<Rightarrow> bytes \<Rightarrow> bytes" where
  "path_seg_to_string segs delim = concat (map (\<lambda>seg. delim @ seg) segs)"

text \<open>\<open>parse_uri\<close> is given the configured URL with the room in it. When it fails the function
  returns without calling any callback.\<close>

definition async_fetch_bilibili_live_config ::
    "(bytes \<Rightarrow> uri option) \<Rightarrow> (int \<Rightarrow> bytes) \<Rightarrow> bytes \<Rightarrow> bytes \<Rightarrow> int \<Rightarrow> (fetch_context \<times> fetch_op) option" where
  "async_fetch_bilibili_live_config parse_uri url_of user_agent referer room_id =
     (case parse_uri (url_of room_id) of
        None \<Rightarrow> None
      | Some uri \<Rightarrow>
          (let port = (if uri_port uri = [] then ascii ''443'' else uri_port uri);
               endpoint = path_seg_to_string (uri_path uri) (ascii ''/'') @ ascii ''?'' @ uri_query uri
           in Some (\<lparr>fc_host = uri_host uri, fc_endpoint = endpoint, fc_user_agent = user_agent,
                fc_referer = referer\<rparr>, F_resolve (uri_host uri) port)))"

text \<open>
  What becomes of a fetch while completions arrive, each for the first operation in progress it can be of
  (one that fits none does not happen): the operations still in progress and the callbacks called so far.
\<close>

definition fetch_started :: "fetch_action list \<Rightarrow> fetch_op list" where
  "fetch_started as = [op. Start op \<leftarrow> as]"

definition fetch_replies :: "fetch_action list \<Rightarrow> fetch_reply list" where
  "fetch_replies as = [r. Reply r \<leftarrow> as]"

fun fetch_steps ::
    "(bytes \<Rightarrow> json option) \<Rightarrow> fetch_context \<Rightarrow> fetch_op list \<Rightarrow> fetch_event list
      \<Rightarrow> fetch_op list \<times> fetch_reply list" where
  "fetch_steps parse c ops [] = (ops, [])"
| "fetch_steps parse c ops (ev # evs) =
     (case find (\<lambda>op. fetch_step parse c op ev \<noteq> None) ops of
        None \<Rightarrow> fetch_steps parse c ops evs
      | Some op \<Rightarrow> (let as = the (fetch_step parse c op ev) in
          case fetch_steps parse c (remove1 op ops @ fetch_started as) evs of (ops', rs) \<Rightarrow> (ops', fetch_replies as @ rs)))"

definition fetch_run ::
    "(bytes \<Rightarrow> uri option) \<Rightarrow> (int \<Rightarrow> bytes) \<Rightarrow> bytes \<Rightarrow> bytes \<Rightarrow> int \<Rightarrow> (bytes \<Rightarrow> json option) \<Rightarrow> fetch_event list
      \<Rightarrow> fetch_op list \<times> fetch_reply list" where
  "fetch_run parse_uri url_of user_agent referer room_id parse evs =
     (case async_fetch_bilibili_live_config parse_uri url_of user_agent referer room_id of
        None \<Rightarrow> ([], [])
      | Some (c, op) \<Rightarrow> fetch_steps parse c [op] evs)"

section \<open>What a response has to look like\<close>

text \<open>The specification, in terms of JSON values only: a chat server entry, and the response that names one.\<close>

definition member_is :: "json \<Rightarrow> string \<Rightarrow> json \<Rightarrow> bool" where
  "member_is v name x \<longleftrightarrow> (\<exists>ms. v = JObj ms \<and> map_of ms (ascii name) = Some x)"

definition server_entry :: "json \<Rightarrow> bytes \<Rightarrow> int \<Rightarrow> bool" where
  "server_entry s host port \<longleftrightarrow> member_is s ''host'' (JStr host) \<and> member_is s ''wss_port'' (JInt port)
     \<and> - (2 ^ 31) \<le> port \<and> port < 2 ^ 31"

definition names_server :: "json \<Rightarrow> bytes \<Rightarrow> int \<Rightarrow> bytes \<Rightarrow> bool" where
  "names_server document host port token \<longleftrightarrow>
     (\<exists>data bad s rest. member_is document ''code'' (JInt 0) \<and> member_is document ''data'' data
        \<and> member_is data ''token'' (JStr token) \<and> member_is data ''host_list'' (JArr (bad @ s # rest))
        \<and> server_entry s host port \<and> (\<forall>b h p. b \<in> set bad \<longrightarrow> \<not> server_entry b h p))"

lemma member_with_is: "member_with v name test = Some x \<longleftrightarrow> member_is v name x \<and> test x"
  by (cases v) (auto simp: member_with_def find_member_def member_is_def split: option.splits)

lemma member_is_object: "member_is v name x \<Longrightarrow> is_object v"
  by (auto simp: member_is_def)

lemma member_is_unique: "member_is v name x \<Longrightarrow> member_is v name y \<Longrightarrow> x = y"
  by (auto simp: member_is_def)

lemma is_string_eq: "is_string v \<longleftrightarrow> (\<exists>s. v = JStr s)"
  by (cases v) auto

lemma is_int_eq: "is_int v \<longleftrightarrow> (\<exists>i. v = JInt i \<and> - (2 ^ 31) \<le> i \<and> i < 2 ^ 31)"
  by (cases v) (auto simp: is_int_def)

lemma pick_chat_server_entry:
  assumes "server_entry s host port"
  shows "pick_chat_server ua token (s # ss) =
    [On_success \<lparr>lc_host = host, lc_port = port, lc_token = token, lc_user_agent = ua\<rparr>]"
proof -
  from assms have "is_object s" "member_with s ''host'' is_string = Some (JStr host)"
      "member_with s ''wss_port'' is_int = Some (JInt port)"
    by (auto simp: server_entry_def member_with_is is_int_eq dest: member_is_object)
  then show ?thesis by simp
qed

lemma pick_chat_server_other:
  "\<not> (\<exists>host port. server_entry s host port) \<Longrightarrow> pick_chat_server ua token (s # ss) = pick_chat_server ua token ss"
  by (auto simp: server_entry_def member_with_is is_int_eq is_string_eq split: option.splits)

lemma pick_chat_server_skips:
  "\<forall>b h p. b \<in> set bad \<longrightarrow> \<not> server_entry b h p \<Longrightarrow> pick_chat_server ua token (bad @ ss) = pick_chat_server ua token ss"
  by (induction bad) (simp_all add: pick_chat_server_other del: pick_chat_server.simps(2))

text \<open>The parsing of a response calls back once, with the server it names or the failure.\<close>

lemma parse_bilibili_config_success:
  assumes "names_server document host port token"
  shows "parse_bilibili_config ua (Some document) =
    [On_success \<lparr>lc_host = host, lc_port = port, lc_token = token, lc_user_agent = ua\<rparr>]"
proof -
  from assms obtain data bad s rest where d:
      "member_is document ''code'' (JInt 0)" "member_is document ''data'' data"
      "member_is data ''token'' (JStr token)" "member_is data ''host_list'' (JArr (bad @ s # rest))"
      and s: "server_entry s host port" "\<forall>b h p. b \<in> set bad \<longrightarrow> \<not> server_entry b h p"
    unfolding names_server_def by blast
  then have "member_with document ''code'' is_int = Some (JInt 0)" "member_with document ''data'' is_object = Some data"
      "member_with data ''token'' is_string = Some (JStr token)"
      "member_with data ''host_list'' (is_array_of 0) = Some (JArr (bad @ s # rest))"
    by (simp_all add: member_with_is is_int_def is_array_of_def member_is_object)
  then show ?thesis using member_is_object [OF d(1)]
    by (simp add: parse_bilibili_config_def pick_chat_server_skips [OF s(2)] pick_chat_server_entry [OF s(1)]
        del: pick_chat_server.simps(2))
qed

lemma pick_chat_server_none:
  "\<forall>b h p. b \<in> set ss \<longrightarrow> \<not> server_entry b h p \<Longrightarrow> pick_chat_server ua token ss = [On_failed]"
  using pick_chat_server_skips [of ss ua token "[]"] by simp

lemma parse_bilibili_config_failure:
  assumes "\<not> (\<exists>host port token. names_server document host port token)"
  shows "parse_bilibili_config ua (Some document) = [On_failed]"
proof -
  have none: "pick_chat_server ua token ss = [On_failed]"
    if d: "member_is document ''code'' (JInt 0)" "member_is document ''data'' data"
      "member_is data ''token'' (JStr token)" "member_is data ''host_list'' (JArr ss)" for data token ss
  proof (rule pick_chat_server_none, rule ccontr)
    assume "\<not> (\<forall>b h p. b \<in> set ss \<longrightarrow> \<not> server_entry b h p)"
    then have "\<exists>s \<in> set ss. \<exists>h p. server_entry s h p" by blast
    from split_list_first_prop [OF this] obtain bad s rest h p where
        "ss = bad @ s # rest" "server_entry s h p" "\<forall>b \<in> set bad. \<not> (\<exists>h p. server_entry b h p)" by blast
    with d have "names_server document h p token" unfolding names_server_def by blast
    with assms show False by blast
  qed
  have failed: "pick_chat_server ua (str token) (elems servers) = [On_failed]"
    if prems: "member_with document ''code'' is_int = Some code" "num code = 0" "member_with document ''data'' is_object = Some data"
      "member_with data ''token'' is_string = Some token" "member_with data ''host_list'' (is_array_of 0) = Some servers"
    for code data token servers
  proof -
    obtain ss where "servers = JArr ss" using prems(5) by (cases servers) (auto simp: member_with_is is_array_of_def)
    with prems show ?thesis by (auto simp: member_with_is is_int_eq is_string_eq intro: none)
  qed
  show ?thesis using failed by (simp add: parse_bilibili_config_def split: option.split)
qed

section \<open>Callbacks of a fetch\<close>

lemma fetch_action_lists [simp]:
  "fetch_started [] = []" "fetch_replies [] = []" "fetch_started (Start op # as) = op # fetch_started as" "fetch_replies (Start op # as) = fetch_replies as"
  "fetch_started (Reply r # as) = fetch_started as" "fetch_replies (Reply r # as) = r # fetch_replies as"
  "fetch_started (map Reply rs) = []" "fetch_replies (map Reply rs) = rs"
proof -
  show "fetch_replies (map Reply rs) = rs" by (induction rs) (simp_all add: fetch_replies_def)
qed (simp_all add: fetch_started_def fetch_replies_def)

lemma parse_bilibili_config_once: "length (parse_bilibili_config ua result) = Suc 0"
proof (cases result)
  case (Some document)
  then show ?thesis
    using parse_bilibili_config_success [of document _ _ _ ua] parse_bilibili_config_failure [of document ua]
    by (cases "\<exists>host port token. names_server document host port token") auto
qed (simp add: parse_bilibili_config_def)

text \<open>Every handler goes on with one operation or calls back once.\<close>

lemma fetch_step_one:
  assumes "fetch_step parse c op ev = Some as"
  shows "length (fetch_started as) + length (fetch_replies as) = 1"
  using assms
  by (cases "(parse, c, op, ev)" rule: fetch_step.cases)
    (auto simp: fc_on_resolved_def fc_on_connected_def fc_on_ssl_handshake_def
      fc_on_http_req_written_def fc_on_response_def parse_bilibili_config_once split: if_splits)

lemma fetch_steps_count:
  "fetch_steps parse c ops evs = (ops', rs) \<Longrightarrow> length ops' + length rs = length ops"
proof (induction evs arbitrary: ops rs)
  case (Cons ev evs)
  show ?case
  proof (cases "find (\<lambda>op. fetch_step parse c op ev \<noteq> None) ops")
    case (Some op)
    then have op: "op \<in> set ops" "fetch_step parse c op ev \<noteq> None" by (auto simp: find_Some_iff)
    then obtain as where as: "fetch_step parse c op ev = Some as" by blast
    obtain rs' where rs': "fetch_steps parse c (remove1 op ops @ fetch_started as) evs = (ops', rs')" "rs = fetch_replies as @ rs'"
      using Cons.prems Some as by (auto simp: Let_def split: prod.splits)
    have "length (remove1 op ops) + 1 = length ops" using op(1) length_pos_if_in_set [OF op(1)]
      by (simp add: length_remove1)
    with Cons.IH [OF rs'(1)] fetch_step_one [OF as] rs'(2) show ?thesis by simp
  qed (use Cons in simp)
qed simp

text \<open>What a callback says: a failed completion, a bad status, or the verdict on a body.\<close>

fun completion_fails :: "fetch_event \<Rightarrow> bool" where
  "completion_fails (Fe_resolved ec sni_ok) \<longleftrightarrow> ec \<or> \<not> sni_ok"
| "completion_fails (Fe_connected ec) \<longleftrightarrow> ec"
| "completion_fails (Fe_ssl ec) \<longleftrightarrow> ec"
| "completion_fails (Fe_written ec) \<longleftrightarrow> ec"
| "completion_fails (Fe_response ec status body) \<longleftrightarrow> ec \<or> status \<noteq> 200"

lemma fetch_step_callback:
  assumes "fetch_step parse c op ev = Some as" and "r \<in> set (fetch_replies as)"
  shows "completion_fails ev \<and> r = On_failed
    \<or> (\<exists>body. ev = Fe_response False 200 body \<and> r \<in> set (parse_bilibili_config (fc_user_agent c) (parse (c_str body))))"
  using assms
  by (cases "(parse, c, op, ev)" rule: fetch_step.cases)
    (auto simp: fc_on_resolved_def fc_on_connected_def fc_on_ssl_handshake_def
      fc_on_http_req_written_def fc_on_response_def split: if_splits)

lemma fetch_steps_callback:
  "fetch_steps parse c ops evs = (ops', rs) \<Longrightarrow> r \<in> set rs \<Longrightarrow>
     (\<exists>ev \<in> set evs. completion_fails ev) \<and> r = On_failed
     \<or> (\<exists>body. Fe_response False 200 body \<in> set evs
          \<and> r \<in> set (parse_bilibili_config (fc_user_agent c) (parse (c_str body))))"
proof (induction evs arbitrary: ops rs)
  case (Cons ev evs)
  show ?case
  proof (cases "find (\<lambda>op. fetch_step parse c op ev \<noteq> None) ops")
    case None
    with Cons.IH [of ops rs] Cons.prems show ?thesis by auto
  next
    case (Some op)
    then obtain as where as: "fetch_step parse c op ev = Some as" by (auto simp: find_Some_iff)
    obtain rs' where rs': "fetch_steps parse c (remove1 op ops @ fetch_started as) evs = (ops', rs')" "rs = fetch_replies as @ rs'"
      using Cons.prems(1) Some as by (auto simp: Let_def split: prod.splits)
    with fetch_step_callback [OF as, of r] Cons.IH [OF rs'(1)] Cons.prems(2) show ?thesis by auto
  qed
qed simp

end
