(* ===== verification/Bili_Conn_Ws.thy ===== *)
theory Bili_Conn_Ws
  imports Bili_Conn_Tcp Live_Config
begin

text \<open>
  The WebSocket connection to a chat server (src/worker/bili_conn_ws.cpp), the one the worker uses:
  fetching the configuration, resolving, connecting, the two handshakes, joining the room, the
  heartbeat and the reading of whole messages. As for the TCP connection, every handler returns
  the new record and what it asks for; the operations it starts complete later as \<open>ws_event\<close>s.
\<close>

record ws_options =
  chat_server :: bytes
  chat_server_port :: int
  chat_server_endpoint :: bytes
  protocol_ver :: int

record ws_conn =
  ws_room :: int
  ws_token :: bytes
  ws_user_agent :: "bytes option"
  ws_closed :: bool

definition new_ws_conn :: "int \<Rightarrow> ws_conn" where
  "new_ws_conn room_id = \<lparr>ws_room = room_id, ws_token = [], ws_user_agent = None, ws_closed = False\<rparr>"

definition ws_close :: "bool \<Rightarrow> ws_conn \<Rightarrow> ws_conn \<times> 'm site_action list" where
  "ws_close failed c =
     (if ws_closed c then (c, [])
      else (c\<lparr>ws_closed := True\<rparr>,
        [Cancel_timer, Close_socket] @ (if failed then [Room_failed] else []) @ [Room_closed]))"

definition ws_init :: "ws_conn \<Rightarrow> ws_conn \<times> 'm site_action list" where
  "ws_init c = (c, [Fetch_config])"

text \<open>The callback for a failed fetch reports the room but does not close the connection.\<close>

definition ws_on_config_failed :: "ws_conn \<Rightarrow> ws_conn \<times> 'm site_action list" where
  "ws_on_config_failed c = (c, [Room_failed])"

definition ws_on_config_fetched :: "live_config \<Rightarrow> ws_conn \<Rightarrow> ws_conn \<times> 'm site_action list" where
  "ws_on_config_fetched config c =
     (c\<lparr>ws_user_agent := Some (lc_user_agent config), ws_token := lc_token config\<rparr>,
      [Resolve (lc_host config) (decimal_int (lc_port config))])"

definition ws_on_resolved :: "io_result \<Rightarrow> ws_conn \<Rightarrow> ws_conn \<times> 'm site_action list" where
  "ws_on_resolved r c =
     (if r = Io_aborted then (c, [])
      else if r \<noteq> Io_ok then (c, [Room_failed])
      else (c, [Connect_socket]))"

definition ws_on_connected :: "io_result \<Rightarrow> ws_conn \<Rightarrow> ws_conn \<times> 'm site_action list" where
  "ws_on_connected r c =
     (if r = Io_aborted then (c, []) else if r \<noteq> Io_ok then ws_close True c else (c, [Ssl_handshake]))"

definition ws_on_ssl_handshake :: "ws_options \<Rightarrow> io_result \<Rightarrow> ws_conn \<Rightarrow> ws_conn \<times> 'm site_action list" where
  "ws_on_ssl_handshake opts r c =
     (if r = Io_aborted then (c, [])
      else if r \<noteq> Io_ok then ws_close True c
      else (c, [Ws_handshake (chat_server opts @ ascii '':'' @ decimal_int (chat_server_port opts))
                  (chat_server_endpoint opts)]))"

definition ws_start_read :: "ws_conn \<Rightarrow> ws_conn \<times> 'm site_action list" where
  "ws_start_read c = (c, [Start_read 0 0])"

definition ws_on_handshake :: "ws_options \<Rightarrow> io_result \<Rightarrow> ws_conn \<Rightarrow> ws_conn \<times> 'm site_action list" where
  "ws_on_handshake opts r c =
     (if r = Io_aborted then (c, [])
      else if r \<noteq> Io_ok then ws_close True c
      else (case ws_start_read c of (c, as) \<Rightarrow>
        (c, as @ [Send_packet (generate_join_room_packet (ws_room c) (protocol_ver opts) (ws_token c))])))"

text \<open>These two go on after they have closed the connection.\<close>

definition ws_on_join_room_sent :: "io_result \<Rightarrow> ws_conn \<Rightarrow> ws_conn \<times> 'm site_action list" where
  "ws_on_join_room_sent r c =
     (if r = Io_aborted \<or> r = Io_closed then (c, [])
      else (case (if r \<noteq> Io_ok then ws_close True c else (c, [])) of (c, as) \<Rightarrow> (c, as @ [Schedule_timer])))"

definition ws_on_heartbeat_sent :: "io_result \<Rightarrow> ws_conn \<Rightarrow> ws_conn \<times> 'm site_action list" where
  "ws_on_heartbeat_sent r c =
     (if r = Io_aborted \<or> r = Io_closed \<or> r = Io_ok then (c, []) else ws_close True c)"

definition ws_on_heartbeat_tick :: "io_result \<Rightarrow> ws_conn \<Rightarrow> ws_conn \<times> 'm site_action list" where
  "ws_on_heartbeat_tick r c =
     (if r \<noteq> Io_ok then (c, []) else (c, [Send_packet generate_heartbeat_packet, Schedule_timer]))"

text \<open>\<open>msg\<close> is the content of the read buffer, which is cleared before every read and gets a spare byte; the
  returned offset is ignored, so an incomplete packet at the end of a message is dropped.\<close>

definition ws_on_receive ::
    "'m packet_env \<Rightarrow> io_result \<Rightarrow> bytes \<Rightarrow> ws_conn \<Rightarrow> (ws_conn \<times> 'm site_action list) ran" where
  "ws_on_receive env r msg c =
     (if r = Io_aborted \<or> r = Io_closed \<or> r = Io_eof then Ran (c, [])
      else (case (if r \<noteq> Io_ok then ws_close True c else (c, [])) of (c, as) \<Rightarrow>
        (case bili_handle_buffer env (word_of_int (ws_room c)) (length msg + 1) msg (length msg) (length msg) 0 0 of
          None \<Rightarrow> Spins
        | Some (ms, Inl Undefined) \<Rightarrow> Crashed
        | Some (ms, Inl Malformed_packet) \<Rightarrow>
            (case ws_close True c of (c, as') \<Rightarrow> Ran (c, as @ map Room_data ms @ as'))
        | Some (ms, Inr res) \<Rightarrow>
            (case ws_start_read c of (c, as') \<Rightarrow> Ran (c, as @ map Room_data ms @ as')))))"

section \<open>Completions\<close>

datatype ws_event = Config_fetched live_config | Config_failed | Resolved io_result | Connected io_result
  | Ssl_done io_result | Handshake_done io_result | Join_sent io_result | Heartbeat_sent io_result
  | Heartbeat_tick io_result | Ws_message io_result bytes

fun ws_handle ::
    "'m packet_env \<Rightarrow> ws_options \<Rightarrow> ws_event \<Rightarrow> ws_conn \<Rightarrow> (ws_conn \<times> 'm site_action list) ran" where
  "ws_handle env opts (Config_fetched config) c = Ran (ws_on_config_fetched config c)"
| "ws_handle env opts Config_failed c = Ran (ws_on_config_failed c)"
| "ws_handle env opts (Resolved r) c = Ran (ws_on_resolved r c)"
| "ws_handle env opts (Connected r) c = Ran (ws_on_connected r c)"
| "ws_handle env opts (Ssl_done r) c = Ran (ws_on_ssl_handshake opts r c)"
| "ws_handle env opts (Handshake_done r) c = Ran (ws_on_handshake opts r c)"
| "ws_handle env opts (Join_sent r) c = Ran (ws_on_join_room_sent r c)"
| "ws_handle env opts (Heartbeat_sent r) c = Ran (ws_on_heartbeat_sent r c)"
| "ws_handle env opts (Heartbeat_tick r) c = Ran (ws_on_heartbeat_tick r c)"
| "ws_handle env opts (Ws_message r msg) c = ws_on_receive env r msg c"

text \<open>Operations that hold a reference to the connection until they complete.\<close>

fun holds_reference :: "'m site_action \<Rightarrow> bool" where
  "holds_reference Cancel_timer \<longleftrightarrow> False"
| "holds_reference Close_socket \<longleftrightarrow> False"
| "holds_reference Room_failed \<longleftrightarrow> False"
| "holds_reference Room_closed \<longleftrightarrow> False"
| "holds_reference (Room_data m) \<longleftrightarrow> False"
| "holds_reference _ \<longleftrightarrow> True"

text \<open>A handler keeps the room; it closes an open connection exactly when it reports the room closed,
  and a closed one reports neither failure nor closing again.\<close>

definition well_behaved :: "ws_conn \<Rightarrow> ws_conn \<Rightarrow> 'm site_action list \<Rightarrow> bool" where
  "well_behaved c c' as \<longleftrightarrow> ws_room c' = ws_room c \<and> (ws_closed c \<longrightarrow> ws_closed c')
     \<and> (Room_closed \<in> set as \<longleftrightarrow> \<not> ws_closed c \<and> ws_closed c')"

lemma ws_close_behaved: "ws_close f c = (c', as) \<Longrightarrow> well_behaved c c' (as :: 'm site_action list)"
  by (auto simp: ws_close_def well_behaved_def split: if_splits)

lemma ws_close_closed: "ws_close f c = (c', as) \<Longrightarrow> ws_closed c'"
  by (auto simp: ws_close_def split: if_splits)

lemma ws_on_receive_behaved:
  "ws_on_receive env r msg c = Ran (c', as) \<Longrightarrow> well_behaved c c' as"
  by (auto simp: ws_on_receive_def well_behaved_def ws_close_def ws_start_read_def
      split: if_splits option.splits sum.splits packet_stop.splits prod.splits)

lemma ws_handle_behaved: "ws_handle env opts ev c = Ran (c', as) \<Longrightarrow> well_behaved c c' as"
proof (cases ev)
  case (Ws_message r msg)
  then show "ws_handle env opts ev c = Ran (c', as) \<Longrightarrow> ?thesis" using ws_on_receive_behaved by simp
qed (auto simp: well_behaved_def ws_close_def ws_on_config_fetched_def ws_on_config_failed_def
    ws_on_resolved_def ws_on_connected_def ws_on_ssl_handshake_def ws_on_handshake_def
    ws_start_read_def ws_on_join_room_sent_def ws_on_heartbeat_sent_def ws_on_heartbeat_tick_def
    split: if_splits)

end
