(* ===== verification/Bili_Manager.thy ===== *)
theory Bili_Manager
  imports Bili_Conn_Ws
begin

text \<open>
  The connection manager of the worker (src/worker/bilibili_connection_manager.cpp) with the
  life time of its connections: the map from rooms to shared connections, the connections that
  are alive, and the asynchronous operations whose completion handlers hold a reference. A
  connection with no reference left is destroyed, and its destructor closes it, which reports
  the room closed and so erases the entry of the room.
\<close>

section \<open>State\<close>

record 'm room_manager =
  rm_connections :: "(int \<times> nat) list"
  rm_objects :: "(nat \<times> ws_conn) list"
  rm_pending :: "(nat \<times> 'm site_action) list"
  rm_next :: nat

datatype 'm room_output = Failed_room int | Data_of_room int 'm

definition new_room_manager :: "'m room_manager" where
  "new_room_manager = \<lparr>rm_connections = [], rm_objects = [], rm_pending = [], rm_next = 0\<rparr>"

definition on_room_closed :: "int \<Rightarrow> 'm room_manager \<Rightarrow> 'm room_manager" where
  "on_room_closed room_id st = st\<lparr>rm_connections := erase_key room_id (rm_connections st)\<rparr>"

text \<open>What connection \<open>i\<close> of \<open>room_id\<close> asks for.\<close>

fun act :: "nat \<Rightarrow> int \<Rightarrow> 'm site_action \<Rightarrow> 'm room_manager \<Rightarrow> 'm room_manager \<times> 'm room_output list" where
  "act i room_id Room_failed st = (st, [Failed_room room_id])"
| "act i room_id Room_closed st = (on_room_closed room_id st, [])"
| "act i room_id (Room_data m) st = (st, [Data_of_room room_id m])"
| "act i room_id a st =
     (if holds_reference a then st\<lparr>rm_pending := rm_pending st @ [(i, a)]\<rparr> else st, [])"

fun acts :: "nat \<Rightarrow> int \<Rightarrow> 'm site_action list \<Rightarrow> 'm room_manager \<Rightarrow> 'm room_manager \<times> 'm room_output list" where
  "acts i room_id [] st = (st, [])"
| "acts i room_id (a # as) st =
     (case act i room_id a st of (st, out) \<Rightarrow> (case acts i room_id as st of (st, out') \<Rightarrow> (st, out @ out')))"

definition put_object :: "nat \<Rightarrow> ws_conn \<Rightarrow> 'm room_manager \<Rightarrow> 'm room_manager" where
  "put_object i c st = st\<lparr>rm_objects := modify i (\<lambda>_. c) (rm_objects st)\<rparr>"

section \<open>Destruction\<close>

definition referenced :: "'m room_manager \<Rightarrow> nat \<Rightarrow> bool" where
  "referenced st i \<longleftrightarrow> i \<in> set (map snd (rm_connections st)) \<or> i \<in> set (map fst (rm_pending st))"

text \<open>The destructor: \<open>close(false)\<close>, then the object is gone.\<close>

definition destroy :: "nat \<Rightarrow> ws_conn \<Rightarrow> 'm room_manager \<Rightarrow> 'm room_manager" where
  "destroy i c st =
     (case ws_close False c of (c', as) \<Rightarrow>
        (fst (acts i (ws_room c) as st))\<lparr>rm_objects := erase_key i (rm_objects st)\<rparr>)"

definition doomed :: "'m room_manager \<Rightarrow> (nat \<times> ws_conn) option" where
  "doomed st = find (\<lambda>(i, c). \<not> referenced st i) (rm_objects st)"

lemma act_objects: "rm_objects (fst (act i r a st)) = rm_objects st"
  by (cases a) (simp_all add: on_room_closed_def)

lemma acts_objects: "rm_objects (fst (acts i r as st)) = rm_objects st"
proof (induction as arbitrary: st)
  case (Cons a as)
  then show ?case using act_objects [of i r a st] by (simp add: case_prod_beta)
qed simp

lemma doomed_member: "doomed st = Some (i, c) \<Longrightarrow> (i, c) \<in> set (rm_objects st) \<and> \<not> referenced st i"
  by (auto simp: doomed_def find_Some_iff) (metis nth_mem)

lemma doomed_None: "(\<And>i. i \<in> set (keys (rm_objects st)) \<Longrightarrow> referenced st i) \<Longrightarrow> doomed st = None"
  by (force simp: doomed_def find_None_iff)

lemma destroy_objects: "rm_objects (destroy i c st) = erase_key i (rm_objects st)"
  by (simp add: destroy_def case_prod_beta)

function reap :: "'m room_manager \<Rightarrow> 'm room_manager" where
  "reap st = (case doomed st of None \<Rightarrow> st | Some (i, c) \<Rightarrow> reap (destroy i c st))"
  by pat_completeness auto
termination
proof (relation "measure (\<lambda>st. length (rm_objects st))")
  fix st :: "'m room_manager" and x i c
  assume "doomed st = Some x" "(i, c) = x"
  then have "(i, c) \<in> set (rm_objects st)" using doomed_member by metis
  then have "length (erase_key i (rm_objects st)) < length (rm_objects st)"
    unfolding erase_key_def by (intro length_filter_less [of "(i, c)"]) auto
  then show "(destroy i c st, st) \<in> measure (\<lambda>st. length (rm_objects st))"
    by (simp add: destroy_objects)
qed simp

declare reap.simps [simp del]

section \<open>The calls\<close>

text \<open>\<open>emplace\<close> is given a connection that exists already; when the room is still in the map the new
  one is not inserted and dies at the end of the statement.\<close>

definition open_connection :: "int \<Rightarrow> 'm room_manager \<Rightarrow> 'm room_manager" where
  "open_connection room_id st =
     (let st = (case map_of (rm_connections st) room_id of
            None \<Rightarrow> st
          | Some i \<Rightarrow> (case map_of (rm_objects st) i of
              Some c \<Rightarrow> if ws_closed c then reap (on_room_closed room_id st) else st
            | None \<Rightarrow> st));
          i = rm_next st;
          st = st\<lparr>rm_objects := rm_objects st @ [(i, new_ws_conn room_id)], rm_next := i + 1\<rparr>
      in if room_id \<in> set (keys (rm_connections st)) then reap st
         else fst (acts i room_id (snd (ws_init (new_ws_conn room_id)))
           (st\<lparr>rm_connections := rm_connections st @ [(room_id, i)]\<rparr>)))"

definition close_object :: "nat \<Rightarrow> 'm room_manager \<Rightarrow> 'm room_manager" where
  "close_object i st =
     (case map_of (rm_objects st) i of
        None \<Rightarrow> st
      | Some c \<Rightarrow> (case ws_close False c of (c', as) \<Rightarrow>
          reap (fst (acts i (ws_room c) as (put_object i c' st)))))"

definition close_connection :: "int \<Rightarrow> 'm room_manager \<Rightarrow> 'm room_manager" where
  "close_connection room_id st =
     (case map_of (rm_connections st) room_id of None \<Rightarrow> st | Some i \<Rightarrow> close_object i st)"

text \<open>The loop ends only if every \<open>close\<close> takes its entry out of the map.\<close>

partial_function (option) close_all_connections :: "'m room_manager \<Rightarrow> 'm room_manager option" where
  "close_all_connections st =
     (case rm_connections st of
        [] \<Rightarrow> Some st
      | (room_id, i) # cs \<Rightarrow> close_all_connections (close_object i st))"

declare close_all_connections.simps [code]

section \<open>Completions\<close>

definition completes :: "'m site_action \<Rightarrow> ws_event \<Rightarrow> bool" where
  "completes a ev \<longleftrightarrow>
     (case ev of
        Config_fetched config \<Rightarrow> a = Fetch_config
      | Config_failed \<Rightarrow> a = Fetch_config
      | Resolved r \<Rightarrow> (case a of Resolve h p \<Rightarrow> True | _ \<Rightarrow> False)
      | Connected r \<Rightarrow> a = Connect_socket
      | Ssl_done r \<Rightarrow> a = Ssl_handshake
      | Handshake_done r \<Rightarrow> (case a of Ws_handshake h e \<Rightarrow> True | _ \<Rightarrow> False)
      | Join_sent r \<Rightarrow> (case a of Send_packet p \<Rightarrow> p \<noteq> generate_heartbeat_packet | _ \<Rightarrow> False)
      | Heartbeat_sent r \<Rightarrow> a = Send_packet generate_heartbeat_packet
      | Heartbeat_tick r \<Rightarrow> a = Schedule_timer
      | Ws_message r msg \<Rightarrow> (case a of Start_read x y \<Rightarrow> True | _ \<Rightarrow> False))"

definition complete ::
    "'m packet_env \<Rightarrow> ws_options \<Rightarrow> nat \<Rightarrow> 'm site_action \<Rightarrow> ws_event \<Rightarrow> 'm room_manager
      \<Rightarrow> ('m room_manager \<times> 'm room_output list) ran" where
  "complete env opts i a ev st =
     (case map_of (rm_objects st) i of
        None \<Rightarrow> Crashed
      | Some c \<Rightarrow> (case ws_handle env opts ev c of
          Ran (c', as) \<Rightarrow> (case acts i (ws_room c) as (put_object i c' (st\<lparr>rm_pending := remove1 (i, a) (rm_pending st)\<rparr>)) of
            (st', out) \<Rightarrow> Ran (reap st', out))
        | Crashed \<Rightarrow> Crashed
        | Spins \<Rightarrow> Spins))"

text \<open>The end of a fetch that calls neither callback, as when the configuration URL cannot be parsed: the reference in
  its success callback is dropped. In the source this happens within the call that opens the room.\<close>

definition drop_fetch :: "nat \<Rightarrow> 'm room_manager \<Rightarrow> 'm room_manager" where
  "drop_fetch i st = reap (st\<lparr>rm_pending := remove1 (i, Fetch_config) (rm_pending st)\<rparr>)"

inductive rm_step :: "'m packet_env \<Rightarrow> ws_options \<Rightarrow> 'm room_manager \<Rightarrow> 'm room_manager \<Rightarrow> bool"
  for env opts where
  rm_open: "rm_step env opts st (open_connection room_id st)"
| rm_close: "rm_step env opts st (close_connection room_id st)"
| rm_close_all: "close_all_connections st = Some st' \<Longrightarrow> rm_step env opts st st'"
| rm_complete: "(i, a) \<in> set (rm_pending st) \<Longrightarrow> completes a ev \<Longrightarrow>
    complete env opts i a ev st = Ran (st', out) \<Longrightarrow> rm_step env opts st st'"
| rm_drop_fetch: "(i, Fetch_config) \<in> set (rm_pending st) \<Longrightarrow> rm_step env opts st (drop_fetch i st)"

section \<open>The invariant\<close>

text \<open>
  Every entry of the map is a live connection of that room that has not been closed; every pending
  operation belongs to a live connection.
\<close>

definition rm_inv :: "'m room_manager \<Rightarrow> bool" where
  "rm_inv st \<longleftrightarrow> distinct (keys (rm_objects st)) \<and> distinct (keys (rm_connections st))
     \<and> (\<forall>i \<in> set (keys (rm_objects st)). i < rm_next st)
     \<and> (\<forall>(r, i) \<in> set (rm_connections st). \<exists>c. map_of (rm_objects st) i = Some c \<and> ws_room c = r \<and> \<not> ws_closed c)
     \<and> (\<forall>(i, a) \<in> set (rm_pending st). i \<in> set (keys (rm_objects st)))"

definition all_referenced :: "'m room_manager \<Rightarrow> bool" where
  "all_referenced st \<longleftrightarrow> (\<forall>i \<in> set (keys (rm_objects st)). referenced st i)"

text \<open>The effect of a list of actions on the state.\<close>

lemma acts_state:
  "fst (acts i r as st) = st\<lparr>rm_connections := (if Room_closed \<in> set as then erase_key r (rm_connections st) else rm_connections st),
     rm_pending := rm_pending st @ map (Pair i) (filter holds_reference as)\<rparr>"
proof (induction as arbitrary: st)
  case (Cons a as)
  have "erase_key r (erase_key r m) = erase_key r m" for m :: "(int \<times> nat) list"
    by (rule erase_key_absent) simp
  then show ?case
    by (cases a) (simp_all add: case_prod_beta Cons on_room_closed_def)
qed simp

lemma rm_invD:
  assumes "rm_inv st"
  shows "distinct (keys (rm_objects st))" and "distinct (keys (rm_connections st))"
    and "i \<in> set (keys (rm_objects st)) \<Longrightarrow> i < rm_next st"
    and "(r, i) \<in> set (rm_connections st) \<Longrightarrow> \<exists>c. map_of (rm_objects st) i = Some c \<and> ws_room c = r \<and> \<not> ws_closed c"
    and "(i, a) \<in> set (rm_pending st) \<Longrightarrow> i \<in> set (keys (rm_objects st))"
  using assms unfolding rm_inv_def by blast+

lemma rm_invI:
  assumes "distinct (keys (rm_objects st))" and "distinct (keys (rm_connections st))"
    and "\<And>i. i \<in> set (keys (rm_objects st)) \<Longrightarrow> i < rm_next st"
    and "\<And>r i. (r, i) \<in> set (rm_connections st) \<Longrightarrow> \<exists>c. map_of (rm_objects st) i = Some c \<and> ws_room c = r \<and> \<not> ws_closed c"
    and "\<And>i a. (i, a) \<in> set (rm_pending st) \<Longrightarrow> i \<in> set (keys (rm_objects st))"
  shows "rm_inv st"
  unfolding rm_inv_def using assms by blast

lemma acts_inv:
  assumes "rm_inv st" and "map_of (rm_objects st) i = Some c" and "well_behaved c c' as"
  shows "rm_inv (fst (acts i (ws_room c) as (put_object i c' st)))"
proof -
  have room: "ws_room c' = ws_room c" and closed: "ws_closed c' \<Longrightarrow> ws_closed c \<or> Room_closed \<in> set as"
    using assms(3) by (auto simp: well_behaved_def)
  have key: "i \<in> set (keys (rm_objects st))" using assms(2) by (rule map_of_Some_keys)
  have entry: "\<exists>d. map_of (modify i (\<lambda>_. c') (rm_objects st)) j = Some d \<and> ws_room d = r \<and> \<not> ws_closed d"
    if conn: "(r, j) \<in> set (rm_connections st)" and kept: "Room_closed \<in> set as \<Longrightarrow> r \<noteq> ws_room c" for r j
  proof -
    obtain d where d: "map_of (rm_objects st) j = Some d" "ws_room d = r" "\<not> ws_closed d"
      using rm_invD(4) [OF assms(1) conn] by blast
    show ?thesis
    proof (cases "j = i")
      case True
      with d assms(2) have "c = d" by simp
      with d closed kept have "\<not> ws_closed c'" by blast
      with True d(2) \<open>c = d\<close> room assms(2) show ?thesis by simp
    qed (use d in simp)
  qed
  show ?thesis unfolding rm_inv_def acts_state put_object_def
    using rm_invD [OF assms(1)] key entry
    by (intro conjI ballI) (auto split: if_splits)
qed

lemma destroy_inv:
  fixes st :: "'m room_manager"
  assumes "rm_inv st" and "doomed st = Some (i, c)"
  shows "rm_inv (destroy i c st)"
proof -
  from doomed_member [OF assms(2)] have un: "\<not> referenced st i" by simp
  obtain c' and as :: "'m site_action list" where close: "ws_close False c = (c', as)" by (metis surj_pair)
  then have "filter holds_reference as = []" by (auto simp: ws_close_def split: if_splits)
  then have eq: "destroy i c st = st\<lparr>rm_connections := (if Room_closed \<in> set as then erase_key (ws_room c) (rm_connections st) else rm_connections st),
      rm_objects := erase_key i (rm_objects st)\<rparr>"
    by (simp add: destroy_def close acts_state)
  have other: "(r, j) \<in> set (rm_connections st) \<Longrightarrow> j \<noteq> i" "(j, a) \<in> set (rm_pending st) \<Longrightarrow> j \<noteq> i" for r j a
    using un by (force simp: referenced_def)+
  have entry: "\<exists>d. map_of (erase_key i (rm_objects st)) j = Some d \<and> ws_room d = r \<and> \<not> ws_closed d"
    if "(r, j) \<in> set (rm_connections st)" for r j
    using rm_invD(4) [OF assms(1) that] other(1) [OF that] by (simp add: map_of_erase_key)
  have "j \<in> set (keys (erase_key i (rm_objects st)))" if "(j, a) \<in> set (rm_pending st)" for j a
    using rm_invD(5) [OF assms(1) that] other(2) [OF that] by simp
  then show ?thesis unfolding rm_inv_def eq
    using rm_invD(1-3) [OF assms(1)] entry
    by (intro conjI ballI; clarsimp split: if_splits; blast?)
qed

lemma reap_None: "doomed st = None \<Longrightarrow> reap st = st"
  by (simp add: reap.simps [of st])

lemma reap_Some: "doomed st = Some (i, c) \<Longrightarrow> reap st = reap (destroy i c st)"
  by (simp add: reap.simps [of st])

lemma reap_inv: "rm_inv st \<Longrightarrow> rm_inv (reap st) \<and> all_referenced (reap st)"
proof (induction "length (rm_objects st)" arbitrary: st rule: less_induct)
  case less
  show ?case
  proof (cases "doomed st")
    case None
    then have "all_referenced st" by (auto simp: doomed_def all_referenced_def find_None_iff)
    with less.prems None show ?thesis by (simp add: reap_None)
  next
    case (Some d)
    then obtain i c where d: "doomed st = Some (i, c)" by (cases d) auto
    have "length (rm_objects (destroy i c st)) < length (rm_objects st)"
      using doomed_member [OF d] unfolding destroy_objects erase_key_def
      by (intro length_filter_less [of "(i, c)"]) auto
    from less.hyps [OF this destroy_inv [OF less.prems d]] show ?thesis by (simp add: reap_Some [OF d])
  qed
qed

text \<open>Destruction only takes entries out of the map and starts nothing.\<close>

lemma destroy_shrinks:
  "set (rm_connections (destroy i c st)) \<subseteq> set (rm_connections st)"
  "rm_pending (destroy i c (st :: 'm room_manager)) = rm_pending st" "rm_next (destroy i c st) = rm_next st"
proof -
  obtain c' and as :: "'m site_action list" where close: "ws_close False c = (c', as)" by (metis surj_pair)
  then have "filter holds_reference as = []" by (auto simp: ws_close_def split: if_splits)
  then show "set (rm_connections (destroy i c st)) \<subseteq> set (rm_connections st)"
    "rm_pending (destroy i c st) = rm_pending st" "rm_next (destroy i c st) = rm_next st"
    by (auto simp: destroy_def close acts_state)
qed

lemma reap_shrinks:
  "set (rm_connections (reap st)) \<subseteq> set (rm_connections st) \<and> rm_pending (reap st) = rm_pending st
     \<and> rm_next (reap st) = rm_next st"
proof (induction "length (rm_objects st)" arbitrary: st rule: less_induct)
  case less
  show ?case
  proof (cases "doomed st")
    case (Some d)
    then obtain i c where d: "doomed st = Some (i, c)" by (cases d) auto
    have "length (rm_objects (destroy i c st)) < length (rm_objects st)"
      using doomed_member [OF d] unfolding destroy_objects erase_key_def
      by (intro length_filter_less [of "(i, c)"]) auto
    from less.hyps [OF this] destroy_shrinks [of i c st] show ?thesis by (auto simp: reap_Some [OF d])
  qed (simp add: reap_None)
qed

definition rm_ok :: "'m room_manager \<Rightarrow> bool" where
  "rm_ok st \<longleftrightarrow> rm_inv st \<and> all_referenced st"

lemma close_object_ok:
  fixes st :: "'m room_manager"
  assumes "rm_ok st"
  shows "rm_ok (close_object i st)"
proof (cases "map_of (rm_objects st) i")
  case None
  with assms show ?thesis by (simp add: close_object_def)
next
  case (Some c)
  obtain c' and as :: "'m site_action list" where close: "ws_close False c = (c', as)" by (metis surj_pair)
  from acts_inv [OF _ Some ws_close_behaved [OF close]] assms
  show ?thesis by (simp add: close_object_def Some close rm_ok_def reap_inv)
qed

lemma close_object_entry:
  assumes "rm_ok st" and "(r, i) \<in> set (rm_connections st)"
  shows "set (rm_connections (close_object i st)) \<subseteq> set (rm_connections st)"
    and "r \<notin> set (keys (rm_connections (close_object i (st :: 'm room_manager))))"
proof -
  obtain c where c: "map_of (rm_objects st) i = Some c" "ws_room c = r" "\<not> ws_closed c"
    using rm_invD(4) [of st] assms by (auto simp: rm_ok_def)
  obtain c' and as :: "'m site_action list" where close: "ws_close False c = (c', as)" by (metis surj_pair)
  then have "Room_closed \<in> set as" using c(3) by (auto simp: ws_close_def)
  then have eq: "rm_connections (fst (acts i r as (put_object i c' st))) = erase_key r (rm_connections st)"
    by (simp add: acts_state put_object_def)
  have "set (rm_connections (close_object i st)) \<subseteq> set (erase_key r (rm_connections st))"
    using reap_shrinks [of "fst (acts i r as (put_object i c' st))"]
    by (simp add: close_object_def c(1,2) close eq)
  then show "set (rm_connections (close_object i st)) \<subseteq> set (rm_connections st)"
    "r \<notin> set (keys (rm_connections (close_object i st)))" by auto
qed

lemma close_connection_ok: "rm_ok st \<Longrightarrow> rm_ok (close_connection room_id st)"
  by (simp add: close_connection_def close_object_ok split: option.split)

lemma close_all_returns:
  assumes "rm_ok st"
  shows "\<exists>st'. close_all_connections st = Some st' \<and> rm_ok st' \<and> rm_connections st' = []"
  using assms
proof (induction "card (set (rm_connections st))" arbitrary: st rule: less_induct)
  case less
  show ?case
  proof (cases "rm_connections st")
    case Nil
    with less.prems show ?thesis by (simp add: close_all_connections.simps)
  next
    case (Cons p cs)
    obtain r i where p: "p = (r, i)" by (cases p)
    then have entry: "(r, i) \<in> set (rm_connections st)" using Cons by simp
    have "(r, i) \<notin> set (rm_connections (close_object i st))"
      using close_object_entry(2) [OF less.prems entry] by force
    with close_object_entry(1) [OF less.prems entry] entry
    have "card (set (rm_connections (close_object i st))) < card (set (rm_connections st))"
      by (intro psubset_card_mono) auto
    from less.hyps [OF this close_object_ok [OF less.prems]] show ?thesis
      by (subst close_all_connections.simps) (simp add: Cons p)
  qed
qed

lemma new_object_inv:
  assumes "rm_inv st"
  shows "rm_inv (st\<lparr>rm_objects := rm_objects st @ [(rm_next st, c)], rm_next := rm_next st + 1\<rparr>)"
proof -
  note inv = rm_invD [OF assms]
  have fresh: "rm_next st \<notin> set (keys (rm_objects st))" using inv(3) by blast
  have "map_of (rm_objects st @ [(rm_next st, c)]) i = map_of (rm_objects st) i" if "i \<in> set (keys (rm_objects st))" for i
    using keys_map_of [OF that] by (auto simp: map_add_def)
  then have entry: "\<exists>d. map_of (rm_objects st @ [(rm_next st, c)]) i = Some d \<and> ws_room d = r \<and> \<not> ws_closed d"
    if "(r, i) \<in> set (rm_connections st)" for r i
    using inv(4) [OF that] map_of_Some_keys by metis
  have "i < rm_next st + 1" if "i \<in> set (keys (rm_objects st @ [(rm_next st, c)]))" for i
    using that inv(3) by (auto simp: less_Suc_eq)
  then show ?thesis unfolding rm_inv_def
    using inv(1,2,5) entry fresh by (intro conjI ballI; clarsimp; blast?)
qed

lemma open_existing:
  assumes "rm_ok st" and "map_of (rm_connections st) room_id = Some i"
  shows "open_connection room_id st =
    reap (st\<lparr>rm_objects := rm_objects st @ [(rm_next st, new_ws_conn room_id)], rm_next := rm_next st + 1\<rparr>)"
proof -
  have "(room_id, i) \<in> set (rm_connections st)" using assms(2) by (rule map_of_SomeD)
  then obtain c where "map_of (rm_objects st) i = Some c" "\<not> ws_closed c"
    using rm_invD(4) [of st] assms(1) by (auto simp: rm_ok_def)
  moreover have "room_id \<in> set (keys (rm_connections st))" using assms(2) by (rule map_of_Some_keys)
  ultimately show ?thesis by (simp add: open_connection_def assms(2) Let_def)
qed

lemma open_fresh:
  assumes "map_of (rm_connections st) room_id = None"
  shows "open_connection room_id st = st\<lparr>rm_objects := rm_objects st @ [(rm_next st, new_ws_conn room_id)],
    rm_next := rm_next st + 1, rm_connections := rm_connections st @ [(room_id, rm_next st)],
    rm_pending := rm_pending st @ [(rm_next st, Fetch_config)]\<rparr>"
proof -
  have "room_id \<notin> set (keys (rm_connections st))" using assms by (simp add: map_of_None_keys)
  with assms show ?thesis by (simp add: open_connection_def Let_def ws_init_def acts_state)
qed

lemma open_connection_ok:
  assumes "rm_ok st"
  shows "rm_ok (open_connection room_id st)"
proof (cases "map_of (rm_connections st) room_id")
  case None
  let ?st = "st\<lparr>rm_objects := rm_objects st @ [(rm_next st, new_ws_conn room_id)], rm_next := rm_next st + 1\<rparr>"
  have inv: "rm_inv ?st" and refs: "all_referenced st"
    using assms new_object_inv unfolding rm_ok_def by blast+
  have fresh: "room_id \<notin> set (keys (rm_connections st))" using None by (simp add: map_of_None_keys)
  have "rm_next st \<notin> set (keys (rm_objects st))" using rm_invD(3) [of st] assms by (auto simp: rm_ok_def)
  then have "map_of (rm_objects st) (rm_next st) = None" by (simp only: map_of_None_keys not_False_eq_True)
  then have "map_of (rm_objects ?st) (rm_next st) = Some (new_ws_conn room_id)" by (simp add: map_add_def)
  then have new: "\<exists>c. map_of (rm_objects ?st) i = Some c \<and> ws_room c = r \<and> \<not> ws_closed c"
    if "(r, i) = (room_id, rm_next st)" for r i
    using that by (simp add: new_ws_conn_def)
  have "rm_inv (?st\<lparr>rm_connections := rm_connections ?st @ [(room_id, rm_next st)],
      rm_pending := rm_pending ?st @ [(rm_next st, Fetch_config)]\<rparr>)" (is "rm_inv ?st2")
  proof (rule rm_invI)
    show "distinct (keys (rm_connections ?st2))" using rm_invD(2) [OF inv] fresh by simp
    show "i < rm_next ?st2" if "i \<in> set (keys (rm_objects ?st2))" for i
      using rm_invD(3) [OF inv, of i] that by simp
    show "distinct (keys (rm_objects ?st2))" using rm_invD(1) [OF inv] by simp
    show "\<exists>c. map_of (rm_objects ?st2) i = Some c \<and> ws_room c = r \<and> \<not> ws_closed c"
      if "(r, i) \<in> set (rm_connections ?st2)" for r i
    proof (cases "(r, i) = (room_id, rm_next st)")
      case True
      from new [OF this] show ?thesis by simp
    next
      case False
      with that have "(r, i) \<in> set (rm_connections ?st)" by auto
      from rm_invD(4) [OF inv this] show ?thesis by simp
    qed
    show "i \<in> set (keys (rm_objects ?st2))" if "(i, a) \<in> set (rm_pending ?st2)" for i a
      using that rm_invD(5) [OF inv, of i a] by auto
  qed
  moreover have "all_referenced (open_connection room_id st)"
    using refs by (auto simp: open_fresh [OF None] all_referenced_def referenced_def)
  ultimately show ?thesis by (simp add: rm_ok_def open_fresh [OF None])
next
  case (Some i)
  have "rm_inv (st\<lparr>rm_objects := rm_objects st @ [(rm_next st, new_ws_conn room_id)], rm_next := rm_next st + 1\<rparr>)"
    using assms new_object_inv unfolding rm_ok_def by blast
  from reap_inv [OF this] show ?thesis by (simp add: rm_ok_def open_existing [OF assms Some])
qed

text \<open>Opening a room that is in the map takes it out of the map and starts no operation.\<close>

lemma open_existing_drops:
  assumes "rm_ok st" and "room_id \<in> set (keys (rm_connections st))"
  shows "room_id \<notin> set (keys (rm_connections (open_connection room_id st)))"
    and "rm_pending (open_connection room_id (st :: 'm room_manager)) = rm_pending st"
proof -
  from assms(2) obtain i where "map_of (rm_connections st) room_id = Some i" using keys_map_of by metis
  note eq = open_existing [OF assms(1) this]
  let ?c = "new_ws_conn room_id"
  let ?st = "st\<lparr>rm_objects := rm_objects st @ [(rm_next st, ?c)], rm_next := rm_next st + 1\<rparr>"
  have inv: "rm_inv st" and refs: "all_referenced st" using assms(1) by (simp_all add: rm_ok_def)
  have fresh: "rm_next st \<notin> set (keys (rm_objects st))" using rm_invD(3) [OF inv] by blast
  have "(r, rm_next st) \<notin> set (rm_connections st)" "(rm_next st, a) \<notin> set (rm_pending st)" for r a
    using rm_invD(4) [OF inv, of r "rm_next st"] rm_invD(5) [OF inv, of "rm_next st" a] fresh
      map_of_Some_keys [of "rm_objects st" "rm_next st"] by blast+
  then have "\<not> referenced st (rm_next st)" by (auto simp: referenced_def)
  moreover have "\<And>x. x \<in> set (rm_objects st) \<Longrightarrow> referenced ?st (fst x)"
    using refs by (simp add: all_referenced_def referenced_def)
  then have "find (\<lambda>(i, c). \<not> referenced ?st i) (rm_objects st) = None"
    unfolding find_None_iff by (metis (no_types, lifting) case_prod_beta)
  moreover have "find P (xs @ [x]) = (case find P xs of None \<Rightarrow> if P x then Some x else None | Some y \<Rightarrow> Some y)"
    for P and xs :: "(nat \<times> ws_conn) list" and x
    by (induction xs) auto
  ultimately have "doomed ?st = Some (rm_next st, ?c)" by (simp add: doomed_def referenced_def)
  from reap_Some [OF this] have eq2: "open_connection room_id st = reap (destroy (rm_next st) ?c ?st)"
    by (simp add: eq)
  have "rm_connections (destroy (rm_next st) ?c ?st) = erase_key room_id (rm_connections st)"
    by (simp add: destroy_def ws_close_def new_ws_conn_def acts_state)
  with reap_shrinks [of "destroy (rm_next st) ?c ?st"] show "room_id \<notin> set (keys (rm_connections (open_connection room_id st)))"
    unfolding eq2 by auto
  show "rm_pending (open_connection room_id st) = rm_pending st"
    using reap_shrinks [of "destroy (rm_next st) ?c ?st"] destroy_shrinks(2) [of "rm_next st" ?c ?st]
    by (simp add: eq2)
qed

text \<open>Destroying connections that were closed before leaves the map as it is.\<close>

lemma reap_closed:
  assumes "\<And>j c. (j, c) \<in> set (rm_objects st) \<Longrightarrow> \<not> referenced st j \<Longrightarrow> ws_closed c"
  shows "rm_connections (reap (st :: 'm room_manager)) = rm_connections st"
  using assms
proof (induction "length (rm_objects st)" arbitrary: st rule: less_induct)
  case less
  show ?case
  proof (cases "doomed st")
    case (Some d)
    then obtain i c where d: "doomed st = Some (i, c)" by (cases d) auto
    note gone = doomed_member [OF d]
    with less.prems have "ws_closed c" by blast
    then have eq: "destroy i c st = st\<lparr>rm_objects := erase_key i (rm_objects st)\<rparr>"
      by (simp add: destroy_def ws_close_def)
    have shorter: "length (rm_objects (destroy i c st)) < length (rm_objects st)"
      using gone unfolding destroy_objects erase_key_def by (intro length_filter_less [of "(i, c)"]) auto
    have "rm_connections (reap (destroy i c st)) = rm_connections (destroy i c st)"
      by (rule less.hyps [OF shorter]) (use less.prems in \<open>auto simp: eq referenced_def\<close>)
    then show ?thesis by (simp add: reap_Some [OF d] eq)
  qed (simp add: reap_None)
qed

lemma close_object_connections:
  assumes "rm_ok st" and "(r, i) \<in> set (rm_connections st)"
  shows "rm_connections (close_object i (st :: 'm room_manager)) = erase_key r (rm_connections st)"
proof -
  have inv: "rm_inv st" and refs: "all_referenced st" using assms(1) by (simp_all add: rm_ok_def)
  obtain c where c: "map_of (rm_objects st) i = Some c" "ws_room c = r" "\<not> ws_closed c"
    using rm_invD(4) [OF inv assms(2)] by blast
  obtain c' and as :: "'m site_action list" where close: "ws_close False c = (c', as)" by (metis surj_pair)
  let ?st = "fst (acts i r as (put_object i c' st))"
  have eq: "rm_connections ?st = erase_key r (rm_connections st)" "rm_objects ?st = modify i (\<lambda>_. c') (rm_objects st)"
      "rm_pending ?st = rm_pending st"
    using close c(3) by (auto simp: ws_close_def acts_state put_object_def)
  have only: "i = j" if "(r, j) \<in> set (rm_connections st)" for j
    using that assms(2) rm_invD(2) [OF inv] by (metis eq_key_imp_eq_value)
  have "ws_closed d" if obj: "(j, d) \<in> set (rm_objects ?st)" and un: "\<not> referenced ?st j" for j d
  proof -
    have "j \<in> set (keys (rm_objects ?st))" using obj by force
    then have "referenced st j" using refs by (auto simp: eq all_referenced_def)
    with un have "(r, j) \<in> set (rm_connections st)" by (auto simp: referenced_def eq)
    then have "j = i" using only by blast
    with obj have "(i, d) \<in> set (modify i (\<lambda>_. c') (rm_objects st))" by (simp only: eq)
    then show ?thesis using ws_close_closed [OF close] by (auto elim: in_modifyE)
  qed
  then have "rm_connections (reap ?st) = rm_connections ?st" by (rule reap_closed)
  then show ?thesis by (simp add: close_object_def c(1,2) close eq)
qed

lemma close_connection_keys:
  assumes "rm_ok st"
  shows "set (keys (rm_connections (close_connection r (st :: 'm room_manager)))) = set (keys (rm_connections st)) - {r}"
proof (cases "map_of (rm_connections st) r")
  case None
  then have "r \<notin> set (keys (rm_connections st))" by (simp only: map_of_None_keys not_False_eq_True)
  with None show ?thesis by (simp add: close_connection_def)
next
  case (Some i)
  from close_object_connections [OF assms map_of_SomeD [OF Some]]
  have "keys (rm_connections (close_connection r st)) = filter (\<lambda>k. k \<noteq> r) (keys (rm_connections st))"
    by (simp add: close_connection_def Some)
  then show ?thesis by (simp only: set_filter) auto
qed

lemma open_connection_keys:
  "r \<notin> set (keys (rm_connections st)) \<Longrightarrow>
    set (keys (rm_connections (open_connection r st))) = insert r (set (keys (rm_connections st)))"
  by (subst open_fresh) (simp_all only: map_of_None_keys not_False_eq_True, simp)

lemma remove_pending_inv:
  assumes "rm_inv st"
  shows "rm_inv (st\<lparr>rm_pending := remove1 x (rm_pending st)\<rparr>)"
proof -
  note inv = rm_invD [OF assms]
  have "j \<in> set (keys (rm_objects st))" if "(j, b) \<in> set (remove1 x (rm_pending st))" for j b
    using inv(5) that by (metis notin_set_remove1)
  then show ?thesis
    unfolding rm_inv_def using inv(1-4) by (intro conjI ballI; clarsimp; blast?)
qed

lemma drop_fetch_ok: "rm_ok st \<Longrightarrow> rm_ok (drop_fetch i st)"
  using reap_inv [OF remove_pending_inv [of st "(i, Fetch_config)"]] by (simp add: rm_ok_def drop_fetch_def)

lemma complete_ok:
  assumes "rm_ok st" and "complete env opts i a ev st = Ran (st', out)"
  shows "rm_ok st'"
proof -
  let ?st = "st\<lparr>rm_pending := remove1 (i, a) (rm_pending st)\<rparr>"
  have "rm_inv st" using assms(1) by (simp add: rm_ok_def)
  then have inv: "rm_inv ?st" by (rule remove_pending_inv)
  from assms(2) obtain c c' as where c: "map_of (rm_objects st) i = Some c" "ws_handle env opts ev c = Ran (c', as)"
      "st' = reap (fst (acts i (ws_room c) as (put_object i c' ?st)))"
    by (auto simp: complete_def split: option.splits ran.splits prod.splits)
  have "rm_inv (fst (acts i (ws_room c) as (put_object i c' ?st)))"
    using acts_inv [OF inv _ ws_handle_behaved [OF c(2)], of i] c(1) by simp
  from reap_inv [OF this] show ?thesis by (simp add: rm_ok_def c(3))
qed

lemma rm_step_ok: "rm_step env opts st st' \<Longrightarrow> rm_ok st \<Longrightarrow> rm_ok st'"
proof (induction rule: rm_step.induct)
  case (rm_close_all st st')
  with close_all_returns [of st] show ?case by auto
qed (auto intro: open_connection_ok close_connection_ok complete_ok drop_fetch_ok)

interpretation rooms: invariant_system "\<lambda>st. st = new_room_manager" "rm_step env opts" rm_ok for env opts
proof
  show "rm_ok st" if "st = new_room_manager" for st :: "'a room_manager"
    using that by (simp add: rm_ok_def rm_inv_def all_referenced_def new_room_manager_def)
qed (rule rm_step_ok)

end
