(* ===== verification/Rooms_Props.thy ===== *)
theory Rooms_Props
  imports Bili_Manager Bili_Props
begin

text \<open>
  The properties of the worker's rooms: fetching the chat server, the map of connections in every
  reachable state, the closing of all rooms, and what becomes of a room whose fetch has failed.
\<close>

definition demo_config_json :: json where
  "demo_config_json = JObj [(ascii ''code'', JInt 0), (ascii ''data'', JObj [(ascii ''token'', JStr [65]),
     (ascii ''host_list'', JArr [JNull, JObj [(ascii ''host'', JStr [66]), (ascii ''wss_port'', JInt 443)]])])]"

definition demo_fetch :: fetch_context where
  "demo_fetch = \<lparr>fc_host = [67], fc_endpoint = [47], fc_user_agent = [68], fc_referer = []\<rparr>"

text \<open>C32 One reply per fetch. However the operations of a fetch complete, its callbacks are called
  once in total: not before it has ended, exactly once when it has; but a URL that cannot be parsed starts nothing and
  calls neither. A success carries the first server entry and the token of a response that came with status 200; a
  failure means that an operation failed, that the status was another, or that the response names no server.\<close>

theorem config_fetch_replies_once:
  assumes "fetch_run parse_uri url_of user_agent referer room_id parse evs = (ops, replies)"
  shows "(if parse_uri (url_of room_id) = None then ops = [] \<and> replies = [] else length ops + length replies = 1)
    \<and> (\<forall>config. replies = [On_success config] \<longrightarrow> lc_user_agent config = user_agent
        \<and> (\<exists>body document. Fe_response False 200 body \<in> set evs \<and> parse (c_str body) = Some document
            \<and> names_server document (lc_host config) (lc_port config) (lc_token config)))
    \<and> (replies = [On_failed] \<longrightarrow> (\<exists>ev \<in> set evs. completion_fails ev)
        \<or> (\<exists>body. Fe_response False 200 body \<in> set evs
            \<and> (\<forall>document host port token. parse (c_str body) = Some document
                \<longrightarrow> \<not> names_server document host port token)))"
proof (cases "async_fetch_bilibili_live_config parse_uri url_of user_agent referer room_id")
  case None
  then have "parse_uri (url_of room_id) = None"
    by (auto simp: async_fetch_bilibili_live_config_def Let_def split: option.splits)
  with None assms show ?thesis by (simp add: fetch_run_def)
next
  case (Some x)
  obtain c op where x: "x = (c, op)" by (cases x)
  with Some have c: "parse_uri (url_of room_id) \<noteq> None" "fc_user_agent c = user_agent"
    by (auto simp: async_fetch_bilibili_live_config_def Let_def split: option.splits)
  have run: "fetch_steps parse c [op] evs = (ops, replies)" using assms Some x by (simp add: fetch_run_def)
  note said = fetch_steps_callback [OF run, unfolded c(2)]
  have verdict: "(case r of On_success config \<Rightarrow> \<exists>document. result = Some document \<and> lc_user_agent config = user_agent
        \<and> names_server document (lc_host config) (lc_port config) (lc_token config)
      | On_failed \<Rightarrow> \<forall>document host port token. result = Some document \<longrightarrow> \<not> names_server document host port token)"
    if r: "r \<in> set (parse_bilibili_config user_agent result)" for r result
  proof (cases "\<exists>document host port token. result = Some document \<and> names_server document host port token")
    case True
    with r show ?thesis by (auto simp: parse_bilibili_config_success)
  next
    case False
    then have "parse_bilibili_config user_agent result = [On_failed]"
      using parse_bilibili_config_failure by (cases result) (auto simp: parse_bilibili_config_def)
    with r False show ?thesis by auto
  qed
  have success: "lc_user_agent config = user_agent
      \<and> (\<exists>body document. Fe_response False 200 body \<in> set evs \<and> parse (c_str body) = Some document
          \<and> names_server document (lc_host config) (lc_port config) (lc_token config))"
    if "replies = [On_success config]" for config
    using said [of "On_success config"] verdict [of "On_success config"] that by fastforce
  have failure: "(\<exists>ev \<in> set evs. completion_fails ev)
      \<or> (\<exists>body. Fe_response False 200 body \<in> set evs
          \<and> (\<forall>document host port token. parse (c_str body) = Some document
              \<longrightarrow> \<not> names_server document host port token))"
    if "replies = [On_failed]"
    using said [of On_failed] verdict [of On_failed] that by fastforce
  have "if parse_uri (url_of room_id) = None then ops = [] \<and> replies = [] else length ops + length replies = 1"
    using fetch_steps_count [OF run] c(1) by auto
  with success failure show ?thesis by blast
qed

theorem config_fetch_replies_once_witness:
  "(case fetch_run (\<lambda>_. Some \<lparr>uri_host = [67], uri_port = [], uri_path = [], uri_query = []\<rparr>) (\<lambda>_. []) [68] [] 7
      (\<lambda>_. Some demo_config_json)
      [Fe_resolved False True, Fe_connected False, Fe_ssl False, Fe_written False, Fe_response False 200 []] of
     (ops, replies) \<Rightarrow> length ops + length replies = 1)
   \<and> snd (fetch_run (\<lambda>_. None) (\<lambda>_. []) [68] [] 7 (\<lambda>_. None) [Fe_resolved True True]) = []"
proof -
  obtain ops replies ops' replies' where
      run: "fetch_run (\<lambda>_. Some \<lparr>uri_host = [67], uri_port = [], uri_path = [], uri_query = []\<rparr>) (\<lambda>_. []) [68] [] 7
          (\<lambda>_. Some demo_config_json)
          [Fe_resolved False True, Fe_connected False, Fe_ssl False, Fe_written False, Fe_response False 200 []]
        = (ops, replies)"
      and none: "fetch_run (\<lambda>_. None) (\<lambda>_. []) [68] [] 7 (\<lambda>_. None) [Fe_resolved True True] = (ops', replies')"
    by (metis surj_pair)
  from config_fetch_replies_once [OF run] config_fetch_replies_once [OF none] show ?thesis
    unfolding run none by simp
qed

text \<open>C11 The rooms of a worker. In every reachable state a room in the map leads to a live connection
  of that room which has not been closed, and every connection that is alive is in the map or
  has an operation in progress.\<close>

theorem rooms_consistent:
  assumes "reach (\<lambda>st. st = new_room_manager) (rm_step env opts) st"
  shows "(\<forall>room i. map_of (rm_connections st) room = Some i \<longrightarrow>
      (\<exists>c. map_of (rm_objects st) i = Some c \<and> ws_room c = room \<and> \<not> ws_closed c))
    \<and> (\<forall>i. i \<in> set (keys (rm_objects st)) \<longrightarrow>
      i \<in> set (map snd (rm_connections st)) \<or> i \<in> set (map fst (rm_pending st)))"
proof -
  have ok: "rm_ok st" by (rule rooms.inv_reach [OF assms])
  then have "rm_inv st" and refs: "all_referenced st" by (simp_all add: rm_ok_def)
  with rm_invD(4) [OF \<open>rm_inv st\<close>] show ?thesis
    by (metis all_referenced_def map_of_SomeD referenced_def)
qed

definition demo_opts :: ws_options where
  "demo_opts = \<lparr>chat_server = [], chat_server_port = 443, chat_server_endpoint = [], protocol_ver = 2\<rparr>"

definition one_room :: "bytes room_manager" where
  "one_room = open_connection 7 new_room_manager"

lemma one_room_eq: "one_room = \<lparr>rm_connections = [(7, 0)], rm_objects = [(0, new_ws_conn 7)],
    rm_pending = [(0, Fetch_config)], rm_next = 1\<rparr>"
  by (simp add: one_room_def open_fresh new_room_manager_def)

lemma one_room_reach: "reach (\<lambda>st. st = new_room_manager) (rm_step demo_site_env demo_opts) one_room"
  unfolding one_room_def by (rule reach_step, rule reach_start, rule refl, rule rm_open)

theorem rooms_consistent_witness:
  "map_of (rm_connections one_room) 7 = Some 0 \<and> (\<exists>c. map_of (rm_objects one_room) 0 = Some c \<and> \<not> ws_closed c)"
proof -
  have "map_of (rm_connections one_room) 7 = Some 0" by (simp add: one_room_eq)
  with rooms_consistent [OF one_room_reach] show ?thesis by blast
qed

text \<open>C33 Closing all rooms. In every reachable state the loop of \<open>close_all_connections\<close> ends, with an
  empty map.\<close>

theorem close_all_terminates:
  assumes "reach (\<lambda>st. st = new_room_manager) (rm_step env opts) st"
  shows "\<exists>st'. close_all_connections st = Some st' \<and> rm_connections st' = []"
  using close_all_returns [OF rooms.inv_reach [OF assms]] by blast

theorem close_all_terminates_witness:
  "\<exists>st'. close_all_connections one_room = Some st' \<and> rm_connections st' = []"
  by (rule close_all_terminates [OF one_room_reach])

text \<open>C34 A lost retry. A connection whose configuration cannot be fetched reports its room failed but
  stays in the map; when the supervisor assigns the room to this worker again, opening it starts nothing and takes
  it out of the map, so the room is assigned and nobody is connected to it.\<close>

theorem retry_is_lost:
  assumes "reach (\<lambda>st. st = new_room_manager) (rm_step env opts) st"
    and "map_of (rm_connections st) room = Some i" and "(i, Fetch_config) \<in> set (rm_pending st)"
  shows "\<exists>st'. complete env opts i Fetch_config Config_failed st = Ran (st', [Failed_room room])
    \<and> map_of (rm_connections st') room = Some i
    \<and> map_of (rm_connections (open_connection room st')) room = None
    \<and> rm_pending (open_connection room st') = rm_pending st'"
proof -
  have ok: "rm_ok st" by (rule rooms.inv_reach [OF assms(1)])
  then obtain c where c: "map_of (rm_objects st) i = Some c" "ws_room c = room"
    using rm_invD(4) [of st] map_of_SomeD [OF assms(2)] by (auto simp: rm_ok_def)
  let ?st = "put_object i c (st\<lparr>rm_pending := remove1 (i, Fetch_config) (rm_pending st)\<rparr>)"
  have run: "complete env opts i Fetch_config Config_failed st = Ran (reap ?st, [Failed_room room])"
    by (simp add: complete_def c ws_on_config_failed_def)
  have ref: "referenced ?st j" if "j \<in> set (keys (rm_objects st))" for j
  proof (cases "j = i")
    case True
    then show ?thesis using map_of_SomeD [OF assms(2)] by (force simp: referenced_def put_object_def)
  next
    case False
    moreover have "referenced st j" using that ok unfolding rm_ok_def all_referenced_def by blast
    moreover have "(j, a) \<in> set (remove1 (i, Fetch_config) (rm_pending st))" if "(j, a) \<in> set (rm_pending st)" for a
      using that False by (simp add: in_set_remove1)
    ultimately show ?thesis by (force simp: referenced_def put_object_def)
  qed
  then have "doomed ?st = None" by (intro doomed_None) (simp add: put_object_def)
  then have reap: "reap ?st = ?st" by (rule reap_None)
  have ok': "rm_ok ?st" using complete_ok [OF ok run] by (simp add: reap)
  have key: "room \<in> set (keys (rm_connections ?st))"
    using assms(2) by (auto simp: put_object_def dest: map_of_Some_keys)
  have "map_of (rm_connections (open_connection room ?st)) room = None"
    using open_existing_drops(1) [OF ok' key] by (simp only: map_of_None_keys not_False_eq_True)
  moreover have "map_of (rm_connections ?st) room = Some i" using assms(2) by (simp add: put_object_def)
  ultimately show ?thesis using run open_existing_drops(2) [OF ok' key] unfolding reap by blast
qed

theorem retry_is_lost_witness:
  "\<exists>st'. complete demo_site_env demo_opts 0 Fetch_config Config_failed one_room = Ran (st', [Failed_room 7])
    \<and> map_of (rm_connections (open_connection 7 st')) 7 = None
    \<and> rm_pending (open_connection 7 st') = rm_pending st'"
  using retry_is_lost [OF one_room_reach, of 7 0] by (auto simp: one_room_eq)

end
