(* ===== verification/Write_Helper.thy ===== *)
theory Write_Helper
  imports Prelude "HOL-Library.Sublist"
begin

text \<open>
  The write queue both programs put in front of a TCP socket,
  src/shared/asio_socket_write_helper: messages are posted to the thread of the socket, queued
  there and written in batches, and the buffer of a message is given back to its deleter when
  the write that used it is over. \<open>write_world\<close> is the object together with the part of asio it
  runs on: the strong pointer the owner of the socket holds, the lambdas posted and not run yet,
  and the writes under way. The lemmas show that messages leave in the order they came, that
  every buffer is freed exactly once, and that its write is over by then.
\<close>

section \<open>The object\<close>

text \<open>A buffer is the address its deleter is called with, and its bytes.\<close>

type_synonym write_buffer = "nat \<times> bytes"

record write_helper =
  write_queue :: "write_buffer list"
  wh_socket :: "nat option"

datatype write_result = Write_ok | Write_aborted | Write_failed

datatype write_output =
    Buffer_posted write_buffer
  | Write_started nat "write_buffer list"
  | Buffer_deleted nat
  | Write_cancelled nat
  | Write_close_handler
  | Front_of_empty_queue

definition new_write_helper :: "nat option \<Rightarrow> write_helper" where
  "new_write_helper socket = \<lparr>write_queue = [], wh_socket = socket\<rparr>"

text \<open>\<open>lock()\<close> of the weak pointer: it fails when nobody owns the socket any more.\<close>

definition wh_lock :: "(nat \<Rightarrow> bool) \<Rightarrow> write_helper \<Rightarrow> nat option" where
  "wh_lock alive h = (case wh_socket h of Some s \<Rightarrow> if alive s then Some s else None | None \<Rightarrow> None)"

text \<open>
  The write it starts is \<open>Some (socket, buffers)\<close>; its completion handler is bound to the number
  of the buffers. With one buffer the code takes \<open>front()\<close>, so an empty queue would be an error.
\<close>

definition start_async_write ::
    "(nat \<Rightarrow> bool) \<Rightarrow> write_helper \<Rightarrow> (nat \<times> write_buffer list) option \<times> write_output list" where
  "start_async_write alive h = (case wh_lock alive h of
       None \<Rightarrow> (None, [])
     | Some s \<Rightarrow>
         if write_queue h = [] then (None, [Front_of_empty_queue])
         else (Some (s, write_queue h), [Write_started s (write_queue h)]))"

definition delete_first_n_buffers :: "nat \<Rightarrow> write_helper \<Rightarrow> write_helper \<times> write_output list" where
  "delete_first_n_buffers n h =
     (let k = min n (length (write_queue h)) in
      (h\<lparr>write_queue := drop k (write_queue h)\<rparr>,
       map (\<lambda>b. Buffer_deleted (fst b)) (take k (write_queue h))))"

text \<open>
  \<open>on_written\<close>: \<open>alive\<close> is read after the close handler has run. An aborted write ends there;
  a failed one calls the close handler and goes on.
\<close>

definition on_written ::
    "(nat \<Rightarrow> bool) \<Rightarrow> write_result \<Rightarrow> nat \<Rightarrow> write_helper
      \<Rightarrow> write_helper \<times> (nat \<times> write_buffer list) option \<times> write_output list" where
  "on_written alive ec buffer_count h =
     (let (h', deleted) = delete_first_n_buffers buffer_count h in
      case ec of
        Write_aborted \<Rightarrow> (h', None, deleted)
      | _ \<Rightarrow>
        (let closing = (if ec = Write_failed then [Write_close_handler] else []);
             (started, out) = (if write_queue h' \<noteq> [] then start_async_write alive h' else (None, []))
         in (h', started, deleted @ closing @ out)))"

definition reset_write_helper ::
    "(nat \<Rightarrow> bool) \<Rightarrow> nat option \<Rightarrow> write_helper \<Rightarrow> write_helper \<times> write_output list" where
  "reset_write_helper alive socket h =
     (let cancelled = (case wh_lock alive h of Some old \<Rightarrow> [Write_cancelled old] | None \<Rightarrow> []);
          (h', deleted) = delete_first_n_buffers (length (write_queue h)) (h\<lparr>wh_socket := socket\<rparr>)
      in (h', cancelled @ deleted))"

text \<open>
  \<open>write\<close> on the caller's thread: the buffer is freed at once, or a lambda is posted that keeps
  the socket it locked alive. The test of the lambda on that pointer never fails.
\<close>

definition write_buffer_post ::
    "(nat \<Rightarrow> bool) \<Rightarrow> write_buffer \<Rightarrow> write_helper \<Rightarrow> (nat \<times> write_buffer) option \<times> write_output list" where
  "write_buffer_post alive b h = (case wh_lock alive h of
       None \<Rightarrow> (None, [Buffer_deleted (fst b)])
     | Some s \<Rightarrow> (Some (s, b), [Buffer_posted b]))"

definition write_posted ::
    "(nat \<Rightarrow> bool) \<Rightarrow> write_buffer \<Rightarrow> write_helper
      \<Rightarrow> write_helper \<times> (nat \<times> write_buffer list) option \<times> write_output list" where
  "write_posted alive b h =
     (let write_in_process = (write_queue h \<noteq> []);
          h' = h\<lparr>write_queue := write_queue h @ [b]\<rparr>;
          (started, out) = (if \<not> write_in_process then start_async_write alive h' else (None, []))
      in (h', started, out))"

section \<open>The object on its thread\<close>

text \<open>
  \<open>wq_owner\<close> is the shared pointer of the connection that owns the helper. The owner may drop
  it, which closes the socket, and may give the helper another one. The close handler of the
  worker drops it too; that of the supervisor returns early and does not
  (\<open>wq_failure_closes\<close>). The weak pointer locks while the owner or a posted lambda, the one being run
  included, holds the socket.
\<close>

record write_world =
  wq_helper :: write_helper
  wq_owner :: "nat option"
  wq_posted :: "(nat \<times> write_buffer) list"
  wq_flight :: "(nat \<times> write_buffer list) list"
  wq_failure_closes :: bool

datatype wq_event =
    Write_call write_buffer
  | Run_posted
  | Write_completes nat write_result
  | Owner_closes
  | Owner_resets nat

definition wq_alive :: "write_world \<Rightarrow> nat \<Rightarrow> bool" where
  "wq_alive w s \<longleftrightarrow> wq_owner w = Some s \<or> s \<in> fst ` set (wq_posted w)"

definition new_write_world :: "bool \<Rightarrow> nat option \<Rightarrow> write_world" where
  "new_write_world failure_closes socket =
     \<lparr>wq_helper = new_write_helper socket, wq_owner = socket, wq_posted = [], wq_flight = [],
      wq_failure_closes = failure_closes\<rparr>"

definition add_flight :: "(nat \<times> write_buffer list) option \<Rightarrow> write_world \<Rightarrow> write_world" where
  "add_flight started w = (case started of None \<Rightarrow> w | Some f \<Rightarrow> w\<lparr>wq_flight := wq_flight w @ [f]\<rparr>)"

definition remove_at :: "nat \<Rightarrow> 'a list \<Rightarrow> 'a list" where
  "remove_at i xs = take i xs @ drop (Suc i) xs"

fun write_event :: "wq_event \<Rightarrow> write_world \<Rightarrow> write_world \<times> write_output list" where
  "write_event (Write_call b) w =
     (let (p, out) = write_buffer_post (wq_alive w) b (wq_helper w) in
      (w\<lparr>wq_posted := wq_posted w @ (case p of None \<Rightarrow> [] | Some q \<Rightarrow> [q])\<rparr>, out))"
| "write_event Run_posted w =
     (case wq_posted w of
        [] \<Rightarrow> (w, [])
      | (s, b) # rest \<Rightarrow>
          (let (h, started, out) = write_posted (wq_alive w) b (wq_helper w) in
           (add_flight started (w\<lparr>wq_helper := h, wq_posted := rest\<rparr>), out)))"
| "write_event (Write_completes i ec) w =
     (if i < length (wq_flight w) then
        (let w' = w\<lparr>wq_flight := remove_at i (wq_flight w),
                    wq_owner := (if ec = Write_failed \<and> wq_failure_closes w then None else wq_owner w)\<rparr>;
             (h, started, out) =
               on_written (wq_alive w') ec (length (snd (wq_flight w ! i))) (wq_helper w)
         in (add_flight started (w'\<lparr>wq_helper := h\<rparr>), out))
      else (w, []))"
| "write_event Owner_closes w = (w\<lparr>wq_owner := None\<rparr>, [])"
| "write_event (Owner_resets s) w =
     (let (h, out) = reset_write_helper (wq_alive w) (Some s) (wq_helper w) in
      (w\<lparr>wq_helper := h, wq_owner := Some s\<rparr>, out))"

fun write_run :: "write_world \<Rightarrow> wq_event list \<Rightarrow> write_world \<times> write_output list" where
  "write_run w [] = (w, [])"
| "write_run w (e # es) =
     (let (w', out) = write_event e w; (w'', out') = write_run w' es in (w'', out @ out'))"

section \<open>What was accepted, sent and freed\<close>

fun accepted_of :: "write_output \<Rightarrow> write_buffer list" where
  "accepted_of (Buffer_posted b) = [b]"
| "accepted_of _ = []"

fun sent_of :: "write_output \<Rightarrow> write_buffer list" where
  "sent_of (Write_started s bs) = bs"
| "sent_of _ = []"

fun freed_of :: "write_output \<Rightarrow> nat list" where
  "freed_of (Buffer_deleted i) = [i]"
| "freed_of _ = []"

definition accepted :: "write_output list \<Rightarrow> write_buffer list" where
  "accepted out = concat (map accepted_of out)"

definition sent :: "write_output list \<Rightarrow> write_buffer list" where
  "sent out = concat (map sent_of out)"

definition freed :: "write_output list \<Rightarrow> nat list" where
  "freed out = concat (map freed_of out)"

fun called :: "wq_event list \<Rightarrow> nat list" where
  "called [] = []"
| "called (Write_call b # es) = fst b # called es"
| "called (_ # es) = called es"

text \<open>The buffers the helper holds: queued, or in a lambda that has not run.\<close>

definition held :: "write_world \<Rightarrow> write_buffer list" where
  "held w = write_queue (wq_helper w) @ map snd (wq_posted w)"

definition flying :: "write_world \<Rightarrow> nat" where
  "flying w = (case wq_flight w of [] \<Rightarrow> 0 | (s, bs) # fs \<Rightarrow> length bs)"

definition waiting :: "write_world \<Rightarrow> write_buffer list" where
  "waiting w = drop (flying w) (held w)"

definition write_ok :: "write_world \<Rightarrow> bool" where
  "write_ok w \<longleftrightarrow> wq_flight w = []
     \<or> (\<exists>s bs rest. wq_flight w = [(s, bs)] \<and> bs \<noteq> [] \<and> write_queue (wq_helper w) = bs @ rest)"

text \<open>Every reset comes when no write is under way.\<close>

fun quiet_resets :: "write_world \<Rightarrow> wq_event list \<Rightarrow> bool" where
  "quiet_resets w [] \<longleftrightarrow> True"
| "quiet_resets w (e # es) \<longleftrightarrow>
     (case e of Owner_resets s \<Rightarrow> wq_flight w = [] | _ \<Rightarrow> True) \<and> quiet_resets (fst (write_event e w)) es"

fun is_reset :: "wq_event \<Rightarrow> bool" where
  "is_reset (Owner_resets s) \<longleftrightarrow> True"
| "is_reset _ \<longleftrightarrow> False"

section \<open>The invariants\<close>

lemma histories_append [simp]:
  "accepted [] = []" "accepted (x # xs) = accepted_of x @ accepted xs" "accepted (xs @ ys) = accepted xs @ accepted ys"
  "sent [] = []" "sent (x # xs) = sent_of x @ sent xs" "sent (xs @ ys) = sent xs @ sent ys"
  "freed [] = []" "freed (x # xs) = freed_of x @ freed xs" "freed (xs @ ys) = freed xs @ freed ys"
  by (simp_all add: accepted_def sent_def freed_def)

lemma histories_deleted [simp]:
  "accepted (map (\<lambda>b. Buffer_deleted (f b)) bs) = []" "sent (map (\<lambda>b. Buffer_deleted (f b)) bs) = []"
  "freed (map (\<lambda>b. Buffer_deleted (f b)) bs) = map f bs"
  by (induction bs) simp_all

lemma delete_first_n [simp]:
  "delete_first_n_buffers n h =
     (h\<lparr>write_queue := drop n (write_queue h)\<rparr>, map (\<lambda>b. Buffer_deleted (fst b)) (take n (write_queue h)))"
  by (simp add: delete_first_n_buffers_def min_def)

text \<open>What each call does to the queue, the write under way and the three histories.\<close>

lemma start_async_write_cases:
  assumes "start_async_write alive h = (f, out)" and "write_queue h \<noteq> []"
  shows "accepted out = [] \<and> freed out = [] \<and> Front_of_empty_queue \<notin> set out
    \<and> (case f of None \<Rightarrow> sent out = [] | Some (s, bs) \<Rightarrow> bs = write_queue h \<and> sent out = bs)"
  using assms by (auto simp: start_async_write_def split: option.splits if_splits)

lemma write_posted_cases:
  assumes "write_posted alive b h = (h', f, out)"
  shows "write_queue h' = write_queue h @ [b] \<and> accepted out = [] \<and> freed out = []
    \<and> Front_of_empty_queue \<notin> set out
    \<and> (case f of None \<Rightarrow> sent out = [] | Some (s, bs) \<Rightarrow> write_queue h = [] \<and> bs = [b] \<and> sent out = [b])"
  using assms
  by (auto simp: write_posted_def start_async_write_def Let_def split: if_splits option.splits)

lemma on_written_cases:
  assumes "on_written alive ec n h = (h', f, out)"
  shows "write_queue h' = drop n (write_queue h) \<and> accepted out = []
    \<and> freed out = map fst (take n (write_queue h)) \<and> Front_of_empty_queue \<notin> set out
    \<and> (case f of None \<Rightarrow> sent out = [] | Some (s, bs) \<Rightarrow> bs \<noteq> [] \<and> bs = drop n (write_queue h) \<and> sent out = bs)"
proof (cases "ec = Write_aborted \<or> drop n (write_queue h) = []")
  case True
  with assms show ?thesis by (cases ec) (auto simp: on_written_def)
next
  case False
  let ?h = "h\<lparr>write_queue := drop n (write_queue h)\<rparr>"
  obtain g o2 where s: "start_async_write alive ?h = (g, o2)" by fastforce
  with start_async_write_cases [OF s] False assms show ?thesis
    by (cases ec) (auto simp: on_written_def split: option.splits)
qed

lemma flying_add_flight:
  "wq_flight w = [] \<Longrightarrow> flying (add_flight f w) = (case f of None \<Rightarrow> 0 | Some (s, bs) \<Rightarrow> length bs)"
  by (auto simp: flying_def add_flight_def split: option.splits)

lemma add_flight_frame [simp]:
  "wq_helper (add_flight f w) = wq_helper w" "wq_posted (add_flight f w) = wq_posted w"
  "wq_owner (add_flight f w) = wq_owner w" "wq_failure_closes (add_flight f w) = wq_failure_closes w"
  by (simp_all add: add_flight_def split: option.splits)

lemma reset_cases:
  assumes "reset_write_helper alive socket h = (h', out)"
  shows "write_queue h' = [] \<and> accepted out = [] \<and> sent out = [] \<and> freed out = map fst (write_queue h)
    \<and> Front_of_empty_queue \<notin> set out"
  using assms by (auto simp: reset_write_helper_def Let_def split: option.splits)

text \<open>Nothing is freed twice and nothing is lost: the count of every buffer is kept by every event.\<close>

lemma write_event_conserves:
  assumes "write_event e w = (w', out)"
  shows "mset (freed out) + mset (map fst (held w')) = mset (called [e]) + mset (map fst (held w))"
proof (cases e)
  case (Write_call b)
  with assms show ?thesis
    by (auto simp: write_buffer_post_def held_def split: option.splits)
next
  case Run_posted
  show ?thesis
  proof (cases "wq_posted w")
    case Nil
    with assms Run_posted show ?thesis by simp
  next
    case (Cons p rest)
    obtain s b where p: "p = (s, b)" by (cases p)
    obtain h f o' where run: "write_posted (wq_alive w) b (wq_helper w) = (h, f, o')"
      by (metis prod_cases3)
    from write_posted_cases [OF run] assms Run_posted Cons p run show ?thesis
      by (auto simp: held_def)
  qed
next
  case (Write_completes i ec)
  show ?thesis
  proof (cases "i < length (wq_flight w)")
    case False
    with assms Write_completes show ?thesis by simp
  next
    case True
    let ?n = "length (snd (wq_flight w ! i))"
    let ?w = "w\<lparr>wq_flight := remove_at i (wq_flight w),
        wq_owner := (if ec = Write_failed \<and> wq_failure_closes w then None else wq_owner w)\<rparr>"
    obtain h f o' where run: "on_written (wq_alive ?w) ec ?n (wq_helper w) = (h, f, o')"
      by (metis prod_cases3)
    have "mset (map fst (write_queue (wq_helper w)))
        = mset (map fst (take ?n (write_queue (wq_helper w)))) + mset (map fst (drop ?n (write_queue (wq_helper w))))"
      by (metis append_take_drop_id map_append mset_append)
    with on_written_cases [OF run] assms Write_completes True run show ?thesis
      by (auto simp: held_def Let_def)
  qed
next
  case Owner_closes
  with assms show ?thesis by (auto simp: held_def)
next
  case (Owner_resets s)
  obtain h o' where run: "reset_write_helper (wq_alive w) (Some s) (wq_helper w) = (h, o')"
    by fastforce
  from reset_cases [OF run] assms Owner_resets run show ?thesis by (auto simp: held_def)
qed

lemma write_run_conserves:
  assumes "write_run w es = (w', out)"
  shows "mset (freed out) + mset (map fst (held w')) = mset (called es) + mset (map fst (held w))"
  using assms
proof (induction es arbitrary: w w' out)
  case (Cons e es)
  obtain w1 o1 where first: "write_event e w = (w1, o1)" by fastforce
  obtain w2 o2 where rest: "write_run w1 es = (w2, o2)" by fastforce
  have "called (e # es) = called [e] @ called es" by (cases e) auto
  with Cons.IH [OF rest] write_event_conserves [OF first] Cons.prems first rest show ?case
    by (auto simp: add.assoc add.left_commute union_commute)
qed simp

text \<open>
  While no reset interrupts a write, there is at most one, it is the front of the queue, and
  what waits behind it leaves in order.
\<close>

lemma write_event_in_order:
  assumes "write_ok w" and "write_event e w = (w', out)" and "is_reset e \<Longrightarrow> wq_flight w = []"
  shows "write_ok w' \<and> Front_of_empty_queue \<notin> set out
    \<and> subseq (sent out @ waiting w') (waiting w @ accepted out)
    \<and> (\<not> is_reset e \<longrightarrow> sent out @ waiting w' = waiting w @ accepted out)"
proof (cases e)
  case (Write_call b)
  with assms(1,2) show ?thesis
    by (auto simp: write_buffer_post_def waiting_def held_def write_ok_def flying_def split: option.splits)
next
  case Run_posted
  show ?thesis
  proof (cases "wq_posted w")
    case Nil
    with assms Run_posted show ?thesis by simp
  next
    case (Cons p rest)
    obtain s b where p: "p = (s, b)" by (cases p)
    obtain h f o' where run: "write_posted (wq_alive w) b (wq_helper w) = (h, f, o')"
      by (metis prod_cases3)
    from write_posted_cases [OF run] assms Run_posted Cons p run show ?thesis
      by (cases f) (auto simp: held_def waiting_def flying_def write_ok_def add_flight_def)
  qed
next
  case (Write_completes i ec)
  show ?thesis
  proof (cases "i < length (wq_flight w)")
    case False
    with assms Write_completes show ?thesis by simp
  next
    case True
    with assms(1) obtain s bs rest where fl: "wq_flight w = [(s, bs)]" "i = 0"
      and q: "write_queue (wq_helper w) = bs @ rest" by (auto simp: write_ok_def)
    let ?w = "w\<lparr>wq_flight := [],
        wq_owner := (if ec = Write_failed \<and> wq_failure_closes w then None else wq_owner w)\<rparr>"
    obtain h f o' where run: "on_written (wq_alive ?w) ec (length bs) (wq_helper w) = (h, f, o')"
      by (metis prod_cases3)
    have "w' = add_flight f (?w\<lparr>wq_helper := h\<rparr>)" "out = o'"
      using assms(2) Write_completes fl run by (auto simp: remove_at_def Let_def)
    with on_written_cases [OF run] fl q Write_completes show ?thesis
      by (cases f; cases "rest = []") (auto simp: held_def waiting_def flying_def write_ok_def add_flight_def)
  qed
next
  case Owner_closes
  with assms show ?thesis by (auto simp: held_def waiting_def flying_def write_ok_def)
next
  case (Owner_resets s)
  obtain h o' where run: "reset_write_helper (wq_alive w) (Some s) (wq_helper w) = (h, o')"
    by fastforce
  from reset_cases [OF run] assms Owner_resets run show ?thesis
    by (auto simp: held_def waiting_def flying_def write_ok_def)
qed

lemma write_run_in_order:
  assumes "write_ok w" and "quiet_resets w es" and "write_run w es = (w', out)"
  shows "write_ok w' \<and> Front_of_empty_queue \<notin> set out
    \<and> subseq (sent out @ waiting w') (waiting w @ accepted out)
    \<and> (\<not> list_ex is_reset es \<longrightarrow> sent out @ waiting w' = waiting w @ accepted out)"
  using assms
proof (induction es arbitrary: w w' out)
  case (Cons e es)
  obtain w1 o1 where first: "write_event e w = (w1, o1)" by fastforce
  obtain w2 o2 where rest: "write_run w1 es = (w2, o2)" by fastforce
  have quiet: "is_reset e \<Longrightarrow> wq_flight w = []" using Cons.prems(2) by (cases e) auto
  note e = write_event_in_order [OF Cons.prems(1) first quiet]
  have es: "write_ok w2 \<and> Front_of_empty_queue \<notin> set o2
    \<and> subseq (sent o2 @ waiting w2) (waiting w1 @ accepted o2)
    \<and> (\<not> list_ex is_reset es \<longrightarrow> sent o2 @ waiting w2 = waiting w1 @ accepted o2)"
    using Cons.IH [OF _ _ rest] e Cons.prems(2) first by simp
  have "subseq (sent o1 @ sent o2 @ waiting w2) (sent o1 @ waiting w1 @ accepted o2)"
    by (rule list_emb_append_mono) (use es in auto)
  moreover have "subseq (sent o1 @ waiting w1 @ accepted o2) (waiting w @ accepted o1 @ accepted o2)"
    using e list_emb_append_mono [of "(=)" "sent o1 @ waiting w1" "waiting w @ accepted o1" "accepted o2" "accepted o2"]
    by simp
  ultimately have "subseq (sent o1 @ sent o2 @ waiting w2) (waiting w @ accepted o1 @ accepted o2)"
    by (rule subseq_order.trans)
  with e es Cons.prems(3) first rest show ?case by auto
qed simp

lemma new_write_world_ok [simp]:
  "write_ok (new_write_world c s)" "held (new_write_world c s) = []" "waiting (new_write_world c s) = []"
  by (simp_all add: write_ok_def new_write_world_def held_def waiting_def new_write_helper_def)

section \<open>The theorems\<close>

text \<open>C15 Whatever the calls, completions, closings and resets, the deleter is called at most
  once for each call of \<open>write\<close>, and a buffer whose deleter has not run is still held: the
  addresses freed and the addresses held are together the addresses the callers handed over,
  with multiplicity.\<close>

theorem every_buffer_freed_once:
  assumes "write_run (new_write_world c s) es = (w, out)" and "distinct (called es)"
  shows "distinct (freed out) \<and> set (freed out) \<inter> fst ` set (held w) = {}
    \<and> set (freed out) \<union> fst ` set (held w) = set (called es)"
proof -
  have m: "mset (freed out @ map fst (held w)) = mset (called es)"
    using write_run_conserves [OF assms(1)] by simp
  then have "distinct (freed out @ map fst (held w))" using assms(2) by (metis mset_eq_imp_distinct_iff)
  with mset_eq_setD [OF m] show ?thesis by auto
qed

theorem every_buffer_freed_once_witness:
  "\<exists>w out. write_run (new_write_world True (Some 1))
       [Write_call (7, [1]), Run_posted, Write_completes 0 Write_ok, Owner_closes, Write_call (8, [2])] = (w, out)
     \<and> distinct (freed out) \<and> set (freed out) \<inter> fst ` set (held w) = {}
     \<and> set (freed out) \<union> fst ` set (held w) = {7, 8}"
proof -
  let ?es = "[Write_call (7, [1]), Run_posted, Write_completes 0 Write_ok, Owner_closes, Write_call (8, [2])]"
  obtain w out where run: "write_run (new_write_world True (Some 1)) ?es = (w, out)" by fastforce
  from every_buffer_freed_once [OF run] have "distinct (freed out) \<and> set (freed out) \<inter> fst ` set (held w) = {}
     \<and> set (freed out) \<union> fst ` set (held w) = {7, 8}" by simp
  with run show ?thesis by blast
qed

text \<open>C7 As long as the owner gives the helper a new socket only when no write is under way,
  there is at most one write at a time, its buffers are the front of the queue and so have not
  been freed, an empty queue is never read, and what is written is a subsequence of what was
  accepted, in order; without a reset it is exactly the accepted messages but for those still
  waiting.\<close>

theorem write_queue_in_order:
  assumes "write_run (new_write_world c s) es = (w, out)" and "quiet_resets (new_write_world c s) es"
  shows "length (wq_flight w) \<le> 1 \<and> (\<forall>f. f \<in> set (wq_flight w) \<longrightarrow> prefix (snd f) (write_queue (wq_helper w)))
    \<and> Front_of_empty_queue \<notin> set out \<and> subseq (sent out @ waiting w) (accepted out)
    \<and> (\<not> list_ex is_reset es \<longrightarrow> sent out @ waiting w = accepted out)"
  using write_run_in_order [OF new_write_world_ok(1) assms(2,1)] by (auto simp: write_ok_def)

theorem write_queue_in_order_witness:
  "\<exists>w out. write_run (new_write_world True (Some 1))
       [Write_call (7, [1]), Write_call (8, [2]), Run_posted, Run_posted, Write_completes 0 Write_ok] = (w, out)
     \<and> length (wq_flight w) \<le> 1 \<and> sent out @ waiting w = accepted out"
proof -
  let ?es = "[Write_call (7, [1]), Write_call (8, [2]), Run_posted, Run_posted, Write_completes 0 Write_ok]"
  obtain w out where run: "write_run (new_write_world True (Some 1)) ?es = (w, out)" by fastforce
  from write_queue_in_order [OF run] have "length (wq_flight w) \<le> 1 \<and> sent out @ waiting w = accepted out"
    by simp
  with run show ?thesis by blast
qed

text \<open>A reset during a write breaks this: a message accepted before the reset and queued
  after it is written to the new socket, and the aborted completion of the old write then frees
  its buffer while it is being sent.\<close>

theorem reset_frees_in_flight:
  "\<exists>w out. write_run (new_write_world c (Some old))
       [Write_call a, Run_posted, Write_call b, Owner_resets new, Run_posted,
        Write_completes 0 Write_aborted] = (w, out)
     \<and> wq_flight w = [(new, [b])] \<and> fst b \<in> set (freed out) \<and> write_queue (wq_helper w) = []"
  by (simp add: new_write_world_def new_write_helper_def write_buffer_post_def wh_lock_def wq_alive_def
      write_posted_def start_async_write_def add_flight_def reset_write_helper_def on_written_def
      remove_at_def Let_def)

end
