(* ===== verification/Sv_Connection.thy ===== *)
theory Sv_Connection
  imports Write_Helper Simple_Proto Bili_Conn_Tcp
begin

text \<open>
  The worker's link to its supervisor, src/worker/supervisor_connection.cpp: the retry timer, the
  resolving and connecting, the socket with the stream reader and the write queue bound to it,
  and what happens when the link fails. Every completion handler is a function on the record;
  the operations in progress are part of it. The main lemma is that the link is always in
  exactly one of its four phases, so it is never abandoned.
\<close>

section \<open>State\<close>

text \<open>
  The shared pointer \<open>_socket\<close> is the owner of the write queue. \<open>link_timer\<close> is the delay the
  timer was armed with, \<open>link_reads\<close> the sockets of the reads in progress, \<open>link_connecting\<close> the
  sockets being connected.
\<close>

record sv_link =
  link_writes :: write_world
  link_proto :: proto_handler
  link_reads :: "nat list"
  link_timer :: "int option"
  link_resolving :: nat
  link_connecting :: "nat list"
  link_next :: nat
  link_retry_interval :: int

datatype link_output = Link_message bytes | Link_connected | Link_disconnected | Link_write write_output

abbreviation link_socket :: "sv_link \<Rightarrow> nat option" where
  "link_socket c \<equiv> wq_owner (link_writes c)"

definition new_sv_link :: "bytes \<Rightarrow> int \<Rightarrow> sv_link" where
  "new_sv_link buf retry_interval =
     \<lparr>link_writes = new_write_world True None, link_proto = new_proto_handler buf None,
      link_reads = [], link_timer = Some 5, link_resolving = 0, link_connecting = [], link_next = 0,
      link_retry_interval = retry_interval\<rparr>"

section \<open>Handlers\<close>

definition link_force_close :: "sv_link \<Rightarrow> sv_link" where
  "link_force_close c = (if link_socket c = None then c
     else c\<lparr>link_writes := fst (write_event Owner_closes (link_writes c))\<rparr>)"

definition reschedule_retry_timer :: "sv_link \<Rightarrow> sv_link" where
  "reschedule_retry_timer c = c\<lparr>link_timer := Some (link_retry_interval c)\<rparr>"

definition link_connect :: "sv_link \<Rightarrow> sv_link" where
  "link_connect c =
     (let c = (if link_socket c \<noteq> None then link_force_close c else c)
      in c\<lparr>link_resolving := link_resolving c + 1\<rparr>)"

definition link_on_failed :: "sv_link \<Rightarrow> sv_link \<times> link_output list" where
  "link_on_failed c = (reschedule_retry_timer (link_force_close c), [Link_disconnected])"

definition on_retry_timer_tick :: "io_result \<Rightarrow> sv_link \<Rightarrow> sv_link" where
  "on_retry_timer_tick r c =
     (let c = c\<lparr>link_timer := None\<rparr> in if r = Io_aborted then c else link_connect c)"

definition link_on_resolved :: "io_result \<Rightarrow> sv_link \<Rightarrow> sv_link" where
  "link_on_resolved r c =
     (let c = c\<lparr>link_resolving := link_resolving c - 1\<rparr> in
      if r = Io_aborted then c
      else if r \<noteq> Io_ok then reschedule_retry_timer c
      else c\<lparr>link_timer := None, link_connecting := link_connecting c @ [link_next c],
             link_next := link_next c + 1\<rparr>)"

text \<open>A read the stream reader has just started is entered among the reads in progress.\<close>

definition keep_read :: "proto_handler \<Rightarrow> sv_link \<Rightarrow> sv_link" where
  "keep_read h c = c\<lparr>link_proto := h\<lparr>ph_reading := None\<rparr>,
     link_reads := link_reads c @ (case ph_reading h of None \<Rightarrow> [] | Some s \<Rightarrow> [s])\<rparr>"

definition proto_socket_alive :: "sv_link \<Rightarrow> bool" where
  "proto_socket_alive c = (case ph_socket (link_proto c) of
     None \<Rightarrow> False | Some s \<Rightarrow> wq_alive (link_writes c) s)"

definition link_on_connected :: "io_result \<Rightarrow> nat \<Rightarrow> sv_link \<Rightarrow> sv_link \<times> link_output list" where
  "link_on_connected r socket c =
     (let c = c\<lparr>link_connecting := remove1 socket (link_connecting c)\<rparr> in
      if r = Io_aborted then (c, [])
      else if r \<noteq> Io_ok then (reschedule_retry_timer c, [])
      else
        (let c = c\<lparr>link_timer := None\<rparr>;
             c = (if link_socket c \<noteq> None then link_force_close c else c);
             (h, cancelled) = reset_proto_handler (proto_socket_alive c) (Some socket) (link_proto c);
             (w, out) = write_event (Owner_resets socket) (link_writes c)
         in (keep_read h (c\<lparr>link_writes := w\<rparr>), map Link_write out @ [Link_connected])))"

text \<open>
  A step of the write queue. Its close handler is \<open>on_failed\<close>, whose closing of the socket the
  queue's own step already contains.
\<close>

definition link_write :: "wq_event \<Rightarrow> sv_link \<Rightarrow> sv_link \<times> link_output list" where
  "link_write e c =
     (let (w, out) = write_event e (link_writes c); c = c\<lparr>link_writes := w\<rparr>;
          (c, failed) = (if Write_close_handler \<in> set out then link_on_failed c else (c, []))
      in (c, map Link_write out @ failed))"

definition publish_msg :: "write_buffer \<Rightarrow> sv_link \<Rightarrow> sv_link \<times> link_output list" where
  "publish_msg b c = (if link_socket c = None then (c, [Link_write (Buffer_deleted (fst b))])
     else link_write (Write_call b) c)"

fun link_output_of :: "proto_output \<Rightarrow> link_output list" where
  "link_output_of (Message m) = [Link_message m]"
| "link_output_of _ = []"

definition link_on_receive :: "nat \<Rightarrow> receive_result \<Rightarrow> sv_link \<Rightarrow> sv_link \<times> link_output list" where
  "link_on_receive socket r c =
     (let c = c\<lparr>link_reads := remove1 socket (link_reads c)\<rparr>;
          (h, out) = on_receive (proto_socket_alive c) r (link_proto c);
          c = keep_read h c;
          (c, failed) = (if Close_handler_called \<in> set out then link_on_failed c else (c, []))
      in (c, concat (map link_output_of out) @ failed))"

section \<open>Steps\<close>

datatype link_event =
    Timer_fires io_result
  | Name_resolved io_result
  | Socket_connected io_result nat
  | Read_completes nat receive_result
  | Posted_write_runs
  | Write_is_over nat write_result
  | Published write_buffer

fun link_handle :: "link_event \<Rightarrow> sv_link \<Rightarrow> sv_link \<times> link_output list" where
  "link_handle (Timer_fires r) c = (on_retry_timer_tick r c, [])"
| "link_handle (Name_resolved r) c = (link_on_resolved r c, [])"
| "link_handle (Socket_connected r s) c = link_on_connected r s c"
| "link_handle (Read_completes s r) c = link_on_receive s r c"
| "link_handle Posted_write_runs c = link_write Run_posted c"
| "link_handle (Write_is_over i r) c = link_write (Write_completes i r) c"
| "link_handle (Published b) c = publish_msg b c"

text \<open>No operation of a socket that has been closed is outstanding.\<close>

definition settled :: "sv_link \<Rightarrow> bool" where
  "settled c \<longleftrightarrow> (\<forall>s \<in> set (link_reads c). link_socket c = Some s)
     \<and> (\<forall>f \<in> set (wq_flight (link_writes c)). link_socket c = Some (fst f))
     \<and> (\<forall>p \<in> set (wq_posted (link_writes c)). link_socket c = Some (fst p))"

text \<open>
  What asio can do next. The aborted operations of a closed socket, and the lambdas already
  posted, are queued at once, so they have run before the timer armed afterwards fires and
  before a later resolve or connect completes (the retry interval being longer than that); and
  a timer, a resolve or a connect nobody cancels does not complete with \<open>operation_aborted\<close>. A read with an
  error other than that is the only way a live socket's read ends without data.
\<close>

fun link_possible :: "sv_link \<Rightarrow> link_event \<Rightarrow> bool" where
  "link_possible c (Timer_fires r) \<longleftrightarrow> link_timer c \<noteq> None \<and> r \<noteq> Io_aborted \<and> settled c"
| "link_possible c (Name_resolved r) \<longleftrightarrow> 0 < link_resolving c \<and> r \<noteq> Io_aborted \<and> settled c"
| "link_possible c (Socket_connected r s) \<longleftrightarrow> s \<in> set (link_connecting c) \<and> r \<noteq> Io_aborted \<and> settled c"
| "link_possible c (Read_completes s r) \<longleftrightarrow>
     s \<in> set (link_reads c) \<and> (r = Receive_aborted \<longrightarrow> link_socket c \<noteq> Some s)"
| "link_possible c (Write_is_over i r) \<longleftrightarrow> i < length (wq_flight (link_writes c))"
| "link_possible c _ \<longleftrightarrow> True"

definition link_step :: "sv_link \<Rightarrow> sv_link \<Rightarrow> bool" where
  "link_step c c' \<longleftrightarrow> (\<exists>e. link_possible c e \<and> c' = fst (link_handle e c))"

section \<open>The phases\<close>

text \<open>
  One of: waiting for the timer, resolving, connecting, connected. Connected, the socket is the
  one the reader and the queue use, and exactly one read on it is in progress; while resolving
  or connecting nothing of an earlier socket is left.
\<close>

definition link_phase :: "sv_link \<Rightarrow> nat" where
  "link_phase c = of_bool (link_socket c \<noteq> None) + of_bool (link_timer c \<noteq> None)
     + link_resolving c + length (link_connecting c)"

definition link_ok :: "sv_link \<Rightarrow> bool" where
  "link_ok c \<longleftrightarrow> link_phase c = 1 \<and> write_ok (link_writes c) \<and> wq_failure_closes (link_writes c)
     \<and> (link_timer c = None \<longrightarrow> settled c)
     \<and> (\<forall>s. link_socket c = Some s \<longrightarrow> link_reads c = [s] \<and> ph_socket (link_proto c) = Some s
          \<and> wh_socket (wq_helper (link_writes c)) = Some s)"

lemma wh_lock_Some: "wh_lock alive h = Some s \<Longrightarrow> wh_socket h = Some s"
  by (auto simp: wh_lock_def split: option.splits if_splits)

lemma start_async_write_on:
  "start_async_write alive h = (Some f, out) \<Longrightarrow> wh_socket h = Some (fst f)"
  by (auto simp: start_async_write_def dest: wh_lock_Some split: option.splits if_splits)

lemma start_async_write_quiet:
  "start_async_write alive h = (f, out) \<Longrightarrow> Write_close_handler \<notin> set out"
  by (auto simp: start_async_write_def split: option.splits if_splits)

lemma write_posted_frame:
  assumes "write_posted alive b h = (h', f, out)"
  shows "wh_socket h' = wh_socket h \<and> (\<forall>x. f = Some x \<longrightarrow> wh_socket h = Some (fst x))
    \<and> Write_close_handler \<notin> set out"
  using assms start_async_write_on [of alive "h\<lparr>write_queue := [b]\<rparr>"]
    start_async_write_quiet [of alive "h\<lparr>write_queue := [b]\<rparr>"]
  by (auto simp: write_posted_def Let_def split: if_splits prod.splits)

lemma on_written_frame:
  assumes "on_written alive ec n h = (h', f, out)"
  shows "wh_socket h' = wh_socket h \<and> (\<forall>x. f = Some x \<longrightarrow> wh_socket h = Some (fst x))
    \<and> (Write_close_handler \<in> set out \<longleftrightarrow> ec = Write_failed)"
proof -
  let ?h = "h\<lparr>write_queue := drop n (write_queue h)\<rparr>"
  obtain g o2 where s: "start_async_write alive ?h = (g, o2)" by fastforce
  with start_async_write_on [of alive ?h] start_async_write_quiet [OF s] assms show ?thesis
    by (cases ec) (auto simp: on_written_def split: if_splits)
qed

text \<open>What a step of the queue leaves: only the socket the helper is bound to gets new operations.\<close>

lemma write_event_frame:
  assumes "write_event e w = (w', out)" and "e \<noteq> Owner_closes" and "\<not> is_reset e"
  shows "wh_socket (wq_helper w') = wh_socket (wq_helper w) \<and> wq_failure_closes w' = wq_failure_closes w
    \<and> (\<forall>f \<in> set (wq_flight w'). f \<in> set (wq_flight w) \<or> wh_socket (wq_helper w) = Some (fst f))
    \<and> (\<forall>p \<in> set (wq_posted w'). p \<in> set (wq_posted w) \<or> wh_socket (wq_helper w) = Some (fst p))
    \<and> wq_owner w' = (if Write_close_handler \<in> set out \<and> wq_failure_closes w then None else wq_owner w)"
proof (cases e)
  case (Write_call b)
  with assms show ?thesis
    by (auto simp: write_buffer_post_def dest: wh_lock_Some split: option.splits)
next
  case Run_posted
  show ?thesis
  proof (cases "wq_posted w")
    case (Cons p rest)
    obtain s b where p: "p = (s, b)" by (cases p)
    obtain h f o' where run: "write_posted (wq_alive w) b (wq_helper w) = (h, f, o')"
      by (metis prod_cases3)
    from write_posted_frame [OF run] assms(1) Run_posted Cons p run show ?thesis
      by (auto simp: add_flight_def split: option.splits)
  qed (use assms Run_posted in simp)
next
  case (Write_completes i ec)
  show ?thesis
  proof (cases "i < length (wq_flight w)")
    case True
    let ?w = "w\<lparr>wq_flight := remove_at i (wq_flight w),
        wq_owner := (if ec = Write_failed \<and> wq_failure_closes w then None else wq_owner w)\<rparr>"
    obtain h f o' where run: "on_written (wq_alive ?w) ec (length (snd (wq_flight w ! i))) (wq_helper w) = (h, f, o')"
      by (metis prod_cases3)
    have "set (remove_at i (wq_flight w)) \<subseteq> set (wq_flight w)"
      by (auto simp: remove_at_def dest: in_set_takeD in_set_dropD)
    with on_written_frame [OF run] assms(1) Write_completes True run show ?thesis
      by (cases f) (auto simp: add_flight_def Let_def)
  qed (use assms Write_completes in simp)
qed (use assms in simp_all)

lemma link_phases:
  assumes "link_phase c = 1"
  shows "link_socket c = Some s \<Longrightarrow> link_timer c = None \<and> link_resolving c = 0 \<and> link_connecting c = []"
    and "link_timer c = Some t \<Longrightarrow> link_socket c = None \<and> link_resolving c = 0 \<and> link_connecting c = []"
    and "0 < link_resolving c \<Longrightarrow> link_socket c = None \<and> link_timer c = None \<and> link_resolving c = 1 \<and> link_connecting c = []"
    and "q \<in> set (link_connecting c) \<Longrightarrow> link_socket c = None \<and> link_timer c = None \<and> link_resolving c = 0 \<and> link_connecting c = [q]"
  using assms by (auto simp: link_phase_def of_bool_def neq_Nil_conv length_Suc_conv split: if_splits
      dest!: split_list) (cases "link_connecting c"; simp)

lemma link_okD:
  assumes "link_ok c"
  shows "link_phase c = 1" and "write_ok (link_writes c)" and "wq_failure_closes (link_writes c)"
    and "link_timer c = None \<Longrightarrow> settled c"
    and "link_socket c = Some s \<Longrightarrow> link_reads c = [s]"
    and "link_socket c = Some s \<Longrightarrow> ph_socket (link_proto c) = Some s"
    and "link_socket c = Some s \<Longrightarrow> wh_socket (wq_helper (link_writes c)) = Some s"
  using assms by (simp_all add: link_ok_def)

lemmas phase_connected = link_phases(1) [OF link_okD(1)]
lemmas phase_retrying = link_phases(2) [OF link_okD(1)]
lemmas phase_resolving = link_phases(3) [OF link_okD(1)]
lemmas phase_connecting = link_phases(4) [OF link_okD(1)]

text \<open>Failing a connected or retrying link leaves it retrying.\<close>

lemma link_on_failed_ok:
  assumes "link_resolving c = 0" and "link_connecting c = []"
    and "write_ok (link_writes c)" and "wq_failure_closes (link_writes c)"
  shows "link_ok (fst (link_on_failed c))"
  using assms by (auto simp: link_on_failed_def reschedule_retry_timer_def link_force_close_def
      link_ok_def link_phase_def write_ok_def)

lemma link_write_ok:
  assumes ok: "link_ok c" and e: "e \<noteq> Owner_closes" "\<not> is_reset e"
    and phase: "(\<exists>s. link_socket c = Some s) \<or> (\<exists>t. link_timer c = Some t)"
  shows "link_ok (fst (link_write e c))"
proof -
  obtain w out where step: "write_event e (link_writes c) = (w, out)" by fastforce
  note frame = write_event_frame [OF step e]
  have w: "write_ok w"
    using write_event_in_order [OF link_okD(2) [OF ok] step] e by simp
  have closes: "wq_failure_closes w" using frame link_okD(3) [OF ok] by simp
  have idle: "link_resolving c = 0" "link_connecting c = []"
    using phase phase_connected [OF ok] phase_retrying [OF ok] by blast+
  show ?thesis
  proof (cases "Write_close_handler \<in> set out")
    case True
    then have "link_write e c = (fst (link_on_failed (c\<lparr>link_writes := w\<rparr>)),
        map Link_write out @ snd (link_on_failed (c\<lparr>link_writes := w\<rparr>)))"
      using step by (simp add: link_write_def case_prod_beta Let_def)
    then show ?thesis using link_on_failed_ok [of "c\<lparr>link_writes := w\<rparr>"] w closes idle by simp
  next
    case False
    then have eq: "fst (link_write e c) = c\<lparr>link_writes := w\<rparr>"
      using step by (simp add: link_write_def)
    have owner: "wq_owner w = link_socket c" using frame False by simp
    show ?thesis
    proof (cases "link_socket c")
      case None
      with phase obtain t where "link_timer c = Some t" by auto
      with None owner w closes idle show ?thesis
        by (simp add: eq link_ok_def link_phase_def)
    next
      case (Some s)
      then have t: "link_timer c = None" using phase_connected [OF ok Some] by blast
      have "settled (c\<lparr>link_writes := w\<rparr>)"
        using link_okD(4) [OF ok t] link_okD(7) [OF ok Some] frame owner Some
        by (auto simp: settled_def)
      with t Some owner w closes idle link_okD(5-7) [OF ok Some] frame show ?thesis
        by (simp add: eq link_ok_def link_phase_def)
    qed
  qed
qed

lemma published_ok:
  assumes "link_ok c" shows "link_ok (fst (publish_msg b c))"
  using assms link_write_ok [OF assms, of "Write_call b"] by (auto simp: publish_msg_def)

lemma link_reads_socket:
  assumes "link_ok c" and "s \<in> set (link_reads c)" shows "(\<exists>s. link_socket c = Some s) \<or> (\<exists>t. link_timer c = Some t)"
  using link_okD(4) [OF assms(1)] assms(2) by (cases "link_timer c") (auto simp: settled_def)

lemma link_flight_socket:
  assumes "link_ok c" and "i < length (wq_flight (link_writes c))"
  shows "(\<exists>s. link_socket c = Some s) \<or> (\<exists>t. link_timer c = Some t)"
  using link_okD(4) [OF assms(1)] nth_mem [OF assms(2)] by (cases "link_timer c") (auto simp: settled_def)

lemma posted_runs_ok:
  assumes "link_ok c" shows "link_ok (fst (link_write Run_posted c))"
proof (cases "wq_posted (link_writes c) = []")
  case True
  then show ?thesis using assms by (simp add: link_write_def)
next
  case False
  then obtain p where "p \<in> set (wq_posted (link_writes c))" by (cases "wq_posted (link_writes c)") auto
  then have "(\<exists>s. link_socket c = Some s) \<or> (\<exists>t. link_timer c = Some t)"
    using link_okD(4) [OF assms] by (cases "link_timer c") (auto simp: settled_def)
  then show ?thesis using link_write_ok [OF assms, of Run_posted] by simp
qed

text \<open>The reader on its socket: data makes it read on, anything else unbinds it.\<close>

lemma on_receive_data:
  assumes "ph_socket h = Some s" and "on_receive True (Received chunk) h = (h', out)"
  shows "ph_socket h' = Some s \<and> ph_reading h' = Some s \<and> Close_handler_called \<notin> set out"
  using assms by (auto simp: on_receive_def start_async_read_def split: prod.splits)

lemma receive_live_ok:
  assumes ok: "link_ok c" and s: "link_socket c = Some s" and r: "r \<noteq> Receive_aborted"
  shows "link_ok (fst (link_on_receive s r c))"
proof -
  have idle: "link_timer c = None" "link_resolving c = 0" "link_connecting c = []"
    using phase_connected [OF ok s] by simp_all
  note live = link_okD(5-7) [OF ok s]
  let ?c = "c\<lparr>link_reads := []\<rparr>"
  have alive: "proto_socket_alive ?c" by (simp add: proto_socket_alive_def live(2) wq_alive_def s)
  show ?thesis
  proof (cases r)
    case Receive_error
    then show ?thesis using link_okD(2,3) [OF ok] live idle
      by (auto simp: link_on_receive_def on_receive_def keep_read_def intro!: link_on_failed_ok)
  next
    case (Received chunk)
    obtain h out where run: "on_receive True (Received chunk) (link_proto c) = (h, out)" by fastforce
    note data = on_receive_data [OF live(2) run]
    have "fst (link_on_receive s r c) = keep_read h ?c"
      using Received run data alive by (simp add: link_on_receive_def live(1))
    moreover have "settled (keep_read h ?c)"
      using link_okD(4) [OF ok idle(1)] data s by (auto simp: settled_def keep_read_def)
    ultimately show ?thesis using ok data s idle live link_okD(2,3) [OF ok]
      by (simp add: link_ok_def link_phase_def keep_read_def)
  qed (use r in simp)
qed

lemma receive_stale_ok:
  assumes ok: "link_ok c" and "link_socket c = None" and t: "link_timer c = Some t"
  shows "link_ok (fst (link_on_receive s r c))"
proof -
  have idle: "link_resolving c = 0" "link_connecting c = []"
    using phase_retrying [OF ok t] by simp_all
  let ?c = "c\<lparr>link_reads := remove1 s (link_reads c)\<rparr>"
  obtain h out where run: "on_receive (proto_socket_alive ?c) r (link_proto c) = (h, out)" by fastforce
  have kept: "link_ok (keep_read h ?c)" "link_resolving (keep_read h ?c) = 0"
      "link_connecting (keep_read h ?c) = []" "write_ok (link_writes (keep_read h ?c))"
      "wq_failure_closes (link_writes (keep_read h ?c))"
    using ok assms(2) t idle link_okD(2,3) [OF ok] by (simp_all add: link_ok_def link_phase_def keep_read_def)
  show ?thesis using run kept(1) link_on_failed_ok [OF kept(2-5)]
    by (simp add: link_on_receive_def case_prod_beta Let_def)
qed

lemma link_receive_ok:
  assumes "link_ok c" and "s \<in> set (link_reads c)" and "r = Receive_aborted \<longrightarrow> link_socket c \<noteq> Some s"
  shows "link_ok (fst (link_on_receive s r c))"
proof (cases "link_socket c")
  case None
  with link_reads_socket [OF assms(1,2)] obtain t where "link_timer c = Some t" by auto
  with None show ?thesis using receive_stale_ok [OF assms(1)] by blast
next
  case (Some q)
  then have "link_socket c = Some s" using link_okD(5) [OF assms(1) Some] assms(2) by simp
  with assms show ?thesis using receive_live_ok by blast
qed

lemma link_timer_ok:
  assumes ok: "link_ok c" and "link_timer c = Some t" and "r \<noteq> Io_aborted" and "settled c"
  shows "link_ok (on_retry_timer_tick r c)"
proof -
  have "link_socket c = None" "link_resolving c = 0" "link_connecting c = []"
    using phase_retrying [OF ok assms(2)] by simp_all
  with assms link_okD(2,3) [OF ok] show ?thesis
    by (auto simp: on_retry_timer_tick_def link_connect_def link_ok_def link_phase_def settled_def)
qed

lemma link_resolved_ok:
  assumes ok: "link_ok c" and "0 < link_resolving c" and "r \<noteq> Io_aborted" and "settled c"
  shows "link_ok (link_on_resolved r c)"
proof -
  have "link_socket c = None" "link_timer c = None" "link_resolving c = 1" "link_connecting c = []"
    using phase_resolving [OF ok assms(2)] by simp_all
  with assms link_okD(2,3) [OF ok] show ?thesis
    by (cases "r = Io_ok") (simp_all add: link_on_resolved_def reschedule_retry_timer_def link_ok_def
        link_phase_def settled_def Let_def)
qed

lemma settled_none:
  assumes "settled c" and "link_socket c = None"
  shows "link_reads c = []" and "wq_flight (link_writes c) = []" and "wq_posted (link_writes c) = []"
  using assms unfolding settled_def by (metis list.set_intros(1) neq_Nil_conv option.distinct(1))+

text \<open>A new connection: reader and queue are bound to it, one read is started, the queue is empty.\<close>

lemma link_connected_eq:
  assumes ok: "link_ok c" and "s \<in> set (link_connecting c)" and "settled c"
  shows "link_on_connected Io_ok s c =
    (c\<lparr>link_timer := None, link_connecting := [],
       link_proto := (link_proto c)\<lparr>ph_socket := Some s, ph_reading := None\<rparr>, link_reads := [s],
       link_writes := (link_writes c)\<lparr>wq_helper := \<lparr>write_queue = [], wh_socket = Some s\<rparr>, wq_owner := Some s\<rparr>\<rparr>,
     map (\<lambda>b. Link_write (Buffer_deleted (fst b))) (write_queue (wq_helper (link_writes c))) @ [Link_connected])"
proof -
  have sock: "link_socket c = None" and conn: "link_connecting c = [s]"
    using phase_connecting [OF ok assms(2)] by simp_all
  have none: "link_reads c = []" "wq_flight (link_writes c) = []" "wq_posted (link_writes c) = []"
    using settled_none [OF assms(3) sock] .
  then have dead: "\<not> wq_alive (link_writes c) q" for q using sock by (simp add: wq_alive_def)
  then have "wh_lock (wq_alive (link_writes c)) (wq_helper (link_writes c)) = None"
    by (simp add: wh_lock_def split: option.splits)
  then show ?thesis using sock none conn
    by (simp add: link_on_connected_def reset_proto_handler_def start_async_read_def keep_read_def
        reset_write_helper_def Let_def proto_socket_alive_def)
qed

lemma link_connected_ok:
  assumes ok: "link_ok c" and "s \<in> set (link_connecting c)" and "r \<noteq> Io_aborted" and "settled c"
  shows "link_ok (fst (link_on_connected r s c))"
proof -
  have phase: "link_socket c = None" "link_timer c = None" "link_resolving c = 0" "link_connecting c = [s]"
    using phase_connecting [OF ok assms(2)] by simp_all
  have none: "wq_flight (link_writes c) = []" "wq_posted (link_writes c) = []"
    using settled_none [OF assms(4) phase(1)] by simp_all
  show ?thesis
  proof (cases "r = Io_ok")
    case True
    show ?thesis unfolding True link_connected_eq [OF ok assms(2,4)] using phase none link_okD(3) [OF ok]
      by (simp add: link_ok_def link_phase_def settled_def write_ok_def)
  next
    case False
    with assms(3) phase link_okD(2,3) [OF ok] show ?thesis
      by (auto simp: link_on_connected_def reschedule_retry_timer_def link_ok_def link_phase_def)
  qed
qed

lemma link_handle_ok:
  assumes "link_ok c" and "link_possible c e"
  shows "link_ok (fst (link_handle e c))"
proof (cases e)
  case (Write_is_over i r)
  with assms link_flight_socket [OF assms(1)] link_write_ok [OF assms(1), of "Write_completes i r"]
  show ?thesis by simp
qed (use assms link_timer_ok link_resolved_ok link_connected_ok link_receive_ok posted_runs_ok
    published_ok in auto)

lemma new_sv_link_ok: "link_ok (new_sv_link buf t)"
  by (simp add: new_sv_link_def link_ok_def link_phase_def new_write_world_def write_ok_def settled_def)

interpretation link: invariant_system "\<lambda>c. c = new_sv_link buf t" link_step link_ok
  by unfold_locales (auto simp: new_sv_link_ok link_step_def intro: link_handle_ok)

end
