(* ===== verification/Worker.thy ===== *)
theory Worker
  imports Sv_Connection Proto_Packets_Props Bili_Manager
begin

text \<open>
  The worker process: \<open>supervisor_session\<close> (src/worker/supervisor_session.cpp), which turns the
  messages of the link into operations on rooms and what the rooms report into packets, and
  \<open>worker_global_context\<close> (src/worker/global_context.cpp), which ties it to the connection
  manager. Messages, handlers and callbacks run one at a time; \<open>close_all_connections\<close> is
  posted to the threads of the rooms and runs later.
\<close>

section \<open>supervisor_session\<close>

record worker_options =
  wo_max_rooms :: "32 word"
  wo_auth_code :: bytes

record worker =
  wk_link :: sv_link
  wk_rooms :: "borrowed_message room_manager"
  wk_close_posted :: nat
  wk_next_buffer :: nat

definition new_worker :: "bytes \<Rightarrow> int \<Rightarrow> worker" where
  "new_worker buf retry_interval =
     \<lparr>wk_link = new_sv_link buf retry_interval, wk_rooms = new_room_manager, wk_close_posted = 0,
      wk_next_buffer = 0\<rparr>"

text \<open>A generated packet, or nothing when generating it overran its buffer, is given to the link.\<close>

definition publish_packet :: "bytes option \<Rightarrow> worker \<Rightarrow> (worker \<times> link_output list) ran" where
  "publish_packet packet wk = (case packet of
       None \<Rightarrow> Crashed
     | Some p \<Rightarrow> (case publish_msg (wk_next_buffer wk, p) (wk_link wk) of (l, out) \<Rightarrow>
         Ran (wk\<lparr>wk_link := l, wk_next_buffer := wk_next_buffer wk + 1\<rparr>, out)))"

definition on_supervisor_connected ::
    "(nat \<Rightarrow> byte) \<Rightarrow> worker_options \<Rightarrow> worker \<Rightarrow> (worker \<times> link_output list) ran" where
  "on_supervisor_connected mem opts wk =
     publish_packet (generate_worker_ready_packet mem (wo_max_rooms opts) (wo_auth_code opts)) wk"

definition session_on_message ::
    "(nat \<Rightarrow> byte) \<Rightarrow> int \<Rightarrow> borrowed_message \<Rightarrow> worker \<Rightarrow> (worker \<times> link_output list) ran" where
  "session_on_message mem room_id msg wk =
     publish_packet (generate_worker_data_packet mem (word_of_int room_id) msg) wk"

definition session_on_room_failed ::
    "(nat \<Rightarrow> byte) \<Rightarrow> int \<Rightarrow> worker \<Rightarrow> (worker \<times> link_output list) ran" where
  "session_on_room_failed mem room_id wk =
     publish_packet (generate_room_failed_packet mem (word_of_int room_id)) wk"

text \<open>\<open>on_data\<close>, which nothing calls: after refusing short data it goes on to publish it.\<close>

definition session_on_data :: "write_buffer \<Rightarrow> sv_link \<Rightarrow> sv_link \<times> link_output list" where
  "session_on_data b l =
     (let refused = (if length (snd b) < simple_message_header_length
                     then [Link_write (Buffer_deleted (fst b))] else []);
          (l, out) = publish_msg b l
      in (l, refused @ out))"

section \<open>worker_global_context\<close>

definition on_request_connect_room :: "room_id \<Rightarrow> worker \<Rightarrow> worker" where
  "on_request_connect_room room_id wk = wk\<lparr>wk_rooms := open_connection (sint room_id) (wk_rooms wk)\<rparr>"

definition on_request_disconnect_room :: "room_id \<Rightarrow> worker \<Rightarrow> worker" where
  "on_request_disconnect_room room_id wk = wk\<lparr>wk_rooms := close_connection (sint room_id) (wk_rooms wk)\<rparr>"

definition run_operation :: "room_operation \<Rightarrow> worker \<Rightarrow> worker" where
  "run_operation op = (case op of Open_connection r \<Rightarrow> on_request_connect_room r
     | Close_connection r \<Rightarrow> on_request_disconnect_room r)"

definition on_supervisor_disconnected :: "worker \<Rightarrow> worker" where
  "on_supervisor_disconnected wk = wk\<lparr>wk_close_posted := wk_close_posted wk + 1\<rparr>"

fun session_callback ::
    "(nat \<Rightarrow> byte) \<Rightarrow> worker_options \<Rightarrow> link_output \<Rightarrow> worker \<Rightarrow> (worker \<times> link_output list) ran" where
  "session_callback mem opts (Link_message m) wk =
     Ran (case on_supervisor_message m of None \<Rightarrow> wk | Some op \<Rightarrow> run_operation op wk, [])"
| "session_callback mem opts Link_connected wk = on_supervisor_connected mem opts wk"
| "session_callback mem opts Link_disconnected wk = Ran (on_supervisor_disconnected wk, [])"
| "session_callback mem opts (Link_write o') wk = Ran (wk, [Link_write o'])"

fun session_callbacks ::
    "(nat \<Rightarrow> byte) \<Rightarrow> worker_options \<Rightarrow> link_output list \<Rightarrow> worker \<Rightarrow> (worker \<times> link_output list) ran" where
  "session_callbacks mem opts [] wk = Ran (wk, [])"
| "session_callbacks mem opts (x # xs) wk = (case session_callback mem opts x wk of
       Ran (wk, out) \<Rightarrow> (case session_callbacks mem opts xs wk of
           Ran (wk, out') \<Rightarrow> Ran (wk, out @ out') | e \<Rightarrow> e)
     | e \<Rightarrow> e)"

definition worker_link_event ::
    "(nat \<Rightarrow> byte) \<Rightarrow> worker_options \<Rightarrow> link_event \<Rightarrow> worker \<Rightarrow> (worker \<times> link_output list) ran" where
  "worker_link_event mem opts e wk = (case link_handle e (wk_link wk) of (l, out) \<Rightarrow>
     session_callbacks mem opts out (wk\<lparr>wk_link := l\<rparr>))"

fun room_callback ::
    "(nat \<Rightarrow> byte) \<Rightarrow> borrowed_message room_output \<Rightarrow> worker \<Rightarrow> (worker \<times> link_output list) ran" where
  "room_callback mem (Failed_room r) wk = session_on_room_failed mem r wk"
| "room_callback mem (Data_of_room r m) wk = session_on_message mem r m wk"

fun room_callbacks ::
    "(nat \<Rightarrow> byte) \<Rightarrow> borrowed_message room_output list \<Rightarrow> worker \<Rightarrow> (worker \<times> link_output list) ran" where
  "room_callbacks mem [] wk = Ran (wk, [])"
| "room_callbacks mem (x # xs) wk = (case room_callback mem x wk of
       Ran (wk, out) \<Rightarrow> (case room_callbacks mem xs wk of
           Ran (wk, out') \<Rightarrow> Ran (wk, out @ out') | e \<Rightarrow> e)
     | e \<Rightarrow> e)"

definition worker_room_event ::
    "borrowed_message packet_env \<Rightarrow> ws_options \<Rightarrow> (nat \<Rightarrow> byte) \<Rightarrow> nat \<Rightarrow> borrowed_message site_action
      \<Rightarrow> ws_event \<Rightarrow> worker \<Rightarrow> (worker \<times> link_output list) ran" where
  "worker_room_event env wopts mem i a ev wk = (case complete env wopts i a ev (wk_rooms wk) of
       Ran (rooms, out) \<Rightarrow> room_callbacks mem out (wk\<lparr>wk_rooms := rooms\<rparr>)
     | Crashed \<Rightarrow> Crashed
     | Spins \<Rightarrow> Spins)"

definition worker_close_all :: "worker \<Rightarrow> worker option" where
  "worker_close_all wk = map_option
     (\<lambda>rooms. wk\<lparr>wk_rooms := rooms, wk_close_posted := wk_close_posted wk - 1\<rparr>)
     (close_all_connections (wk_rooms wk))"

inductive wk_step ::
    "borrowed_message packet_env \<Rightarrow> ws_options \<Rightarrow> (nat \<Rightarrow> byte) \<Rightarrow> worker_options \<Rightarrow> worker \<Rightarrow> worker \<Rightarrow> bool"
  for env wopts mem opts where
  wk_link_step: "link_possible (wk_link wk) e \<Longrightarrow> worker_link_event mem opts e wk = Ran (wk', out)
    \<Longrightarrow> wk_step env wopts mem opts wk wk'"
| wk_room_step: "(i, a) \<in> set (rm_pending (wk_rooms wk)) \<Longrightarrow> completes a ev
    \<Longrightarrow> worker_room_event env wopts mem i a ev wk = Ran (wk', out) \<Longrightarrow> wk_step env wopts mem opts wk wk'"
| wk_drop_fetch_step: "(i, Fetch_config) \<in> set (rm_pending (wk_rooms wk))
    \<Longrightarrow> wk_step env wopts mem opts wk (wk\<lparr>wk_rooms := drop_fetch i (wk_rooms wk)\<rparr>)"
| wk_close_step: "0 < wk_close_posted wk \<Longrightarrow> worker_close_all wk = Some wk'
    \<Longrightarrow> wk_step env wopts mem opts wk wk'"

section \<open>The invariant of the process\<close>

definition wk_ok :: "worker \<Rightarrow> bool" where
  "wk_ok wk \<longleftrightarrow> link_ok (wk_link wk) \<and> rm_ok (wk_rooms wk)"

lemma publish_connected:
  assumes "link_ok l" and "link_socket l = Some s"
  shows "publish_msg b l = (l\<lparr>link_writes := (link_writes l)\<lparr>wq_posted := wq_posted (link_writes l) @ [(s, b)]\<rparr>\<rparr>,
    [Link_write (Buffer_posted b)])"
  using link_okD(7) [OF assms] assms(2)
  by (simp add: publish_msg_def link_write_def write_buffer_post_def wh_lock_def wq_alive_def)

lemma publish_packet_effect:
  assumes "publish_packet packet wk = Ran (wk', out)" and "link_ok (wk_link wk)"
  shows "link_ok (wk_link wk') \<and> wk_rooms wk' = wk_rooms wk \<and> wk_close_posted wk' = wk_close_posted wk"
  using assms published_ok [OF assms(2)]
  by (auto simp: publish_packet_def split: option.splits prod.splits) (metis fst_conv)

lemma run_operation_effect [simp]:
  "wk_link (run_operation op wk) = wk_link wk" "wk_close_posted (run_operation op wk) = wk_close_posted wk"
  by (simp_all add: run_operation_def on_request_connect_room_def on_request_disconnect_room_def
      split: room_operation.split)

lemma run_operation_ok: "rm_ok (wk_rooms wk) \<Longrightarrow> rm_ok (wk_rooms (run_operation op wk))"
  by (simp add: run_operation_def on_request_connect_room_def on_request_disconnect_room_def
      open_connection_ok close_connection_ok split: room_operation.split)

lemma session_callback_ok:
  assumes "session_callback mem opts x wk = Ran (wk', out)" and "wk_ok wk"
  shows "wk_ok wk' \<and> wk_close_posted wk' = wk_close_posted wk + of_bool (x = Link_disconnected)"
proof (cases x)
  case Link_connected
  with assms publish_packet_effect show ?thesis
    by (fastforce simp: on_supervisor_connected_def wk_ok_def)
qed (use assms in \<open>auto simp: wk_ok_def on_supervisor_disconnected_def run_operation_ok split: option.splits\<close>)

lemma session_callbacks_ok:
  assumes "session_callbacks mem opts xs wk = Ran (wk', out)" and "wk_ok wk"
  shows "wk_ok wk' \<and> wk_close_posted wk \<le> wk_close_posted wk'
    \<and> (Link_disconnected \<in> set xs \<longrightarrow> wk_close_posted wk < wk_close_posted wk')"
  using assms
proof (induction xs arbitrary: wk wk' out)
  case (Cons x xs)
  then obtain wk1 o1 o2 where first: "session_callback mem opts x wk = Ran (wk1, o1)"
      and rest: "session_callbacks mem opts xs wk1 = Ran (wk', o2)"
    by (auto split: ran.splits prod.splits)
  from session_callback_ok [OF first Cons.prems(2)] have "wk_ok wk1"
      and "wk_close_posted wk1 = wk_close_posted wk + of_bool (x = Link_disconnected)" by simp_all
  with Cons.IH [OF rest] show ?case by (auto simp: of_bool_def split: if_splits)
qed simp

lemma worker_link_event_ok:
  assumes "worker_link_event mem opts e wk = Ran (wk', out)" and "link_possible (wk_link wk) e" and "wk_ok wk"
  shows "wk_ok wk' \<and> wk_close_posted wk \<le> wk_close_posted wk'
    \<and> (Link_disconnected \<in> set (snd (link_handle e (wk_link wk))) \<longrightarrow> wk_close_posted wk < wk_close_posted wk')"
proof -
  obtain l o1 where step: "link_handle e (wk_link wk) = (l, o1)" by fastforce
  with link_handle_ok [OF _ assms(2)] assms(3) have "wk_ok (wk\<lparr>wk_link := l\<rparr>)" by (simp add: wk_ok_def)
  with session_callbacks_ok [of mem opts o1 "wk\<lparr>wk_link := l\<rparr>"] assms(1) step show ?thesis
    by (simp add: worker_link_event_def)
qed

lemma room_callbacks_ok:
  assumes "room_callbacks mem xs wk = Ran (wk', out)" and "wk_ok wk"
  shows "wk_ok wk'"
  using assms
proof (induction xs arbitrary: wk wk' out)
  case (Cons x xs)
  then obtain wk1 o1 o2 where first: "room_callback mem x wk = Ran (wk1, o1)"
      and rest: "room_callbacks mem xs wk1 = Ran (wk', o2)"
    by (auto split: ran.splits prod.splits)
  have "wk_ok wk1" using first Cons.prems(2) publish_packet_effect
    by (cases x) (fastforce simp: session_on_room_failed_def session_on_message_def wk_ok_def)+
  from Cons.IH [OF rest this] show ?case .
qed simp

lemma wk_step_ok: "wk_step env wopts mem opts wk wk' \<Longrightarrow> wk_ok wk \<Longrightarrow> wk_ok wk'"
proof (induction rule: wk_step.induct)
  case (wk_link_step wk e wk' out)
  then show ?case using worker_link_event_ok by blast
next
  case (wk_room_step i a wk ev wk' out)
  then obtain rooms rs where c: "complete env wopts i a ev (wk_rooms wk) = Ran (rooms, rs)"
      and r: "room_callbacks mem rs (wk\<lparr>wk_rooms := rooms\<rparr>) = Ran (wk', out)"
    by (auto simp: worker_room_event_def split: ran.splits prod.splits)
  from complete_ok [OF _ c] wk_room_step.prems have "wk_ok (wk\<lparr>wk_rooms := rooms\<rparr>)" by (simp add: wk_ok_def)
  from room_callbacks_ok [OF r this] show ?case .
next
  case (wk_drop_fetch_step i wk)
  then show ?case by (simp add: wk_ok_def drop_fetch_ok)
next
  case (wk_close_step wk wk')
  with close_all_returns [of "wk_rooms wk"] show ?case by (auto simp: worker_close_all_def wk_ok_def)
qed

lemma new_worker_ok: "wk_ok (new_worker buf t)"
  using new_sv_link_ok [of buf t]
  by (simp add: wk_ok_def new_worker_def rm_ok_def rm_inv_def all_referenced_def new_room_manager_def)

interpretation process: invariant_system "\<lambda>wk. wk = new_worker buf t" "wk_step env wopts mem opts" wk_ok
  for buf t env wopts mem opts
  by unfold_locales (auto simp: new_worker_ok intro: wk_step_ok)

section \<open>What the rooms report\<close>

fun report_payload :: "borrowed_message room_output \<Rightarrow> bytes" where
  "report_payload (Failed_room r) = room_failed_code # put_be32 (word_of_int r)"
| "report_payload (Data_of_room r m) =
     worker_data_code # put_be32 (word_of_int r) @ put_be32 (bm_crc32 m) @ bm_routing_key m @ bm_body m"

fun full_key :: "borrowed_message room_output \<Rightarrow> bool" where
  "full_key (Failed_room r) \<longleftrightarrow> True"
| "full_key (Data_of_room r m) \<longleftrightarrow> length (bm_routing_key m) = 32"

text \<open>Connected, every report becomes one packet, posted to the queue in the order of the reports.\<close>

definition report_buffers :: "nat \<Rightarrow> borrowed_message room_output list \<Rightarrow> write_buffer list" where
  "report_buffers n xs = zip [n..<n + length xs] (map (simple_frame \<circ> report_payload) xs)"

lemma report_buffers_Cons:
  "report_buffers n (x # xs) = (n, simple_frame (report_payload x)) # report_buffers (Suc n) xs"
  by (simp add: report_buffers_def upt_conv_Cons del: upt_Suc)

lemma room_callback_connected:
  assumes "link_ok (wk_link wk)" and "link_socket (wk_link wk) = Some s" and "full_key x"
  shows "\<exists>wk'. room_callback mem x wk = Ran (wk', [Link_write (Buffer_posted (wk_next_buffer wk, simple_frame (report_payload x)))])
    \<and> link_ok (wk_link wk') \<and> link_socket (wk_link wk') = Some s \<and> wk_next_buffer wk' = Suc (wk_next_buffer wk)
    \<and> wq_posted (link_writes (wk_link wk')) = wq_posted (link_writes (wk_link wk))
        @ [(s, (wk_next_buffer wk, simple_frame (report_payload x)))]"
proof -
  let ?b = "(wk_next_buffer wk, simple_frame (report_payload x))"
  have eq: "room_callback mem x wk = publish_packet (Some (simple_frame (report_payload x))) wk"
    using assms(3) by (cases x) (simp_all add: session_on_room_failed_def session_on_message_def
        room_failed_packet worker_data_packet)
  show ?thesis
    using published_ok [OF assms(1), of ?b] publish_connected [OF assms(1,2), of ?b] assms(2)
    by (simp add: eq publish_packet_def)
qed

lemma room_callbacks_connected:
  assumes "link_ok (wk_link wk)" and "link_socket (wk_link wk) = Some s" and "list_all full_key xs"
  shows "\<exists>wk'. room_callbacks mem xs wk =
      Ran (wk', map (\<lambda>b. Link_write (Buffer_posted b)) (report_buffers (wk_next_buffer wk) xs))
    \<and> wq_posted (link_writes (wk_link wk')) = wq_posted (link_writes (wk_link wk))
        @ map (Pair s) (report_buffers (wk_next_buffer wk) xs)"
  using assms
proof (induction xs arbitrary: wk)
  case (Cons x xs)
  from room_callback_connected [OF Cons.prems(1,2), of x mem] Cons.prems(3)
  obtain wk1 where first: "room_callback mem x wk =
        Ran (wk1, [Link_write (Buffer_posted (wk_next_buffer wk, simple_frame (report_payload x)))])"
      and wk1: "link_ok (wk_link wk1)" "link_socket (wk_link wk1) = Some s"
        "wk_next_buffer wk1 = Suc (wk_next_buffer wk)"
        "wq_posted (link_writes (wk_link wk1)) = wq_posted (link_writes (wk_link wk))
          @ [(s, (wk_next_buffer wk, simple_frame (report_payload x)))]"
    by auto
  from Cons.IH [OF wk1(1,2)] Cons.prems(3) first wk1(3,4) show ?case
    by (auto simp: report_buffers_Cons)
qed (simp add: report_buffers_def)

section \<open>What the supervisor asks for\<close>

fun worker_link_events ::
    "(nat \<Rightarrow> byte) \<Rightarrow> worker_options \<Rightarrow> link_event list \<Rightarrow> worker \<Rightarrow> worker ran" where
  "worker_link_events mem opts [] wk = Ran wk"
| "worker_link_events mem opts (e # es) wk = (case worker_link_event mem opts e wk of
       Ran (wk, out) \<Rightarrow> worker_link_events mem opts es wk | Crashed \<Rightarrow> Crashed | Spins \<Rightarrow> Spins)"

definition run_message :: "bytes \<Rightarrow> worker \<Rightarrow> worker" where
  "run_message m wk = (case on_supervisor_message m of None \<Rightarrow> wk | Some op \<Rightarrow> run_operation op wk)"

lemma session_callbacks_messages:
  "session_callbacks mem opts (map Link_message ms) wk = Ran (fold run_message ms wk, [])"
  by (induction ms arbitrary: wk) (simp_all add: run_message_def)

lemma run_message_link [simp]: "wk_link (run_message m wk) = wk_link wk"
  by (simp add: run_message_def split: option.split)

lemma run_message_rooms: "wk_rooms wk = wk_rooms wk' \<Longrightarrow> wk_rooms (run_message m wk) = wk_rooms (run_message m wk')"
  by (simp add: run_message_def run_operation_def on_request_connect_room_def
      on_request_disconnect_room_def split: option.split room_operation.split)

end
