(* ===== verification/Worker_Props.thy ===== *)
theory Worker_Props
  imports Worker Rooms_Props
begin

text \<open>
  The properties of the worker process: its link to the supervisor, what becomes of the
  supervisor's operations and of the reports of the rooms, and the loss of the link.
\<close>

section \<open>A stream of operations\<close>

lemma on_receive_ph_reading [simp]:
  "on_receive alive (Received c) (h\<lparr>ph_reading := x\<rparr>) = on_receive alive (Received c) h"
  by (simp add: on_receive_def write_received_def start_async_read_def split: prod.splits)

lemma receive_all_ph_reading:
  "snd (receive_all (h\<lparr>ph_reading := x\<rparr>) cs) = snd (receive_all h cs)"
  by (cases cs) simp_all

lemma on_receive_messages:
  "\<exists>h' ps. on_receive alive (Received c) h = (h', map Message ps)"
  by (simp add: on_receive_def split: prod.splits) blast

lemma link_receive_data:
  assumes "link_ok c" and "link_socket c = Some s"
    and "on_receive True (Received chunk) (link_proto c) = (h, map Message ps)"
  shows "link_on_receive s (Received chunk) c = (keep_read h (c\<lparr>link_reads := []\<rparr>), map Link_message ps)"
proof -
  have "proto_socket_alive (c\<lparr>link_reads := []\<rparr>)"
    using link_okD(6) [OF assms(1,2)] assms(2) by (simp add: proto_socket_alive_def wq_alive_def)
  moreover have "concat (map (link_output_of \<circ> Message) ps) = map Link_message ps" by (induction ps) auto
  moreover have "Close_handler_called \<notin> set (map Message ps)" by auto
  ultimately show ?thesis
    using assms(3) link_okD(5) [OF assms(1,2)] by (simp add: link_on_receive_def)
qed

lemma fold_run_message_rooms:
  "wk_rooms w = wk_rooms w' \<Longrightarrow> wk_rooms (fold run_message xs w) = wk_rooms (fold run_message xs w')"
proof (induction xs arbitrary: w w')
  case (Cons x xs)
  from Cons.IH [OF run_message_rooms [OF Cons.prems]] show ?case by simp
qed simp

lemma worker_receive_all:
  assumes "link_ok (wk_link wk)" and "link_socket (wk_link wk) = Some s"
    and "receive_all (link_proto (wk_link wk)) cs = (h, map Message ms)"
  shows "\<exists>wk'. worker_link_events mem opts (map (\<lambda>c. Read_completes s (Received c)) cs) wk = Ran wk'
    \<and> wk_rooms wk' = wk_rooms (fold run_message ms wk) \<and> link_socket (wk_link wk') = Some s"
  using assms
proof (induction cs arbitrary: wk h ms)
  case (Cons c cs)
  let ?l = "wk_link wk"
  obtain h1 ps where first: "on_receive True (Received c) (link_proto ?l) = (h1, map Message ps)"
    using on_receive_messages by blast
  obtain h2 o2 where rest: "receive_all h1 cs = (h2, o2)" by fastforce
  with Cons.prems(3) first have "map Message ps @ o2 = map Message ms" by simp
  then obtain qs where ms: "ms = ps @ qs" "o2 = map Message qs"
    by (auto simp: append_eq_map_conv inj_def dest!: map_injective)
  define wk1 where "wk1 = fold run_message ps (wk\<lparr>wk_link := keep_read h1 (?l\<lparr>link_reads := []\<rparr>)\<rparr>)"
  have link: "wk_link (fold run_message ps w) = wk_link w" for w by (induction ps arbitrary: w) simp_all
  note data = link_receive_data [OF Cons.prems(1,2) first]
  have step: "worker_link_event mem opts (Read_completes s (Received c)) wk = Ran (wk1, [])"
    by (simp add: worker_link_event_def data session_callbacks_messages wk1_def)
  have l1: "wk_link wk1 = keep_read h1 (?l\<lparr>link_reads := []\<rparr>)" by (simp add: wk1_def link)
  have "link_ok (wk_link wk1)"
    using receive_live_ok [OF Cons.prems(1,2), of "Received c"] data l1 by simp
  moreover have "link_socket (wk_link wk1) = Some s" using Cons.prems(2) by (simp add: l1 keep_read_def)
  moreover obtain h3 where "receive_all (link_proto (wk_link wk1)) cs = (h3, map Message qs)"
    using receive_all_ph_reading [where h = h1 and x = None and cs = cs] rest ms(2)
    by (cases "receive_all (h1\<lparr>ph_reading := None\<rparr>) cs") (simp add: l1 keep_read_def)
  ultimately obtain wk' where "worker_link_events mem opts (map (\<lambda>c. Read_completes s (Received c)) cs) wk1 = Ran wk'"
      "wk_rooms wk' = wk_rooms (fold run_message qs wk1)" "link_socket (wk_link wk') = Some s"
    using Cons.IH by blast
  moreover have "wk_rooms (fold run_message qs wk1) = wk_rooms (fold run_message ms wk)"
    unfolding ms(1) wk1_def fold_append o_def by (intro fold_run_message_rooms) simp
  ultimately show ?case using step by simp
qed simp

lemma fold_run_operation:
  "wk_rooms (fold run_operation ops wk) = fold (\<lambda>op. case op of Open_connection r \<Rightarrow> open_connection (sint r)
     | Close_connection r \<Rightarrow> close_connection (sint r)) ops (wk_rooms wk)"
  by (induction ops arbitrary: wk)
    (simp_all add: run_operation_def on_request_connect_room_def on_request_disconnect_room_def split: room_operation.split)

lemma fold_run_message:
  "fold run_message (map supervisor_payload ops) wk = fold run_operation ops wk"
  by (induction ops arbitrary: wk) (simp_all add: run_message_def supervisor_message.dec_enc_alone)

section \<open>A worker that connects\<close>

definition demo_options :: worker_options where
  "demo_options = \<lparr>wo_max_rooms = 500, wo_auth_code = [97]\<rparr>"

definition demo_site :: "borrowed_message packet_env" where
  "demo_site = \<lparr>serialize_buffer = \<lambda>p room. (Some sample_message, p),
     serialize_popularity = \<lambda>w room. \<lparr>bm_crc32 = 0, bm_routing_key = replicate 32 0, bm_body = []\<rparr>,
     uncompress = \<lambda>n src. Inl 0\<rparr>"

abbreviation demo_reach :: "worker \<Rightarrow> bool" where
  "demo_reach \<equiv> reach (\<lambda>wk. wk = new_worker (replicate 16 0) 30) (wk_step demo_site demo_opts (\<lambda>_. 0) demo_options)"

abbreviation demo_event :: "link_event \<Rightarrow> worker \<Rightarrow> (worker \<times> link_output list) ran" where
  "demo_event \<equiv> worker_link_event (\<lambda>_. 0) demo_options"

definition demo_connecting :: worker where
  "demo_connecting = (new_worker (replicate 16 0) 30)
     \<lparr>wk_link := (new_sv_link (replicate 16 0) 30)\<lparr>link_timer := None, link_connecting := [0], link_next := 1\<rparr>\<rparr>"

definition demo_ready :: write_buffer where
  "demo_ready = (0, simple_frame (worker_ready_code # put_be32 500 @ zero_padded 32 [97]))"

definition demo_connected :: worker where
  "demo_connected = (new_worker (replicate 16 0) 30)
     \<lparr>wk_link := (new_sv_link (replicate 16 0) 30)\<lparr>link_timer := None, link_connecting := [], link_next := 1,
        link_reads := [0], link_proto := (new_proto_handler (replicate 16 0) None)\<lparr>ph_socket := Some 0\<rparr>,
        link_writes := (new_write_world True (Some 0))\<lparr>wq_posted := [(0, demo_ready)]\<rparr>\<rparr>,
      wk_next_buffer := 1\<rparr>"

lemma demo_connecting_reach: "demo_reach demo_connecting"
proof -
  let ?start = "new_worker (replicate 16 0) 30"
  let ?resolving = "?start\<lparr>wk_link := (wk_link ?start)\<lparr>link_timer := None, link_resolving := 1\<rparr>\<rparr>"
  have 1: "demo_event (Timer_fires Io_ok) ?start = Ran (?resolving, [])"
    by (simp add: worker_link_event_def on_retry_timer_tick_def link_connect_def new_worker_def
        new_sv_link_def new_write_world_def)
  have 2: "demo_event (Name_resolved Io_ok) ?resolving = Ran (demo_connecting, [])"
    by (simp add: worker_link_event_def link_on_resolved_def demo_connecting_def new_worker_def new_sv_link_def Let_def)
  have "demo_reach ?start" by (rule reach_start) simp
  then have "demo_reach ?resolving"
    by (rule reach_step, intro wk_link_step [OF _ 1])
      (simp add: new_worker_def new_sv_link_def settled_def new_write_world_def)
  then show ?thesis
    by (rule reach_step, intro wk_link_step [OF _ 2])
      (simp add: new_worker_def new_sv_link_def settled_def new_write_world_def)
qed

lemma demo_connecting_possible: "link_possible (wk_link demo_connecting) (Socket_connected Io_ok 0)"
  by (simp add: demo_connecting_def new_sv_link_def settled_def new_write_world_def)

lemma demo_connects:
  "demo_event (Socket_connected Io_ok 0) demo_connecting = Ran (demo_connected, [Link_write (Buffer_posted demo_ready)])"
  by (simp add: demo_connecting_def demo_connected_def worker_link_event_def link_on_connected_def
      new_sv_link_def new_write_world_def new_write_helper_def new_proto_handler_def reset_proto_handler_def
      start_async_read_def keep_read_def reset_write_helper_def wh_lock_def proto_socket_alive_def new_worker_def
      on_supervisor_connected_def publish_packet_def worker_ready_packet demo_options_def demo_ready_def
      publish_msg_def link_write_def write_buffer_post_def wq_alive_def Let_def)

lemma demo_connected_reach: "demo_reach demo_connected"
  by (rule reach_step [OF demo_connecting_reach wk_link_step [OF demo_connecting_possible demo_connects]])

lemma demo_link_ok: "link_ok (wk_link demo_connected)"
  using process.inv_reach [OF demo_connected_reach] by (simp add: wk_ok_def)

lemma demo_socket [simp]: "link_socket (wk_link demo_connected) = Some 0"
  by (simp add: demo_connected_def new_write_world_def)

lemma demo_proto [simp]:
  "link_proto (wk_link demo_connected) = (new_proto_handler (replicate 16 0) None)\<lparr>ph_socket := Some 0\<rparr>"
  by (simp add: demo_connected_def)

lemma demo_rooms [simp]: "wk_rooms demo_connected = new_room_manager"
  by (simp add: demo_connected_def new_worker_def)

lemma new_room_opened:
  "wk_rooms (run_operation (Open_connection 7) demo_connected) =
     \<lparr>rm_connections = [(7, 0)], rm_objects = [(0, new_ws_conn 7)], rm_pending = [(0, Fetch_config)], rm_next = 1\<rparr>"
  by (simp add: run_operation_def on_request_connect_room_def open_fresh new_room_manager_def)

lemma demo_assigned:
  "\<exists>wk. demo_reach wk \<and> link_socket (wk_link wk) = Some 0
     \<and> wk_rooms wk = wk_rooms (run_operation (Open_connection 7) demo_connected)"
proof -
  let ?chunk = "[0, 0, 0, 5, 1, 0, 0, 0, 7] :: bytes"
  have "snd (on_receive True (Received ?chunk) (link_proto (wk_link demo_connected)))
      = [Message (supervisor_payload (Open_connection 7))]"
    by code_simp
  then obtain h where rec: "on_receive True (Received ?chunk) (link_proto (wk_link demo_connected))
      = (h, map Message [supervisor_payload (Open_connection 7)])"
    by (metis list.simps(8,9) prod.collapse)
  let ?l = "keep_read h ((wk_link demo_connected)\<lparr>link_reads := []\<rparr>)"
  let ?wk = "run_operation (Open_connection 7) (demo_connected\<lparr>wk_link := ?l\<rparr>)"
  have "demo_event (Read_completes 0 (Received ?chunk)) demo_connected = Ran (?wk, [])"
    by (simp add: worker_link_event_def link_receive_data [OF demo_link_ok demo_socket rec]
        supervisor_message.dec_enc_alone)
  moreover have "link_possible (wk_link demo_connected) (Read_completes 0 (Received ?chunk))"
    by (simp add: demo_connected_def)
  ultimately have "demo_reach ?wk" by (intro reach_step [OF demo_connected_reach] wk_link_step)
  moreover have "link_socket (wk_link ?wk) = Some 0" by (simp add: keep_read_def)
  moreover have "wk_rooms ?wk = wk_rooms (run_operation (Open_connection 7) demo_connected)"
    by (simp add: run_operation_def on_request_connect_room_def)
  ultimately show ?thesis by blast
qed

lemma worker_executes:
  assumes "reach (\<lambda>wk. wk = new_worker buf t) (wk_step env wopts mem opts) wk"
    and "link_socket (wk_link wk) = Some s"
    and "handler_ok (link_proto (wk_link wk))" and "buffered (link_proto (wk_link wk)) = []"
    and "9 \<le> read_buffer_size (link_proto (wk_link wk))" and "read_buffer_size (link_proto (wk_link wk)) < 2 ^ 32"
    and "list_all2 (\<lambda>op p. generate_operation 4 mem' op = Some p) ops packets"
    and "concat cs = concat packets" and "chunks_fit (link_proto (wk_link wk)) cs"
  shows "\<exists>wk'. worker_link_events mem opts (map (\<lambda>c. Read_completes s (Received c)) cs) wk = Ran wk'
    \<and> wk_rooms wk' = fold (\<lambda>op. case op of Open_connection r \<Rightarrow> open_connection (sint r)
          | Close_connection r \<Rightarrow> close_connection (sint r)) ops (wk_rooms wk)
    \<and> link_socket (wk_link wk') = Some s"
proof -
  let ?h = "link_proto (wk_link wk)" and ?ps = "map supervisor_payload ops"
  have "wk_ok wk" by (rule process.inv_reach [OF assms(1)])
  then have ok: "link_ok (wk_link wk)" by (simp add: wk_ok_def)
  have "packets = map simple_frame ?ps"
    using assms(7) by (induction) (simp_all add: generate_operation_frame)
  with assms(8) have cs: "concat cs = concat (map (simple_frame \<circ> supervisor_payload) ops)" by simp
  have "length p + 4 \<le> read_buffer_size ?h" if "p \<in> set ?ps" for p
    using assms(5) that by (auto simp: length_supervisor_payload)
  note parse = concat_frames_parse [of ?ps, OF this assms(6), unfolded map_map]
  obtain h out where run: "receive_all ?h cs = (h, out)" by fastforce
  have "out = map Message ?ps"
    using receive_all_parse [OF assms(3,9) _ run] parse by (simp add: assms(4) cs)
  with worker_receive_all [OF ok assms(2)] run show ?thesis by (metis fold_run_message fold_run_operation)
qed

text \<open>C4 From the supervisor to the rooms. When a connected worker whose reader holds no bytes of an
  earlier message receives, in whatever chunks, the packets the supervisor generates for a
  sequence of assignments and unassignments, its connection manager has opened and closed exactly
  these rooms, in this order.\<close>

theorem assignments_reach_rooms:
  assumes "reach (\<lambda>wk. wk = new_worker buf t) (wk_step env wopts mem opts) wk"
    and "link_socket (wk_link wk) = Some s"
    and "handler_ok (link_proto (wk_link wk))" and "buffered (link_proto (wk_link wk)) = []"
    and "9 \<le> read_buffer_size (link_proto (wk_link wk))" and "read_buffer_size (link_proto (wk_link wk)) < 2 ^ 32"
    and "list_all2 (\<lambda>op p. generate_operation 4 mem' op = Some p) ops packets"
    and "concat cs = concat packets" and "chunks_fit (link_proto (wk_link wk)) cs"
  shows "\<exists>wk'. worker_link_events mem opts (map (\<lambda>c. Read_completes s (Received c)) cs) wk = Ran wk'
    \<and> wk_rooms wk' = fold (\<lambda>op. case op of Open_connection r \<Rightarrow> open_connection (sint r)
          | Close_connection r \<Rightarrow> close_connection (sint r)) ops (wk_rooms wk)
    \<and> link_socket (wk_link wk') = Some s"
  by (rule worker_executes [OF assms])

theorem assignments_reach_rooms_witness:
  "\<exists>wk'. worker_link_events (\<lambda>_. 0) demo_options
      [Read_completes 0 (Received [0, 0, 0, 5, 1, 0, 0]), Read_completes 0 (Received [0, 7])] demo_connected = Ran wk'
    \<and> rm_connections (wk_rooms wk') = [(7, 0)]"
proof -
  let ?cs = "[[0, 0, 0, 5, 1, 0, 0], [0, 7]] :: bytes list"
  let ?h = "(new_proto_handler (replicate 16 0) None)\<lparr>ph_socket := Some 0\<rparr>"
  have packets: "list_all2 (\<lambda>op p. generate_operation 4 (\<lambda>_. 0) op = Some p) [Open_connection 7]
      [[0, 0, 0, 5, 1, 0, 0, 0, 7]]" by code_simp
  have fits: "chunks_fit ?h ?cs" by code_simp
  have ok: "handler_ok ?h" by (simp add: handler_ok_def new_proto_handler_def buffered_def parse_stuck)
  have empty: "buffered ?h = []" by (simp add: buffered_def new_proto_handler_def)
  have size: "read_buffer_size ?h = 16" by (simp add: new_proto_handler_def)
  have "\<exists>wk'. worker_link_events (\<lambda>_. 0) demo_options (map (\<lambda>c. Read_completes 0 (Received c)) ?cs) demo_connected = Ran wk'
      \<and> wk_rooms wk' = fold (\<lambda>op. case op of Open_connection r \<Rightarrow> open_connection (sint r)
          | Close_connection r \<Rightarrow> close_connection (sint r)) [Open_connection 7] (wk_rooms demo_connected)
      \<and> link_socket (wk_link wk') = Some 0"
    by (rule assignments_reach_rooms [OF demo_connected_reach demo_socket _ _ _ _ packets])
      (use fits in \<open>simp_all only: demo_proto ok empty size, simp_all\<close>)
  then show ?thesis by (auto simp: open_fresh new_room_manager_def)
qed

lemma worker_reports:
  assumes "reach (\<lambda>wk. wk = new_worker buf t) (wk_step env wopts mem opts) wk"
    and "link_socket (wk_link wk) = Some s"
    and "complete env wopts i a ev (wk_rooms wk) = Ran (rooms, reports)" and "list_all full_key reports"
  shows "\<exists>wk'. worker_room_event env wopts mem i a ev wk =
      Ran (wk', map (\<lambda>b. Link_write (Buffer_posted b)) (report_buffers (wk_next_buffer wk) reports))
    \<and> wq_posted (link_writes (wk_link wk')) = wq_posted (link_writes (wk_link wk))
        @ map (Pair s) (report_buffers (wk_next_buffer wk) reports)
    \<and> map snd (report_buffers (wk_next_buffer wk) reports) = map (simple_frame \<circ> report_payload) reports"
proof -
  have "wk_ok wk" by (rule process.inv_reach [OF assms(1)])
  then have "link_ok (wk_link (wk\<lparr>wk_rooms := rooms\<rparr>))" by (simp add: wk_ok_def)
  from room_callbacks_connected [OF this _ assms(4), of s mem] assms(2,3) show ?thesis
    by (simp add: worker_room_event_def report_buffers_def)
qed

text \<open>C19 From the rooms to the supervisor. When an operation of a connection completes while the worker
  is connected, every report of it becomes one packet, posted to the write queue in the order
  of the reports; its payload is the report's: the failed room, or the room, checksum, routing key
  and body of the message.\<close>

theorem reports_reach_queue:
  assumes "reach (\<lambda>wk. wk = new_worker buf t) (wk_step env wopts mem opts) wk"
    and "link_socket (wk_link wk) = Some s"
    and "complete env wopts i a ev (wk_rooms wk) = Ran (rooms, reports)" and "list_all full_key reports"
  shows "\<exists>wk'. worker_room_event env wopts mem i a ev wk =
      Ran (wk', map (\<lambda>b. Link_write (Buffer_posted b)) (report_buffers (wk_next_buffer wk) reports))
    \<and> wq_posted (link_writes (wk_link wk')) = wq_posted (link_writes (wk_link wk))
        @ map (Pair s) (report_buffers (wk_next_buffer wk) reports)
    \<and> map snd (report_buffers (wk_next_buffer wk) reports) = map (simple_frame \<circ> report_payload) reports"
  by (rule worker_reports [OF assms])

theorem reports_reach_queue_witness:
  "\<exists>wk wk' b. worker_room_event demo_site demo_opts (\<lambda>_. 0) 0 Fetch_config Config_failed wk =
      Ran (wk', [Link_write (Buffer_posted b)]) \<and> snd b = simple_frame (room_failed_code # put_be32 7)"
proof -
  obtain wk where wk: "demo_reach wk" "link_socket (wk_link wk) = Some 0"
      "wk_rooms wk = wk_rooms (run_operation (Open_connection 7) demo_connected)" using demo_assigned by blast
  have "\<exists>rooms. complete demo_site demo_opts 0 Fetch_config Config_failed (wk_rooms wk) = Ran (rooms, [Failed_room 7])"
    unfolding wk(3) new_room_opened by (simp add: complete_def ws_on_config_failed_def new_ws_conn_def)
  then obtain rooms where "complete demo_site demo_opts 0 Fetch_config Config_failed (wk_rooms wk) = Ran (rooms, [Failed_room 7])"
    by blast
  from reports_reach_queue [OF wk(1,2) this] show ?thesis
    by (force simp: report_buffers_def)
qed

text \<open>C35 The loss of the supervisor. Whatever event of the link ends in its disconnection, the closing
  of all rooms is then due, and when it runs it ends and leaves no room in the map.\<close>

theorem lost_link_closes_rooms:
  assumes "reach (\<lambda>wk. wk = new_worker buf t) (wk_step env wopts mem opts) wk"
    and "link_possible (wk_link wk) e" and "Link_disconnected \<in> set (snd (link_handle e (wk_link wk)))"
    and "worker_link_event mem opts e wk = Ran (wk', out)"
  shows "0 < wk_close_posted wk'
    \<and> (\<exists>wk''. worker_close_all wk' = Some wk'' \<and> rm_connections (wk_rooms wk'') = [])"
proof -
  have ok: "wk_ok wk" by (rule process.inv_reach [OF assms(1)])
  note event = worker_link_event_ok [OF assms(4,2) ok]
  then have "rm_ok (wk_rooms wk')" by (simp add: wk_ok_def)
  from close_all_returns [OF this] obtain rooms where
    "close_all_connections (wk_rooms wk') = Some rooms" "rm_connections rooms = []" by blast
  with event assms(3) show ?thesis by (auto simp: worker_close_all_def)
qed

theorem lost_link_closes_rooms_witness:
  "\<exists>wk wk'. demo_event (Read_completes 0 Receive_error) demo_connected = Ran (wk, []) \<and> 0 < wk_close_posted wk
     \<and> worker_close_all wk = Some wk' \<and> rm_connections (wk_rooms wk') = []"
proof -
  let ?e = "Read_completes 0 Receive_error"
  have possible: "link_possible (wk_link demo_connected) ?e" by (simp add: demo_connected_def)
  have lost: "snd (link_handle ?e (wk_link demo_connected)) = [Link_disconnected]"
    by (simp add: link_on_receive_def on_receive_def link_on_failed_def case_prod_beta Let_def)
  obtain l where "link_handle ?e (wk_link demo_connected) = (l, [Link_disconnected])"
    using lost by (metis prod.collapse)
  then have event: "demo_event ?e demo_connected = Ran (on_supervisor_disconnected (demo_connected\<lparr>wk_link := l\<rparr>), [])"
    by (simp add: worker_link_event_def)
  from lost_link_closes_rooms [OF demo_connected_reach possible _ event] lost event show ?thesis by auto
qed

text \<open>C10 The link is never abandoned. In every reachable state it is in exactly one of four phases,
  waiting for the retry timer, resolving, connecting or connected; connected, the reader and the
  queue use that socket and exactly one read on it is in progress.\<close>

theorem link_never_abandoned:
  assumes "reach (\<lambda>c. c = new_sv_link buf t) link_step c"
  shows "of_bool (link_socket c \<noteq> None) + of_bool (link_timer c \<noteq> None) + link_resolving c
      + length (link_connecting c) = (1 :: nat)
    \<and> (\<forall>s. link_socket c = Some s \<longrightarrow> link_reads c = [s] \<and> ph_socket (link_proto c) = Some s
         \<and> wh_socket (wq_helper (link_writes c)) = Some s)"
  using link.inv_reach [OF assms] by (simp add: link_ok_def link_phase_def)

theorem link_never_abandoned_witness:
  "link_resolving (link_connect ((new_sv_link [] 30)\<lparr>link_timer := None\<rparr>)) = 1
   \<and> of_bool (link_timer (link_connect ((new_sv_link [] 30)\<lparr>link_timer := None\<rparr>)) \<noteq> None) = (0 :: nat)"
proof -
  let ?c = "link_connect ((new_sv_link [] 30)\<lparr>link_timer := None\<rparr>)"
  have start: "reach (\<lambda>c. c = new_sv_link [] 30) link_step (new_sv_link [] 30)" by (rule reach_start) simp
  have "link_step (new_sv_link [] 30) ?c" unfolding link_step_def
    by (intro exI [of _ "Timer_fires Io_ok"])
      (simp add: on_retry_timer_tick_def new_sv_link_def settled_def new_write_world_def)
  then have r: "reach (\<lambda>c. c = new_sv_link [] 30) link_step ?c" by (rule reach_step [OF start])
  have "link_resolving ?c = 1" by (simp add: link_connect_def new_sv_link_def new_write_world_def)
  with link_never_abandoned [OF r] show ?thesis by simp
qed

text \<open>A new session begins with the ready packet: when a connect succeeds, everything left in the
  queue from earlier sessions is freed, and the first buffer posted is the ready packet
  with the worker's room limit and code.\<close>

theorem session_starts_with_ready:
  assumes "reach (\<lambda>wk. wk = new_worker buf t) (wk_step env wopts mem opts) wk"
    and "link_possible (wk_link wk) (Socket_connected Io_ok s)" and "length (wo_auth_code opts) \<le> 32"
  shows "\<exists>wk' out. worker_link_event mem opts (Socket_connected Io_ok s) wk = Ran (wk', out)
    \<and> link_socket (wk_link wk') = Some s \<and> write_queue (wq_helper (link_writes (wk_link wk'))) = []
    \<and> wq_posted (link_writes (wk_link wk')) = [(s, wk_next_buffer wk,
        simple_frame (worker_ready_code # put_be32 (wo_max_rooms opts) @ zero_padded 32 (wo_auth_code opts)))]"
proof -
  let ?l = "wk_link wk"
  have "wk_ok wk" by (rule process.inv_reach [OF assms(1)])
  then have ok: "link_ok ?l" by (simp add: wk_ok_def)
  from assms(2) have conn: "s \<in> set (link_connecting ?l)" "settled ?l" by simp_all
  note eq = link_connected_eq [OF ok conn]
  have socket: "link_socket (fst (link_on_connected Io_ok s ?l)) = Some s" by (simp add: eq)
  have ok': "link_ok (fst (link_on_connected Io_ok s ?l))"
    using link_connected_ok [OF ok conn(1) _ conn(2)] by simp
  have none: "wq_posted (link_writes ?l) = []"
    using settled_none(3) [OF conn(2)] phase_connecting [OF ok conn(1)] by simp
  have frees: "session_callbacks mem opts (map (\<lambda>b. Link_write (f b)) xs @ ys) w =
      (case session_callbacks mem opts ys w of Ran (w', out) \<Rightarrow> Ran (w', map (\<lambda>b. Link_write (f b)) xs @ out) | r \<Rightarrow> r)"
    for f :: "write_buffer \<Rightarrow> write_output" and xs ys w
    by (induction xs) (auto split: ran.splits)
  show ?thesis using none publish_connected [OF ok' socket] assms(3)
    by (simp add: worker_link_event_def eq frees on_supervisor_connected_def publish_packet_def
        worker_ready_packet)
qed

theorem session_starts_with_ready_witness:
  "\<exists>wk' out. demo_event (Socket_connected Io_ok 0) demo_connecting = Ran (wk', out)
    \<and> wq_posted (link_writes (wk_link wk')) =
        [(0, wk_next_buffer demo_connecting, simple_frame (worker_ready_code # put_be32 500 @ zero_padded 32 [97]))]"
proof -
  have "length (wo_auth_code demo_options) \<le> 32" by (simp add: demo_options_def)
  from session_starts_with_ready [OF demo_connecting_reach demo_connecting_possible this] show ?thesis
    by (auto simp: demo_options_def)
qed

text \<open>Short data given to \<open>on_data\<close> without a connection is freed twice.\<close>

theorem short_data_freed_twice:
  assumes "length (snd b) < 4" and "link_socket l = None"
  shows "session_on_data b l = (l, [Link_write (Buffer_deleted (fst b)), Link_write (Buffer_deleted (fst b))])"
  using assms by (simp add: session_on_data_def publish_msg_def simple_message_header_length_def)

end
