(* ===== verification/Amqp_Client.thy ===== *)
theory Amqp_Client
  imports Bili_Conn_Tcp
begin

text \<open>
  The connection of the supervisor to the message broker, src/supervisor/amqp_client.cpp: the
  socket, the reading of the stream for the AMQP library, heartbeat and reconnection, and the
  channel that payloads are published on. The library (AMQP-CPP) is not part of the repository: it is the
  argument \<open>lib\<close>, whose functions return the calls of the connection handler they make. \<open>Crashed\<close> is
  an exception nobody catches.
\<close>

section \<open>The library\<close>

datatype amqp_callback = On_data bytes | On_error | On_ready | On_closed | On_negotiate "16 word"

text \<open>
  The operations of an AMQP connection on its own state: the constructor, \<open>close\<close>, \<open>fail\<close> (which
  tells whether it reports an error), \<open>usable\<close>, \<open>heartbeat\<close> and \<open>parse\<close> (how many bytes it has
  consumed).
\<close>

record 'l amqp_lib =
  lib_new :: "amqp_callback list \<times> 'l"
  lib_close :: "'l \<Rightarrow> amqp_callback list \<times> 'l"
  lib_fail :: "'l \<Rightarrow> bool \<times> 'l"
  lib_usable :: "'l \<Rightarrow> bool"
  lib_heartbeat :: "'l \<Rightarrow> amqp_callback list \<times> 'l"
  lib_parse :: "'l \<Rightarrow> bytes \<Rightarrow> nat \<times> amqp_callback list \<times> 'l"

section \<open>amqp_asio_connection\<close>

definition READ_BUFFER_LEN :: nat where "READ_BUFFER_LEN = 4096 * 2"
definition MIN_HEARTBEAT_LEN_SEC :: int where "MIN_HEARTBEAT_LEN_SEC = 60"

text \<open>
  \<open>am_connection\<close> names the library's connection object and holds its state. \<open>am_socket\<close> tells of a socket whether
  it is still connected, since shutting down one that is not throws: one that failed to connect, or one that the broker
  has reset (\<open>peer_resets\<close>, which can happen before any operation). Timers hold their delay.
\<close>

record 'l amqp_conn =
  am_connection :: "(nat \<times> 'l) option"
  am_initializing :: bool
  am_heartbeat_interval :: int
  am_reconnect_interval :: int
  am_timer :: "int option"
  am_reconnect_timer :: "int option"
  am_socket :: "bool option"
  am_buffer :: bytes
  am_remaining :: nat
  am_next :: nat

datatype amqp_output =
    Sent_to_broker bytes | Ready_handler | Negotiated int | Reading_at nat nat

definition new_amqp_conn :: "bytes \<Rightarrow> int \<Rightarrow> 'l amqp_conn" where
  "new_amqp_conn buf reconnect_interval =
     \<lparr>am_connection = None, am_initializing = False, am_heartbeat_interval = 60,
      am_reconnect_interval = reconnect_interval, am_timer = None, am_reconnect_timer = None,
      am_socket = None, am_buffer = buf, am_remaining = 0, am_next = 0\<rparr>"

definition peer_resets :: "'l amqp_conn \<Rightarrow> 'l amqp_conn" where
  "peer_resets c = c\<lparr>am_socket := map_option (\<lambda>connected. False) (am_socket c)\<rparr>"

definition start_heartbeat_timer :: "'l amqp_conn \<Rightarrow> 'l amqp_conn" where
  "start_heartbeat_timer c = c\<lparr>am_timer := Some (am_heartbeat_interval c)\<rparr>"

definition start_reconnect_timer :: "'l amqp_conn \<Rightarrow> 'l amqp_conn" where
  "start_reconnect_timer c = c\<lparr>am_reconnect_timer := Some (am_reconnect_interval c)\<rparr>"

definition close_socket :: "bool \<Rightarrow> 'l amqp_conn \<Rightarrow> 'l amqp_conn ran" where
  "close_socket active c =
     (let c = c\<lparr>am_remaining := 0\<rparr> in
      case am_socket c of
        None \<Rightarrow> Ran c
      | Some connected \<Rightarrow>
          if \<not> connected then Crashed
          else (let c = c\<lparr>am_timer := None, am_socket := None\<rparr>
                in Ran (if \<not> active then start_reconnect_timer c else c)))"

text \<open>The guard of the callbacks, \<open>conn\<close> being the object that calls.\<close>

definition foreign_call :: "nat \<Rightarrow> 'l amqp_conn \<Rightarrow> bool" where
  "foreign_call conn c \<longleftrightarrow>
     (map_option fst (am_connection c) \<noteq> Some conn \<and> \<not> am_initializing c) \<or> am_socket c = None"

definition onError :: "nat \<Rightarrow> 'l amqp_conn \<Rightarrow> 'l amqp_conn ran" where
  "onError conn c = (if foreign_call conn c then Ran c
     else close_socket False (c\<lparr>am_initializing := False\<rparr>))"

definition onClosed :: "nat \<Rightarrow> 'l amqp_conn \<Rightarrow> 'l amqp_conn ran" where
  "onClosed conn c = (if foreign_call conn c then Ran c
     else close_socket True (c\<lparr>am_initializing := False\<rparr>))"

definition onReady :: "'l amqp_conn \<Rightarrow> 'l amqp_conn" where
  "onReady c = start_heartbeat_timer (c\<lparr>am_initializing := False\<rparr>)"

definition onNegotiate :: "nat \<Rightarrow> 16 word \<Rightarrow> 'l amqp_conn \<Rightarrow> 'l amqp_conn \<times> int" where
  "onNegotiate conn interval c = (if foreign_call conn c then (c, uint interval)
     else (let h = min (uint interval) MIN_HEARTBEAT_LEN_SEC div 2
           in (c\<lparr>am_heartbeat_interval := h\<rparr>, h * 2)))"

text \<open>\<open>fail\<close> on the state \<open>l\<close> of the calling object, with the error it may report.\<close>

definition library_fails :: "'l amqp_lib \<Rightarrow> nat \<Rightarrow> 'l \<Rightarrow> 'l amqp_conn \<Rightarrow> ('l \<times> 'l amqp_conn) ran" where
  "library_fails lib conn l c = (case lib_fail lib l of (reports, l) \<Rightarrow>
     (case (if reports then onError conn c else Ran c) of Ran c \<Rightarrow> Ran (l, c)
      | Crashed \<Rightarrow> Crashed | Spins \<Rightarrow> Spins))"

definition onData ::
    "'l amqp_lib \<Rightarrow> (bytes \<Rightarrow> bool) \<Rightarrow> nat \<Rightarrow> bytes \<Rightarrow> 'l \<Rightarrow> 'l amqp_conn
      \<Rightarrow> ('l \<times> 'l amqp_conn \<times> amqp_output list) ran" where
  "onData lib send_ok conn data l c =
     (if foreign_call conn c then Ran (l, c, [])
      else if send_ok data then Ran (l, c, [Sent_to_broker data])
      else (case library_fails lib conn l c of
          Ran (l, c) \<Rightarrow> (case close_socket False c of Ran c \<Rightarrow> Ran (l, c, []) | Crashed \<Rightarrow> Crashed | Spins \<Rightarrow> Spins)
        | Crashed \<Rightarrow> Crashed | Spins \<Rightarrow> Spins))"

fun amqp_call ::
    "'l amqp_lib \<Rightarrow> (bytes \<Rightarrow> bool) \<Rightarrow> nat \<Rightarrow> amqp_callback \<Rightarrow> 'l \<Rightarrow> 'l amqp_conn
      \<Rightarrow> ('l \<times> 'l amqp_conn \<times> amqp_output list) ran" where
  "amqp_call lib send_ok conn (On_data data) l c = onData lib send_ok conn data l c"
| "amqp_call lib send_ok conn On_error l c =
     (case onError conn c of Ran c \<Rightarrow> Ran (l, c, []) | Crashed \<Rightarrow> Crashed | Spins \<Rightarrow> Spins)"
| "amqp_call lib send_ok conn On_ready l c = Ran (l, onReady c, [Ready_handler])"
| "amqp_call lib send_ok conn On_closed l c =
     (case onClosed conn c of Ran c \<Rightarrow> Ran (l, c, []) | Crashed \<Rightarrow> Crashed | Spins \<Rightarrow> Spins)"
| "amqp_call lib send_ok conn (On_negotiate i) l c =
     (case onNegotiate conn i c of (c, h) \<Rightarrow> Ran (l, c, [Negotiated h]))"

fun amqp_calls ::
    "'l amqp_lib \<Rightarrow> (bytes \<Rightarrow> bool) \<Rightarrow> nat \<Rightarrow> amqp_callback list \<Rightarrow> 'l \<Rightarrow> 'l amqp_conn
      \<Rightarrow> ('l \<times> 'l amqp_conn \<times> amqp_output list) ran" where
  "amqp_calls lib send_ok conn [] l c = Ran (l, c, [])"
| "amqp_calls lib send_ok conn (x # xs) l c = (case amqp_call lib send_ok conn x l c of
       Ran (l, c, out) \<Rightarrow> (case amqp_calls lib send_ok conn xs l c of
           Ran (l, c, out') \<Rightarrow> Ran (l, c, out @ out') | Crashed \<Rightarrow> Crashed | Spins \<Rightarrow> Spins)
     | Crashed \<Rightarrow> Crashed | Spins \<Rightarrow> Spins)"

definition put_connection :: "nat \<Rightarrow> 'l \<Rightarrow> 'l amqp_conn \<Rightarrow> 'l amqp_conn" where
  "put_connection conn l c = c\<lparr>am_connection := Some (conn, l)\<rparr>"

definition amqp_start_async_read :: "'l amqp_conn \<Rightarrow> amqp_output list" where
  "amqp_start_async_read c = (if am_socket c = None then []
     else [Reading_at (am_remaining c) (READ_BUFFER_LEN - am_remaining c)])"

text \<open>
  \<open>reconnect\<close>: closing the old connection, resolving, connecting (blocking) and constructing the
  library's connection. A socket that failed to connect stays in \<open>_socket\<close>.
\<close>

definition reconnect ::
    "'l amqp_lib \<Rightarrow> (bytes \<Rightarrow> bool) \<Rightarrow> bool \<Rightarrow> bool \<Rightarrow> 'l amqp_conn \<Rightarrow> ('l amqp_conn \<times> amqp_output list \<times> bool) ran" where
  "reconnect lib send_ok resolves connects c =
     (case (case am_connection c of
          None \<Rightarrow> Ran (c, [])
        | Some (conn, l) \<Rightarrow> (case lib_close lib l of (calls, l) \<Rightarrow>
            (case amqp_calls lib send_ok conn calls l c of
               Ran (l, c, out) \<Rightarrow> Ran (c\<lparr>am_connection := None\<rparr>, out) | Crashed \<Rightarrow> Crashed | Spins \<Rightarrow> Spins))) of
        Ran (c, out) \<Rightarrow>
          (case (if am_socket c \<noteq> None then close_socket True c else Ran c) of
             Ran c \<Rightarrow>
               (let c = c\<lparr>am_socket := None\<rparr> in
                if \<not> resolves then Ran (start_reconnect_timer c, out, False)
                else if am_socket c \<noteq> None \<and> am_connection c \<noteq> None then Ran (c, out, False)
                else if \<not> connects then Ran (start_reconnect_timer (c\<lparr>am_socket := Some False\<rparr>), out, False)
                else (let conn = am_next c;
                          c = c\<lparr>am_socket := Some True, am_initializing := True, am_next := conn + 1\<rparr> in
                  case lib_new lib of (calls, l) \<Rightarrow>
                    (case amqp_calls lib send_ok conn calls l c of
                       Ran (l, c, out') \<Rightarrow>
                         (let c = put_connection conn l c in Ran (c, out @ out' @ amqp_start_async_read c, True))
                     | Crashed \<Rightarrow> Crashed | Spins \<Rightarrow> Spins)))
           | Crashed \<Rightarrow> Crashed | Spins \<Rightarrow> Spins)
      | Crashed \<Rightarrow> Crashed | Spins \<Rightarrow> Spins)"

definition disconnect :: "'l amqp_lib \<Rightarrow> (bytes \<Rightarrow> bool) \<Rightarrow> 'l amqp_conn \<Rightarrow> ('l amqp_conn \<times> amqp_output list) ran" where
  "disconnect lib send_ok c = (case am_connection c of
       None \<Rightarrow> Ran (c, [])
     | Some (conn, l) \<Rightarrow> (case lib_close lib l of (calls, l) \<Rightarrow>
         (case amqp_calls lib send_ok conn calls l c of
            Ran (l, c, out) \<Rightarrow> Ran (put_connection conn l c, out) | Crashed \<Rightarrow> Crashed | Spins \<Rightarrow> Spins)))"

definition amqp_on_timer_tick ::
    "'l amqp_lib \<Rightarrow> (bytes \<Rightarrow> bool) \<Rightarrow> io_result \<Rightarrow> 'l amqp_conn \<Rightarrow> ('l amqp_conn \<times> amqp_output list) ran" where
  "amqp_on_timer_tick lib send_ok r c =
     (if r \<noteq> Io_ok then Ran (c, [])
      else (case am_connection c of
          None \<Rightarrow> Ran (start_heartbeat_timer c, [])
        | Some (conn, l) \<Rightarrow>
            if lib_usable lib l then (case lib_heartbeat lib l of (calls, l) \<Rightarrow>
              (case amqp_calls lib send_ok conn calls l c of
                 Ran (l, c, out) \<Rightarrow> Ran (start_heartbeat_timer (put_connection conn l c), out)
               | Crashed \<Rightarrow> Crashed | Spins \<Rightarrow> Spins))
            else Ran (start_heartbeat_timer c, [])))"

definition on_reconnection_timer_tick ::
    "'l amqp_lib \<Rightarrow> (bytes \<Rightarrow> bool) \<Rightarrow> bool \<Rightarrow> bool \<Rightarrow> io_result \<Rightarrow> 'l amqp_conn
      \<Rightarrow> ('l amqp_conn \<times> amqp_output list) ran" where
  "on_reconnection_timer_tick lib send_ok resolves connects r c =
     (if r \<noteq> Io_ok then Ran (c, [])
      else (case reconnect lib send_ok resolves connects c of
          Ran (c, out, ok) \<Rightarrow> Ran (c, out) | Crashed \<Rightarrow> Crashed | Spins \<Rightarrow> Spins))"

section \<open>Receiving\<close>

text \<open>
  The loop over what has been received, \<open>bs\<close>; the rest it leaves is the last component. A library
  that claimed more bytes than it was given would make the unsigned counter wrap (\<open>Crashed\<close>).
\<close>

function parse_loop ::
    "'l amqp_lib \<Rightarrow> (bytes \<Rightarrow> bool) \<Rightarrow> nat \<Rightarrow> bytes \<Rightarrow> 'l \<Rightarrow> 'l amqp_conn
      \<Rightarrow> ('l \<times> 'l amqp_conn \<times> amqp_output list \<times> bytes) ran" where
  "parse_loop lib send_ok conn bs l c =
     (case lib_parse lib l bs of (n, calls, l) \<Rightarrow>
        (case amqp_calls lib send_ok conn calls l c of
           Ran (l, c, out) \<Rightarrow>
             if length bs < n then Crashed
             else if 0 < n \<and> n < length bs then
               (case parse_loop lib send_ok conn (drop n bs) l c of
                  Ran (l, c, out', rest) \<Rightarrow> Ran (l, c, out @ out', rest) | Crashed \<Rightarrow> Crashed | Spins \<Rightarrow> Spins)
             else Ran (l, c, out, drop n bs)
         | Crashed \<Rightarrow> Crashed | Spins \<Rightarrow> Spins))"
  by pat_completeness auto
termination
  by (relation "measure (\<lambda>(lib, send_ok, conn, bs, l, c). length bs)") auto

declare parse_loop.simps [simp del]

text \<open>The bytes the library is given: those kept from earlier reads, and the new ones.\<close>

definition received_bytes :: "bytes \<Rightarrow> 'l amqp_conn \<Rightarrow> bytes" where
  "received_bytes chunk c =
     take (length chunk + am_remaining c) (overwrite (am_remaining c) chunk (am_buffer c))"

definition amqp_on_received ::
    "'l amqp_lib \<Rightarrow> (bytes \<Rightarrow> bool) \<Rightarrow> io_result \<Rightarrow> bytes \<Rightarrow> 'l amqp_conn
      \<Rightarrow> ('l amqp_conn \<times> amqp_output list) ran" where
  "amqp_on_received lib send_ok r chunk c =
     (if r \<noteq> Io_ok then
        (case (case am_connection c of
             None \<Rightarrow> Ran c
           | Some (conn, l) \<Rightarrow> (case library_fails lib conn l c of
               Ran (l, c) \<Rightarrow> Ran (put_connection conn l c) | Crashed \<Rightarrow> Crashed | Spins \<Rightarrow> Spins)) of
           Ran c \<Rightarrow> (case close_socket False c of Ran c \<Rightarrow> Ran (c, []) | Crashed \<Rightarrow> Crashed | Spins \<Rightarrow> Spins)
         | Crashed \<Rightarrow> Crashed | Spins \<Rightarrow> Spins)
      else (case am_connection c of
          None \<Rightarrow> Ran (c, [])
        | Some (conn, l) \<Rightarrow>
            (let bs = received_bytes chunk c; buf = overwrite (am_remaining c) chunk (am_buffer c) in
             case parse_loop lib send_ok conn bs l (c\<lparr>am_buffer := buf\<rparr>) of
               Ran (l, c, out, rest) \<Rightarrow>
                 (let c = put_connection conn l c;
                      c = (if rest \<noteq> []
                           then c\<lparr>am_buffer := rest @ drop (length rest) buf, am_remaining := length rest\<rparr>
                           else c)
                  in Ran (c, out @ amqp_start_async_read c))
             | Crashed \<Rightarrow> Crashed | Spins \<Rightarrow> Spins)))"

section \<open>amqp_context\<close>

text \<open>
  \<open>ctx_channel\<close> is the connection object the channel was opened on. A post runs on the thread of
  the connection.
\<close>

record amqp_payload =
  pl_diagnostic :: bool
  pl_routing_key :: bytes
  pl_data :: bytes

record 'l amqp_context =
  ctx_conn :: "'l amqp_conn"
  ctx_channel :: "nat option"
  ctx_available :: bool
  ctx_posted :: "amqp_payload list"

datatype publish_output = Declare_exchanges nat | Published_on nat amqp_payload | Payload_dropped amqp_payload

text \<open>Constructing the context posts the first \<open>reconnect\<close>; its result is ignored.\<close>

definition new_amqp_context :: "bytes \<Rightarrow> int \<Rightarrow> 'l amqp_context" where
  "new_amqp_context buf reconnect_interval =
     \<lparr>ctx_conn = new_amqp_conn buf reconnect_interval, ctx_channel = None, ctx_available = False, ctx_posted = []\<rparr>"

text \<open>The channel is opened on the connection the ready call comes from.\<close>

definition on_ready :: "nat \<Rightarrow> 'l amqp_context \<Rightarrow> 'l amqp_context \<times> publish_output list" where
  "on_ready conn x = (x\<lparr>ctx_available := False, ctx_channel := Some conn\<rparr>, [Declare_exchanges conn])"

definition on_exchange_declared :: "'l amqp_context \<Rightarrow> 'l amqp_context" where
  "on_exchange_declared x = x\<lparr>ctx_available := True\<rparr>"

definition post_payload :: "bytes \<Rightarrow> bytes \<Rightarrow> 'l amqp_context \<Rightarrow> 'l amqp_context" where
  "post_payload routing_key payload x = x\<lparr>ctx_posted := ctx_posted x
     @ [\<lparr>pl_diagnostic = False, pl_routing_key = routing_key, pl_data = payload\<rparr>]\<rparr>"

definition post_diag_payload :: "bytes \<Rightarrow> 'l amqp_context \<Rightarrow> 'l amqp_context" where
  "post_diag_payload payload x = x\<lparr>ctx_posted := ctx_posted x
     @ [\<lparr>pl_diagnostic = True, pl_routing_key = [], pl_data = payload\<rparr>]\<rparr>"

definition run_posted :: "'l amqp_context \<Rightarrow> 'l amqp_context \<times> publish_output list" where
  "run_posted x = (case ctx_posted x of
       [] \<Rightarrow> (x, [])
     | p # ps \<Rightarrow> (x\<lparr>ctx_posted := ps\<rparr>,
         [case ctx_channel x of
            None \<Rightarrow> Payload_dropped p
          | Some ch \<Rightarrow> if \<not> ctx_available x \<or> am_connection (ctx_conn x) = None
                       then Payload_dropped p else Published_on ch p]))"

text \<open>An operation of the connection, with the ready handler run where it is called.\<close>

fun ready_calls :: "'l amqp_conn \<Rightarrow> amqp_output list \<Rightarrow> 'l amqp_context \<Rightarrow> 'l amqp_context \<times> publish_output list" where
  "ready_calls c [] x = (x, [])"
| "ready_calls c (y # ys) x =
     (case (case (y, am_connection c) of (Ready_handler, Some (conn, l)) \<Rightarrow> on_ready conn x | _ \<Rightarrow> (x, [])) of
        (x, out) \<Rightarrow> (case ready_calls c ys x of (x, out') \<Rightarrow> (x, out @ out')))"

definition ctx_operation ::
    "('l amqp_conn \<times> amqp_output list) ran \<Rightarrow> 'l amqp_context \<Rightarrow> ('l amqp_context \<times> publish_output list) ran" where
  "ctx_operation op x = (case op of Ran (c, out) \<Rightarrow> Ran (ready_calls c out (x\<lparr>ctx_conn := c\<rparr>))
     | Crashed \<Rightarrow> Crashed | Spins \<Rightarrow> Spins)"

section \<open>What the operations keep\<close>

text \<open>No callback but \<open>reconnect\<close> itself touches the pointer to the library's object.\<close>

lemma close_socket_frame:
  "close_socket active c = Ran c' \<Longrightarrow> am_connection c' = am_connection c \<and> am_buffer c' = am_buffer c
    \<and> am_socket c' = None \<and> am_remaining c' = 0"
  by (auto simp: close_socket_def start_reconnect_timer_def Let_def split: option.splits if_splits)

lemma onError_frame: "onError conn c = Ran c' \<Longrightarrow> am_connection c' = am_connection c"
  by (auto simp: onError_def dest!: close_socket_frame split: if_splits)

lemma library_fails_frame:
  "library_fails lib conn l c = Ran (l', c') \<Longrightarrow> am_connection c' = am_connection c"
  by (auto simp: library_fails_def dest: onError_frame split: prod.splits ran.splits if_splits)

lemma amqp_call_frame:
  "amqp_call lib send_ok conn x l c = Ran (l', c', out) \<Longrightarrow> am_connection c' = am_connection c"
proof (cases x)
  case (On_data data)
  then show "amqp_call lib send_ok conn x l c = Ran (l', c', out) \<Longrightarrow> ?thesis"
    by (auto simp: onData_def dest!: library_fails_frame close_socket_frame split: if_splits ran.splits)
qed (auto simp: onReady_def start_heartbeat_timer_def onNegotiate_def onClosed_def Let_def
    dest!: onError_frame close_socket_frame split: ran.splits if_splits)

lemma amqp_calls_frame:
  "amqp_calls lib send_ok conn xs l c = Ran (l', c', out) \<Longrightarrow> am_connection c' = am_connection c"
proof (induction xs arbitrary: l c l' c' out)
  case (Cons x xs)
  then show ?case by (fastforce dest: amqp_call_frame split: ran.splits prod.splits)
qed simp

lemma reconnect_failed_state:
  assumes "reconnect lib send_ok True False c = Ran (c', out, ok)"
  shows "am_connection c' = None \<and> am_socket c' = Some False \<and> am_reconnect_timer c' \<noteq> None \<and> \<not> ok"
  using assms
  by (auto simp: reconnect_def start_reconnect_timer_def Let_def
      split: option.splits ran.splits prod.splits if_splits dest!: close_socket_frame)

lemma parse_loop_all:
  assumes "lib_parse lib l bs = (length bs, [], l')"
  shows "parse_loop lib send_ok conn bs l c = Ran (l', c, [], [])"
  by (simp add: parse_loop.simps [of lib send_ok conn bs] assms)

lemma parse_loop_none:
  assumes "lib_parse lib l bs = (0, [], l')"
  shows "parse_loop lib send_ok conn bs l c = Ran (l', c, [], bs)"
  by (simp add: parse_loop.simps [of lib send_ok conn bs] assms)

lemma received_bytes_eq:
  "am_remaining c \<le> length (am_buffer c) \<Longrightarrow> received_bytes chunk c = take (am_remaining c) (am_buffer c) @ chunk"
  by (simp add: received_bytes_def overwrite_def)

end
