(* ===== verification/Amqp_Props.thy ===== *)
theory Amqp_Props
  imports Amqp_Client
begin

text \<open>
  The properties of the broker connection: what a retry after a failed connect does, which bytes
  the library is given, and which payloads are published where.
\<close>

text \<open>C23 A failed connect is fatal. When the name of the broker resolves but connecting fails, the retry
  timer is armed and the unconnected socket is kept; whatever the network does by then, the
  retry shuts that socket down and ends in an exception that nobody catches.\<close>

theorem failed_connect_crashes_retry:
  assumes "reconnect lib send_ok True False c = Ran (c', out, ok)"
  shows "\<not> ok \<and> am_reconnect_timer c' \<noteq> None
    \<and> on_reconnection_timer_tick lib send_ok' resolves connects Io_ok c' = Crashed"
  using reconnect_failed_state [OF assms]
  by (simp add: on_reconnection_timer_tick_def reconnect_def close_socket_def del: not_None_eq)

text \<open>C24 The bytes kept are given twice. When a read completes what earlier reads had left, so that
  the library takes all the bytes, the number of bytes kept is not cleared: after the next
  read the library is given the bytes kept once more, before the new ones. Only when nothing had been kept
  does it get the new bytes alone.\<close>

theorem kept_bytes_given_twice:
  assumes "am_connection c = Some (conn, l)" and "am_remaining c + length chunk \<le> length (am_buffer c)"
    and "lib_parse lib l (take (am_remaining c) (am_buffer c) @ chunk) = (am_remaining c + length chunk, [], l')"
  shows "\<exists>c' out. amqp_on_received lib send_ok Io_ok chunk c = Ran (c', out)
    \<and> am_remaining c' = am_remaining c
    \<and> received_bytes chunk' c' = take (am_remaining c) (am_buffer c) @ chunk'"
proof -
  let ?r = "am_remaining c"
  have bs: "received_bytes chunk c = take ?r (am_buffer c) @ chunk"
    using assms(2) by (simp add: received_bytes_eq)
  then have "length (received_bytes chunk c) = ?r + length chunk" using assms(2) by simp
  then have "parse_loop lib send_ok conn (received_bytes chunk c) l d = Ran (l', d, [], [])" for d
    using parse_loop_all [of lib l "received_bytes chunk c" l' send_ok conn] assms(3) by (simp add: bs)
  then have run: "amqp_on_received lib send_ok Io_ok chunk c =
      (let d = put_connection conn l' (c\<lparr>am_buffer := overwrite ?r chunk (am_buffer c)\<rparr>)
       in Ran (d, amqp_start_async_read d))"
    by (simp add: amqp_on_received_def assms(1) Let_def)
  have "take ?r (overwrite ?r chunk (am_buffer c)) = take ?r (am_buffer c)"
    using assms(2) by (simp add: overwrite_def)
  moreover have "?r \<le> length (overwrite ?r chunk (am_buffer c))"
    using assms(2) by (simp add: overwrite_def)
  ultimately show ?thesis
    by (simp add: run Let_def put_connection_def received_bytes_eq)
qed

text \<open>A reset by the broker is fatal. Once the broker has reset the connection, the handler of the read that fails shuts
  the dead socket down and ends in an exception that nobody catches, whether or not the library reports the
  error itself; without a library object so does the reconnection timer.\<close>

theorem reset_crashes_reader:
  assumes "am_socket c \<noteq> None" and "r \<noteq> Io_ok"
  shows "amqp_on_received lib send_ok r chunk (peer_resets c) = Crashed
    \<and> (am_connection c = None \<longrightarrow> on_reconnection_timer_tick lib send_ok resolves connects Io_ok (peer_resets c) = Crashed)"
proof -
  have dead: "close_socket active (peer_resets c) = Crashed" for active
    using assms(1) by (auto simp: close_socket_def peer_resets_def)
  have "amqp_on_received lib send_ok r chunk (peer_resets c) = Crashed"
  proof (cases "am_connection c")
    case None
    then show ?thesis using assms(2) dead by (simp add: amqp_on_received_def peer_resets_def)
  next
    case (Some k)
    obtain conn l reports l' where k: "k = (conn, l)" "lib_fail lib l = (reports, l')" by (metis surj_pair)
    have "close_socket False (put_connection conn l' (peer_resets c)) = Crashed"
      "close_socket False ((peer_resets c)\<lparr>am_initializing := False\<rparr>) = Crashed"
      using assms(1) by (auto simp: close_socket_def peer_resets_def put_connection_def)
    then show ?thesis using assms Some k
      by (cases reports) (auto simp: amqp_on_received_def library_fails_def onError_def foreign_call_def peer_resets_def)
  qed
  moreover have "on_reconnection_timer_tick lib send_ok resolves connects Io_ok (peer_resets c) = Crashed"
    if "am_connection c = None"
    using that assms(1) dead by (auto simp: on_reconnection_timer_tick_def reconnect_def peer_resets_def)
  ultimately show ?thesis by blast
qed

text \<open>A library that takes its bytes two at a time and remembers them.\<close>

definition pairs_lib :: "bytes amqp_lib" where
  "pairs_lib = \<lparr>lib_new = ([], []), lib_close = \<lambda>l. ([On_closed], l), lib_fail = \<lambda>l. (True, l),
     lib_usable = \<lambda>l. True, lib_heartbeat = \<lambda>l. ([On_data [8]], l),
     lib_parse = \<lambda>l bs. (length bs div 2 * 2, [], l @ take (length bs div 2 * 2) bs)\<rparr>"

definition demo_amqp :: "bytes amqp_conn" where
  "demo_amqp = (new_amqp_conn (replicate 8 0) 60)\<lparr>am_connection := Some (0, []), am_socket := Some True, am_next := 1\<rparr>"

theorem failed_connect_crashes_retry_witness:
  "\<exists>c' out. reconnect pairs_lib (\<lambda>_. True) True False (new_amqp_conn [] 60) = Ran (c', out, False)
    \<and> on_reconnection_timer_tick pairs_lib (\<lambda>_. True) True True Io_ok c' = Crashed"
proof -
  have "\<exists>c' out. reconnect pairs_lib (\<lambda>_. True) True False (new_amqp_conn [] 60) = Ran (c', out, False)"
    by (simp add: reconnect_def new_amqp_conn_def)
  then show ?thesis using failed_connect_crashes_retry by metis
qed

theorem kept_bytes_given_twice_witness:
  "\<exists>c' out. amqp_on_received pairs_lib (\<lambda>_. True) Io_ok [2] (demo_amqp\<lparr>am_buffer := [1, 0, 0, 0], am_remaining := 1\<rparr>) = Ran (c', out)
    \<and> received_bytes [3] c' = [1, 3]"
proof -
  let ?c = "demo_amqp\<lparr>am_buffer := [1, 0, 0, 0], am_remaining := 1\<rparr>"
  have 1: "am_connection ?c = Some (0, [])" by (simp add: demo_amqp_def)
  have 2: "am_remaining ?c + length [2] \<le> length (am_buffer ?c)" by simp
  have 3: "lib_parse pairs_lib [] (take (am_remaining ?c) (am_buffer ?c) @ [2]) = (am_remaining ?c + length [2], [], [1, 2])"
    by (simp add: pairs_lib_def)
  from kept_bytes_given_twice [OF 1 2 3, of "\<lambda>_. True" "[3]"] show ?thesis by auto
qed

text \<open>The loss of the broker goes unnoticed. After a receive error on a connected socket the socket is
  closed, but the channel stays available: a payload posted then is not dropped, it is published on the
  channel of the dead connection if the exchange had been declared there. Without a channel, or
  before its exchange has been declared, it is dropped.\<close>

theorem payload_publication:
  assumes "am_connection (ctx_conn x) = Some (conn, l)" and "am_socket (ctx_conn x) = Some True"
    and "ctx_posted x = []" and "r \<noteq> Io_ok"
  shows "\<exists>x'. ctx_operation (amqp_on_received lib send_ok r chunk (ctx_conn x)) x = Ran (x', [])
    \<and> am_socket (ctx_conn x') = None
    \<and> snd (run_posted (post_payload key payload x')) =
        [case ctx_channel x of
           Some ch \<Rightarrow> if ctx_available x
             then Published_on ch \<lparr>pl_diagnostic = False, pl_routing_key = key, pl_data = payload\<rparr>
             else Payload_dropped \<lparr>pl_diagnostic = False, pl_routing_key = key, pl_data = payload\<rparr>
         | None \<Rightarrow> Payload_dropped \<lparr>pl_diagnostic = False, pl_routing_key = key, pl_data = payload\<rparr>]"
proof -
  obtain reports l' where fail: "lib_fail lib l = (reports, l')" by fastforce
  have "\<exists>c. amqp_on_received lib send_ok r chunk (ctx_conn x) = Ran (c, [])
      \<and> am_socket c = None \<and> am_connection c = Some (conn, l')"
    using assms by (cases reports) (simp_all add: amqp_on_received_def library_fails_def fail onError_def
      foreign_call_def close_socket_def put_connection_def start_reconnect_timer_def Let_def)
  then show ?thesis using assms(3)
    by (auto simp: ctx_operation_def run_posted_def post_payload_def split: option.split)
qed

theorem payload_publication_witness:
  "\<exists>x'. ctx_operation (amqp_on_received pairs_lib (\<lambda>_. True) Io_eof [] demo_amqp)
        \<lparr>ctx_conn = demo_amqp, ctx_channel = Some 0, ctx_available = True, ctx_posted = []\<rparr> = Ran (x', [])
    \<and> am_socket (ctx_conn x') = None
    \<and> snd (run_posted (post_payload [1] [2] x')) = [Published_on 0 \<lparr>pl_diagnostic = False, pl_routing_key = [1], pl_data = [2]\<rparr>]"
  using payload_publication [of "\<lparr>ctx_conn = demo_amqp, ctx_channel = Some 0, ctx_available = True, ctx_posted = []\<rparr>"
      0 "[]" Io_eof pairs_lib "\<lambda>_. True" "[]" "[1]" "[2]"]
  by (simp add: demo_amqp_def)

text \<open>Heartbeats. The interval agreed on with the broker is even, at most 60 seconds and at most what the
  broker proposed, and heartbeats go out after half of it; a proposal of 0 (no heartbeats) or 1 makes
  that half 0, and every tick then arms the timer with no delay.\<close>

theorem heartbeat_interval:
  assumes "\<not> foreign_call conn c" and "onNegotiate conn interval c = (c', agreed)"
  shows "even agreed \<and> agreed \<le> 60 \<and> agreed \<le> uint interval \<and> am_heartbeat_interval c' * 2 = agreed
    \<and> am_timer (onReady c') = Some (am_heartbeat_interval c')
    \<and> (am_heartbeat_interval c' = 0 \<longleftrightarrow> uint interval < 2)"
proof -
  have "0 \<le> uint interval" by simp
  then show ?thesis using assms
    by (auto simp: onNegotiate_def MIN_HEARTBEAT_LEN_SEC_def onReady_def start_heartbeat_timer_def Let_def)
qed

theorem heartbeat_interval_witness:
  "am_timer (onReady (fst (onNegotiate 0 1 demo_amqp))) = Some 0"
  using heartbeat_interval [of 0 demo_amqp 1] by (simp add: foreign_call_def demo_amqp_def onNegotiate_def
      MIN_HEARTBEAT_LEN_SEC_def onReady_def start_heartbeat_timer_def Let_def)

text \<open>A frame longer than the read buffer is never completed: with the buffer full and nothing
  taken, the next read asks for no bytes and completes at once with the state unchanged.\<close>

theorem full_buffer_spins:
  assumes "am_connection c = Some (conn, l)" and "am_socket c = Some True"
    and "am_remaining c = READ_BUFFER_LEN" and "length (am_buffer c) = READ_BUFFER_LEN"
    and "lib_parse lib l (am_buffer c) = (0, [], l)"
  shows "amqp_on_received lib send_ok Io_ok [] c = Ran (c, [Reading_at READ_BUFFER_LEN 0])"
proof -
  have bs: "received_bytes [] c = am_buffer c" "overwrite (am_remaining c) [] (am_buffer c) = am_buffer c"
    using assms(3,4) by (simp_all add: received_bytes_def overwrite_def)
  have "am_buffer c \<noteq> []" using assms(4) by (auto simp: READ_BUFFER_LEN_def)
  moreover have "c\<lparr>am_buffer := am_buffer c, am_connection := Some (conn, l), am_remaining := READ_BUFFER_LEN\<rparr> = c"
    using assms(1,3) by (cases c) simp
  ultimately show ?thesis
    using parse_loop_none [OF assms(5), of send_ok conn c] assms
    by (simp add: amqp_on_received_def bs [unfolded assms(3)] bs(1) put_connection_def amqp_start_async_read_def Let_def)
qed

theorem full_buffer_spins_witness:
  "\<exists>c. amqp_on_received (pairs_lib\<lparr>lib_parse := \<lambda>l bs. (0, [], l)\<rparr>) (\<lambda>_. True) Io_ok [] c = Ran (c, [Reading_at READ_BUFFER_LEN 0])
    \<and> am_socket c = Some True"
proof -
  let ?c = "demo_amqp\<lparr>am_buffer := replicate READ_BUFFER_LEN 0, am_remaining := READ_BUFFER_LEN\<rparr>"
  have "am_connection ?c = Some (0, [])" "am_socket ?c = Some True" by (simp_all add: demo_amqp_def)
  from full_buffer_spins [OF this, of "pairs_lib\<lparr>lib_parse := \<lambda>l bs. (0, [], l)\<rparr>" "\<lambda>_. True"] show ?thesis
    by (intro exI [of _ ?c]) (simp add: demo_amqp_def)
qed

end
