(* ===== verification/Config_Options.thy ===== *)
theory Config_Options
  imports Text_Format "HOL-Library.Monad_Syntax"
begin

text \<open>
  The options of both programs: the descriptions (src/supervisor/config.cpp, src/worker/config.cpp),
  the configuration record filled from the parsed options, and the dynamic linker that changes
  single options of a running supervisor (src/shared/config.h). Parsing the command line and the
  file is the library's: a set of parsed options is a map from names to typed values in which
  every described option has a value of its type.
\<close>

section \<open>Descriptions\<close>

datatype option_value = Opt_string bytes | Opt_int int | Opt_size nat | Opt_bool bool | Opt_strings "bytes list"

fun same_type :: "option_value \<Rightarrow> option_value \<Rightarrow> bool" where
  "same_type (Opt_string _) (Opt_string _) \<longleftrightarrow> True"
| "same_type (Opt_int _) (Opt_int _) \<longleftrightarrow> True"
| "same_type (Opt_size _) (Opt_size _) \<longleftrightarrow> True"
| "same_type (Opt_bool _) (Opt_bool _) \<longleftrightarrow> True"
| "same_type (Opt_strings _) (Opt_strings _) \<longleftrightarrow> True"
| "same_type _ _ \<longleftrightarrow> False"

type_synonym options_description = "(string \<times> option_value) list"
type_synonym variables_map = "string \<Rightarrow> option_value option"

text \<open>The options with a value, each with its default; \<open>help\<close> and \<open>version\<close> end the program.\<close>

definition create_description_sv :: options_description where
  "create_description_sv =
     [(''room-list-update-url'', Opt_string (ascii ''http://localhost:6161/'')),
      (''room-list-update-interval'', Opt_int 30),
      (''room-list-update-timeout-sec'', Opt_int 10),
      (''amqp-host'', Opt_string (ascii ''localhost'')),
      (''amqp-port'', Opt_int 5672),
      (''amqp-user'', Opt_string (ascii ''guest'')),
      (''amqp-password'', Opt_string (ascii ''guest'')),
      (''amqp-vhost'', Opt_string (ascii ''/'')),
      (''amqp-reconnect-interval-sec'', Opt_int 30),
      (''amqp-exchange'', Opt_string (ascii ''vNerve'')),
      (''amqp-diag-exchange'', Opt_string (ascii ''vNerveDiag'')),
      (''message-ttl-sec'', Opt_int 30),
      (''min-interval-popularity-sec'', Opt_int 20),
      (''worker-port'', Opt_int 2434),
      (''check-interval-ms'', Opt_int 5000),
      (''min-check-interval-ms'', Opt_int 2000),
      (''read-buffer'', Opt_size (128 * 1024)),
      (''worker-interval-threshold-sec'', Opt_int 40),
      (''worker-penalty-min'', Opt_int 1),
      (''worker-max-new-tasks-per-bunch'', Opt_int 4),
      (''auth-code'', Opt_string (ascii ''abcdefghijklmnopqrstuvwyzabcdef'')),
      (''profiler-port'', Opt_int 7216),
      (''profiler-limit-local'', Opt_bool False)]"

definition create_description_worker :: options_description where
  "create_description_worker =
     [(''read-buffer'', Opt_size (128 * 1024)),
      (''zlib-buffer'', Opt_size (128 * 1024)),
      (''threads'', Opt_int 1),
      (''heartbeat-timeout'', Opt_int 25),
      (''chat-server'', Opt_string (ascii ''tx-sh-live-comet-03.chat.bilibili.com'')),
      (''chat-server-port'', Opt_int 443),
      (''chat-server-endpoint'', Opt_string (ascii ''/sub'')),
      (''protocol-ver'', Opt_int 2),
      (''chat-config-url'', Opt_string (ascii ''https://api.live.bilibili.com/xlive/web-room/v1/index/getDanmuInfo?id={}&type=0'')),
      (''chat-config-user-agent'', Opt_strings [ascii ''Mozilla/5.0 (Windows NT 10.0; Win64; x64) AppleWebKit/537.36 (KHTML, like Gecko) Chrome/83.0.4103.97 Safari/537.36'']),
      (''chat-config-referer'', Opt_string (ascii ''https://live.bilibili.com/'')),
      (''chat-config-interval-sec'', Opt_int 10),
      (''chat-config-timeout-sec'', Opt_int 15),
      (''supervisor-host'', Opt_string (ascii ''localhost'')),
      (''supervisor-port'', Opt_int 2434),
      (''max-rooms'', Opt_int 500),
      (''retry-interval-sec'', Opt_int 60),
      (''auth-code'', Opt_string (ascii ''abcdefghijklmnopqrstuvwyzabcdef''))]"

text \<open>What the parser stores: every described option has a value of its type.\<close>

definition stored :: "options_description \<Rightarrow> variables_map \<Rightarrow> bool" where
  "stored desc vm \<longleftrightarrow> list_all (\<lambda>(n, d). case vm n of None \<Rightarrow> False | Some v \<Rightarrow> same_type v d) desc"

definition defaults :: "options_description \<Rightarrow> variables_map" where
  "defaults desc = map_of desc"

text \<open>\<open>as<T>()\<close> throws, the value \<open>None\<close>, when the option is absent or of another type.\<close>

definition as_string :: "variables_map \<Rightarrow> string \<Rightarrow> bytes option" where
  "as_string vm n = (case vm n of Some (Opt_string s) \<Rightarrow> Some s | _ \<Rightarrow> None)"

definition as_int :: "variables_map \<Rightarrow> string \<Rightarrow> int option" where
  "as_int vm n = (case vm n of Some (Opt_int i) \<Rightarrow> Some i | _ \<Rightarrow> None)"

definition as_size :: "variables_map \<Rightarrow> string \<Rightarrow> nat option" where
  "as_size vm n = (case vm n of Some (Opt_size i) \<Rightarrow> Some i | _ \<Rightarrow> None)"

definition as_bool :: "variables_map \<Rightarrow> string \<Rightarrow> bool option" where
  "as_bool vm n = (case vm n of Some (Opt_bool b) \<Rightarrow> Some b | _ \<Rightarrow> None)"

lemma stored_as:
  assumes "stored desc vm" and "(n, d) \<in> set desc"
  shows "d = Opt_string s \<Longrightarrow> \<exists>x. as_string vm n = Some x"
    and "d = Opt_int i \<Longrightarrow> \<exists>x. as_int vm n = Some x"
    and "d = Opt_size k \<Longrightarrow> \<exists>x. as_size vm n = Some x"
    and "d = Opt_bool b \<Longrightarrow> \<exists>x. as_bool vm n = Some x"
proof -
  obtain v where v: "vm n = Some v" "same_type v d"
    using assms by (auto simp: stored_def list_all_iff split: option.splits)
  then show "d = Opt_string s \<Longrightarrow> \<exists>x. as_string vm n = Some x" "d = Opt_int i \<Longrightarrow> \<exists>x. as_int vm n = Some x"
    "d = Opt_size k \<Longrightarrow> \<exists>x. as_size vm n = Some x" "d = Opt_bool b \<Longrightarrow> \<exists>x. as_bool vm n = Some x"
    by (cases v; simp add: as_string_def as_int_def as_size_def as_bool_def)+
qed

section \<open>The configuration of the supervisor\<close>

record config_amqp =
  amqp_host :: bytes
  amqp_port :: int
  amqp_user :: bytes
  amqp_password :: bytes
  amqp_vhost :: bytes
  reconnect_interval_sec :: int
  amqp_exchange :: bytes
  amqp_diag_exchange :: bytes

record config_room_list_updater =
  rlu_url :: bytes
  rlu_interval_min :: int
  rlu_timeout_sec :: int

record config_worker =
  cw_port :: int
  cw_auth_code :: bytes
  cw_worker_timeout_sec :: int
  cw_check_interval_msec :: int
  cw_min_check_interval_msec :: int
  cw_worker_penalty_min :: int
  cw_read_buffer_size :: nat
  cw_max_new_tasks_per_bunch :: int

record config_message =
  cm_message_ttl_sec :: int
  cm_min_interval_popularity_sec :: int

record config_diag =
  cd_profiler_port :: int
  cd_profiler_limit_localhost :: bool

record config_supervisor =
  cfg_amqp :: config_amqp
  cfg_room_list_updater :: config_room_list_updater
  cfg_worker :: config_worker
  cfg_message :: config_message
  cfg_diag :: config_diag

definition fill_config :: "variables_map \<Rightarrow> config_supervisor option" where
  "fill_config raw =
     do { host \<leftarrow> as_string raw ''amqp-host''; port \<leftarrow> as_int raw ''amqp-port'';
          user \<leftarrow> as_string raw ''amqp-user''; password \<leftarrow> as_string raw ''amqp-password'';
          vhost \<leftarrow> as_string raw ''amqp-vhost''; reconnect \<leftarrow> as_int raw ''amqp-reconnect-interval-sec'';
          exchange \<leftarrow> as_string raw ''amqp-exchange''; diag_exchange \<leftarrow> as_string raw ''amqp-diag-exchange'';
          url \<leftarrow> as_string raw ''room-list-update-url''; interval \<leftarrow> as_int raw ''room-list-update-interval'';
          timeout \<leftarrow> as_int raw ''room-list-update-timeout-sec'';
          worker_port \<leftarrow> as_int raw ''worker-port''; auth \<leftarrow> as_string raw ''auth-code'';
          threshold \<leftarrow> as_int raw ''worker-interval-threshold-sec'';
          check \<leftarrow> as_int raw ''check-interval-ms''; min_check \<leftarrow> as_int raw ''min-check-interval-ms'';
          penalty \<leftarrow> as_int raw ''worker-penalty-min''; buffer \<leftarrow> as_size raw ''read-buffer'';
          bunch \<leftarrow> as_int raw ''worker-max-new-tasks-per-bunch'';
          ttl \<leftarrow> as_int raw ''message-ttl-sec''; popularity \<leftarrow> as_int raw ''min-interval-popularity-sec'';
          profiler \<leftarrow> as_int raw ''profiler-port''; limit_local \<leftarrow> as_bool raw ''profiler-limit-local'';
          Some \<lparr>cfg_amqp = \<lparr>amqp_host = host, amqp_port = port, amqp_user = user, amqp_password = password,
                  amqp_vhost = vhost, reconnect_interval_sec = reconnect, amqp_exchange = exchange,
                  amqp_diag_exchange = diag_exchange\<rparr>,
                cfg_room_list_updater = \<lparr>rlu_url = url, rlu_interval_min = interval, rlu_timeout_sec = timeout\<rparr>,
                cfg_worker = \<lparr>cw_port = worker_port, cw_auth_code = auth, cw_worker_timeout_sec = threshold,
                  cw_check_interval_msec = check, cw_min_check_interval_msec = min_check,
                  cw_worker_penalty_min = penalty, cw_read_buffer_size = buffer,
                  cw_max_new_tasks_per_bunch = bunch\<rparr>,
                cfg_message = \<lparr>cm_message_ttl_sec = ttl, cm_min_interval_popularity_sec = popularity\<rparr>,
                cfg_diag = \<lparr>cd_profiler_port = profiler, cd_profiler_limit_localhost = limit_local\<rparr>\<rparr> }"

section \<open>The dynamic linker\<close>

text \<open>The members an entry may point to; \<open>No_target\<close> is the null pointer of a fixed option.\<close>

datatype config_target = No_target | Url_target | Interval_target | Timeout_target | Auth_code_target
  | Worker_timeout_target | Check_interval_target | Min_check_interval_target | Penalty_target
  | New_tasks_target | Message_ttl_target | Popularity_target | Profiler_port_target

text \<open>A store through the pointer; \<open>None\<close> for the null pointer or a member of another type.\<close>

fun store_int :: "config_target \<Rightarrow> int \<Rightarrow> config_supervisor \<Rightarrow> config_supervisor option" where
  "store_int Interval_target i c = Some (c\<lparr>cfg_room_list_updater := (cfg_room_list_updater c)\<lparr>rlu_interval_min := i\<rparr>\<rparr>)"
| "store_int Timeout_target i c = Some (c\<lparr>cfg_room_list_updater := (cfg_room_list_updater c)\<lparr>rlu_timeout_sec := i\<rparr>\<rparr>)"
| "store_int Worker_timeout_target i c = Some (c\<lparr>cfg_worker := (cfg_worker c)\<lparr>cw_worker_timeout_sec := i\<rparr>\<rparr>)"
| "store_int Check_interval_target i c = Some (c\<lparr>cfg_worker := (cfg_worker c)\<lparr>cw_check_interval_msec := i\<rparr>\<rparr>)"
| "store_int Min_check_interval_target i c = Some (c\<lparr>cfg_worker := (cfg_worker c)\<lparr>cw_min_check_interval_msec := i\<rparr>\<rparr>)"
| "store_int Penalty_target i c = Some (c\<lparr>cfg_worker := (cfg_worker c)\<lparr>cw_worker_penalty_min := i\<rparr>\<rparr>)"
| "store_int New_tasks_target i c = Some (c\<lparr>cfg_worker := (cfg_worker c)\<lparr>cw_max_new_tasks_per_bunch := i\<rparr>\<rparr>)"
| "store_int Message_ttl_target i c = Some (c\<lparr>cfg_message := (cfg_message c)\<lparr>cm_message_ttl_sec := i\<rparr>\<rparr>)"
| "store_int Popularity_target i c = Some (c\<lparr>cfg_message := (cfg_message c)\<lparr>cm_min_interval_popularity_sec := i\<rparr>\<rparr>)"
| "store_int Profiler_port_target i c = Some (c\<lparr>cfg_diag := (cfg_diag c)\<lparr>cd_profiler_port := i\<rparr>\<rparr>)"
| "store_int _ i c = None"

fun store_string :: "config_target \<Rightarrow> bytes \<Rightarrow> config_supervisor \<Rightarrow> config_supervisor option" where
  "store_string Url_target s c = Some (c\<lparr>cfg_room_list_updater := (cfg_room_list_updater c)\<lparr>rlu_url := s\<rparr>\<rparr>)"
| "store_string Auth_code_target s c = Some (c\<lparr>cfg_worker := (cfg_worker c)\<lparr>cw_auth_code := s\<rparr>\<rparr>)"
| "store_string _ s c = None"

text \<open>Listeners are registered under the address of their owner; a change calls each with the target.\<close>

record config_dynamic_linker =
  int_entries :: "(bytes \<times> bool \<times> config_target) list"
  string_entries :: "(bytes \<times> bool \<times> config_target) list"
  config_listeners :: "nat list"

definition new_linker :: config_dynamic_linker where
  "new_linker = \<lparr>int_entries = [], string_entries = [], config_listeners = []\<rparr>"

text \<open>\<open>emplace\<close>: the first entry of a name stays.\<close>

definition emplace :: "'k \<Rightarrow> 'v \<Rightarrow> ('k \<times> 'v) list \<Rightarrow> ('k \<times> 'v) list" where
  "emplace k v m = (if k \<in> fst ` set m then m else m @ [(k, v)])"

definition register_int_entry :: "string \<Rightarrow> config_target \<Rightarrow> bool \<Rightarrow> config_dynamic_linker \<Rightarrow> config_dynamic_linker" where
  "register_int_entry name target enabled l = l\<lparr>int_entries := emplace (ascii name) (enabled, target) (int_entries l)\<rparr>"

definition register_string_entry :: "string \<Rightarrow> config_target \<Rightarrow> bool \<Rightarrow> config_dynamic_linker \<Rightarrow> config_dynamic_linker" where
  "register_string_entry name target enabled l = l\<lparr>string_entries := emplace (ascii name) (enabled, target) (string_entries l)\<rparr>"

definition register_listener :: "nat \<Rightarrow> config_dynamic_linker \<Rightarrow> config_dynamic_linker" where
  "register_listener src l = (if src \<in> set (config_listeners l) then l
     else l\<lparr>config_listeners := config_listeners l @ [src]\<rparr>)"

definition unregister_listener :: "nat \<Rightarrow> config_dynamic_linker \<Rightarrow> config_dynamic_linker" where
  "unregister_listener src l = l\<lparr>config_listeners := filter (\<lambda>x. x \<noteq> src) (config_listeners l)\<rparr>"

definition fire_config_changed :: "config_dynamic_linker \<Rightarrow> config_target \<Rightarrow> (nat \<times> config_target) list" where
  "fire_config_changed l target = map (\<lambda>src. (src, target)) (config_listeners l)"

text \<open>\<open>std::stoi\<close>: white space, a sign, the longest run of digits, what follows is ignored; an
  exception, \<open>None\<close>, without digits or outside the range of \<open>int\<close>.\<close>

definition stoi :: "bytes \<Rightarrow> int option" where
  "stoi s =
     (let s = dropWhile is_space (takeWhile (\<lambda>b. b \<noteq> 0) s);
          neg = (case s of [] \<Rightarrow> False | c # _ \<Rightarrow> unat c = 45);
          s = (case s of [] \<Rightarrow> [] | c # r \<Rightarrow> if unat c = 45 \<or> unat c = 43 then r else s);
          ds = takeWhile (\<lambda>b. digit_value b < 10) s;
          n = int (foldl (\<lambda>n b. 10 * n + digit_value b) 0 ds);
          v = (if neg then - n else n)
      in if ds = [] \<or> v < - (2 ^ 31) \<or> 2 ^ 31 \<le> v then None else Some v)"

datatype update_result = No_such_entry | Not_dynamic | Invalid_value | Changed config_target "(nat \<times> config_target) list"

text \<open>The outer \<open>None\<close> is a store through a null pointer.\<close>

definition update_config ::
    "config_dynamic_linker \<Rightarrow> bytes \<Rightarrow> bytes \<Rightarrow> config_supervisor \<Rightarrow> (config_supervisor \<times> update_result) option" where
  "update_config l name raw_value c =
     (case map_of (string_entries l) name of
        None \<Rightarrow>
          (case map_of (int_entries l) name of
             None \<Rightarrow> Some (c, No_such_entry)
           | Some (dynamic, target) \<Rightarrow>
               if \<not> dynamic then Some (c, Not_dynamic)
               else (case stoi raw_value of
                   None \<Rightarrow> Some (c, Invalid_value)
                 | Some i \<Rightarrow> map_option (\<lambda>c. (c, Changed target (fire_config_changed l target))) (store_int target i c)))
      | Some (dynamic, target) \<Rightarrow>
          if \<not> dynamic then Some (c, Not_dynamic)
          else map_option (\<lambda>c. (c, Changed target (fire_config_changed l target))) (store_string target raw_value c))"

definition link_config :: config_dynamic_linker where
  "link_config =
     (register_int_entry ''profiler-limit-local'' No_target False
     \<circ> register_int_entry ''profiler-port'' Profiler_port_target False
     \<circ> register_int_entry ''min-interval-popularity-sec'' Popularity_target True
     \<circ> register_int_entry ''message-ttl-sec'' Message_ttl_target True
     \<circ> register_int_entry ''worker-max-new-tasks-per-bunch'' New_tasks_target True
     \<circ> register_int_entry ''read-buffer'' No_target False
     \<circ> register_int_entry ''worker-penalty-min'' Penalty_target True
     \<circ> register_int_entry ''min-check-interval-ms'' Min_check_interval_target True
     \<circ> register_int_entry ''check-interval-ms'' Check_interval_target True
     \<circ> register_int_entry ''worker-interval-threshold-sec'' Worker_timeout_target True
     \<circ> register_string_entry ''auth-code'' Auth_code_target True
     \<circ> register_int_entry ''worker-port'' No_target False
     \<circ> register_int_entry ''room-list-update-timeout-sec'' Timeout_target True
     \<circ> register_int_entry ''room-list-update-interval'' Interval_target True
     \<circ> register_string_entry ''room-list-update-url'' Url_target True
     \<circ> register_string_entry ''amqp-diag-exchange'' No_target False
     \<circ> register_string_entry ''amqp-exchange'' No_target False
     \<circ> register_int_entry ''amqp-reconnect-interval-sec'' No_target False
     \<circ> register_string_entry ''amqp-vhost'' No_target False
     \<circ> register_string_entry ''amqp-password'' No_target False
     \<circ> register_string_entry ''amqp-user'' No_target False
     \<circ> register_int_entry ''amqp-port'' No_target False
     \<circ> register_string_entry ''amqp-host'' No_target False) new_linker"

end
