(* ===== verification/Config_Props.thy ===== *)
theory Config_Props
  imports Config_Options
begin

text \<open>
  The properties of the options: filling the configuration never fails on what the parser stores
  and loses nothing, and an update of a running supervisor changes one dynamic option at most.
\<close>

text \<open>The configuration read back as options, in the order of the description.\<close>

definition options_of :: "config_supervisor \<Rightarrow> options_description" where
  "options_of c =
     (let r = cfg_room_list_updater c; a = cfg_amqp c; m = cfg_message c; w = cfg_worker c; d = cfg_diag c in
     [(''room-list-update-url'', Opt_string (rlu_url r)),
      (''room-list-update-interval'', Opt_int (rlu_interval_min r)),
      (''room-list-update-timeout-sec'', Opt_int (rlu_timeout_sec r)),
      (''amqp-host'', Opt_string (amqp_host a)),
      (''amqp-port'', Opt_int (amqp_port a)),
      (''amqp-user'', Opt_string (amqp_user a)),
      (''amqp-password'', Opt_string (amqp_password a)),
      (''amqp-vhost'', Opt_string (amqp_vhost a)),
      (''amqp-reconnect-interval-sec'', Opt_int (reconnect_interval_sec a)),
      (''amqp-exchange'', Opt_string (amqp_exchange a)),
      (''amqp-diag-exchange'', Opt_string (amqp_diag_exchange a)),
      (''message-ttl-sec'', Opt_int (cm_message_ttl_sec m)),
      (''min-interval-popularity-sec'', Opt_int (cm_min_interval_popularity_sec m)),
      (''worker-port'', Opt_int (cw_port w)),
      (''check-interval-ms'', Opt_int (cw_check_interval_msec w)),
      (''min-check-interval-ms'', Opt_int (cw_min_check_interval_msec w)),
      (''read-buffer'', Opt_size (cw_read_buffer_size w)),
      (''worker-interval-threshold-sec'', Opt_int (cw_worker_timeout_sec w)),
      (''worker-penalty-min'', Opt_int (cw_worker_penalty_min w)),
      (''worker-max-new-tasks-per-bunch'', Opt_int (cw_max_new_tasks_per_bunch w)),
      (''auth-code'', Opt_string (cw_auth_code w)),
      (''profiler-port'', Opt_int (cd_profiler_port d)),
      (''profiler-limit-local'', Opt_bool (cd_profiler_limit_localhost d))])"

lemma as_Some:
  "as_string vm n = Some s \<longleftrightarrow> vm n = Some (Opt_string s)" "as_int vm n = Some i \<longleftrightarrow> vm n = Some (Opt_int i)"
  "as_size vm n = Some k \<longleftrightarrow> vm n = Some (Opt_size k)" "as_bool vm n = Some b \<longleftrightarrow> vm n = Some (Opt_bool b)"
  by (auto simp: as_string_def as_int_def as_size_def as_bool_def split: option.splits option_value.splits)

text \<open>A configuration is filled exactly from the option maps that agree with it on every option.\<close>

lemma fill_config_iff:
  "fill_config vm = Some c \<longleftrightarrow> list_all (\<lambda>(n, v). vm n = Some v) (options_of c)"
proof -
  obtain a r w m d where c: "c = \<lparr>cfg_amqp = a, cfg_room_list_updater = r, cfg_worker = w, cfg_message = m, cfg_diag = d\<rparr>"
    by (cases c)
  show ?thesis
    by (cases a; cases r; cases w; cases m; cases d)
      (auto simp: c fill_config_def options_of_def bind_eq_Some_conv as_Some)
qed

lemma stored_describes:
  assumes "stored create_description_sv vm"
  shows "list_all (\<lambda>n. as_string vm n \<noteq> None) [''amqp-host'', ''amqp-user'', ''amqp-password'', ''amqp-vhost'',
      ''amqp-exchange'', ''amqp-diag-exchange'', ''room-list-update-url'', ''auth-code'']"
    and "list_all (\<lambda>n. as_int vm n \<noteq> None) [''amqp-port'', ''amqp-reconnect-interval-sec'',
      ''room-list-update-interval'', ''room-list-update-timeout-sec'', ''worker-port'',
      ''worker-interval-threshold-sec'', ''check-interval-ms'', ''min-check-interval-ms'', ''worker-penalty-min'',
      ''worker-max-new-tasks-per-bunch'', ''message-ttl-sec'', ''min-interval-popularity-sec'', ''profiler-port'']"
    and "as_size vm ''read-buffer'' \<noteq> None" and "as_bool vm ''profiler-limit-local'' \<noteq> None"
proof -
  have type: "\<exists>v. vm n = Some v \<and> same_type v d" if "(n, d) \<in> set create_description_sv" for n d
    using assms that by (auto simp: stored_def list_all_iff split: option.splits)
  have s: "as_string vm n \<noteq> None" if "(n, Opt_string s) \<in> set create_description_sv" for n s
    using type [OF that] by (auto simp: as_string_def elim: same_type.elims)
  have i: "as_int vm n \<noteq> None" if "(n, Opt_int s) \<in> set create_description_sv" for n s
    using type [OF that] by (auto simp: as_int_def elim: same_type.elims)
  show "list_all (\<lambda>n. as_string vm n \<noteq> None) [''amqp-host'', ''amqp-user'', ''amqp-password'', ''amqp-vhost'',
      ''amqp-exchange'', ''amqp-diag-exchange'', ''room-list-update-url'', ''auth-code'']"
    by (simp only: list.pred_inject, intro conjI TrueI; rule s; simp add: create_description_sv_def)
  show "list_all (\<lambda>n. as_int vm n \<noteq> None) [''amqp-port'', ''amqp-reconnect-interval-sec'',
      ''room-list-update-interval'', ''room-list-update-timeout-sec'', ''worker-port'',
      ''worker-interval-threshold-sec'', ''check-interval-ms'', ''min-check-interval-ms'', ''worker-penalty-min'',
      ''worker-max-new-tasks-per-bunch'', ''message-ttl-sec'', ''min-interval-popularity-sec'', ''profiler-port'']"
    by (simp only: list.pred_inject, intro conjI TrueI; rule i; simp add: create_description_sv_def)
  show "as_size vm ''read-buffer'' \<noteq> None"
    using type [of "''read-buffer''" "Opt_size (128 * 1024)"]
    by (auto simp: as_size_def create_description_sv_def elim: same_type.elims)
  show "as_bool vm ''profiler-limit-local'' \<noteq> None"
    using type [of "''profiler-limit-local''" "Opt_bool False"]
    by (auto simp: as_bool_def create_description_sv_def elim: same_type.elims)
qed

lemma filled_options:
  assumes "stored create_description_sv vm"
  shows "\<exists>c. fill_config vm = Some c \<and> list_all (\<lambda>(n, v). vm n = Some v) (options_of c)
    \<and> map fst (options_of c) = map fst create_description_sv \<and> fill_config (map_of (options_of c)) = Some c"
proof -
  have "\<exists>c. fill_config vm = Some c"
    using stored_describes [OF assms] by (auto simp: fill_config_def bind_eq_Some_conv)
  then obtain c where c: "fill_config vm = Some c" by blast
  have names: "map fst (options_of c) = map fst create_description_sv"
    by (simp add: options_of_def create_description_sv_def Let_def)
  moreover have "distinct (map fst create_description_sv)" by code_simp
  ultimately have "list_all (\<lambda>(n, v). map_of (options_of c) n = Some v) (options_of c)"
    by (auto simp: list_all_iff)
  then show ?thesis using c names by (auto simp: fill_config_iff)
qed

text \<open>C18 Filling the configuration. On every option map the parser can store for the description of the
  supervisor, no cast fails, every member gets the value of its option, and from the options of a
  configuration that configuration is filled again.\<close>

theorem fill_config_roundtrip:
  assumes "stored create_description_sv vm"
  shows "\<exists>c. fill_config vm = Some c \<and> list_all (\<lambda>(n, v). vm n = Some v) (options_of c)
    \<and> map fst (options_of c) = map fst create_description_sv \<and> fill_config (map_of (options_of c)) = Some c"
  by (rule filled_options [OF assms])

theorem fill_config_roundtrip_witness:
  "\<exists>c. fill_config (defaults create_description_sv) = Some c \<and> fill_config (map_of (options_of c)) = Some c"
proof -
  have "stored create_description_sv (defaults create_description_sv)" by code_simp
  from fill_config_roundtrip [OF this] show ?thesis by blast
qed

section \<open>Updates\<close>

text \<open>The dynamic entries point to members of their type.\<close>

definition sound_entries :: "config_dynamic_linker \<Rightarrow> bool" where
  "sound_entries l \<longleftrightarrow>
     list_all (\<lambda>(n, dynamic, t). dynamic \<longrightarrow> t \<in> {Interval_target, Timeout_target, Worker_timeout_target,
       Check_interval_target, Min_check_interval_target, Penalty_target, New_tasks_target, Message_ttl_target,
       Popularity_target}) (int_entries l)
     \<and> list_all (\<lambda>(n, dynamic, t). dynamic \<longrightarrow> t \<in> {Url_target, Auth_code_target}) (string_entries l)"

lemma ascii_eq_iff [simp]: "ascii a = ascii b \<longleftrightarrow> a = b"
proof -
  have "inj (of_char :: char \<Rightarrow> byte)"
  proof (rule injI)
    fix a b :: char
    assume "(of_char a :: byte) = of_char b"
    then have "(of_nat (of_char a) :: byte) = of_nat (of_char b)" by (simp add: of_nat_of_char)
    then have "(of_char a :: nat) = of_char b" by (simp add: word_of_nat_eq_iff take_bit_nat_eq_self)
    then show "a = b" by simp
  qed
  then show ?thesis by (simp add: ascii_def inj_map_eq_map)
qed

lemma link_config_entries:
  "int_entries link_config =
     [(ascii ''amqp-port'', False, No_target), (ascii ''amqp-reconnect-interval-sec'', False, No_target),
      (ascii ''room-list-update-interval'', True, Interval_target),
      (ascii ''room-list-update-timeout-sec'', True, Timeout_target),
      (ascii ''worker-port'', False, No_target),
      (ascii ''worker-interval-threshold-sec'', True, Worker_timeout_target),
      (ascii ''check-interval-ms'', True, Check_interval_target),
      (ascii ''min-check-interval-ms'', True, Min_check_interval_target),
      (ascii ''worker-penalty-min'', True, Penalty_target), (ascii ''read-buffer'', False, No_target),
      (ascii ''worker-max-new-tasks-per-bunch'', True, New_tasks_target),
      (ascii ''message-ttl-sec'', True, Message_ttl_target),
      (ascii ''min-interval-popularity-sec'', True, Popularity_target),
      (ascii ''profiler-port'', False, Profiler_port_target),
      (ascii ''profiler-limit-local'', False, No_target)]"
  "string_entries link_config =
     [(ascii ''amqp-host'', False, No_target), (ascii ''amqp-user'', False, No_target),
      (ascii ''amqp-password'', False, No_target), (ascii ''amqp-vhost'', False, No_target),
      (ascii ''amqp-exchange'', False, No_target), (ascii ''amqp-diag-exchange'', False, No_target),
      (ascii ''room-list-update-url'', True, Url_target), (ascii ''auth-code'', True, Auth_code_target)]"
  by (simp_all add: link_config_def register_int_entry_def register_string_entry_def emplace_def new_linker_def)

lemma link_config_sound: "sound_entries link_config"
  by (simp add: sound_entries_def link_config_entries)

lemma store_int_dynamic:
  assumes "t \<in> {Interval_target, Timeout_target, Worker_timeout_target, Check_interval_target,
      Min_check_interval_target, Penalty_target, New_tasks_target, Message_ttl_target, Popularity_target}"
  shows "\<exists>c'. store_int t i c = Some c' \<and> cfg_amqp c' = cfg_amqp c \<and> cfg_diag c' = cfg_diag c
    \<and> cw_port (cfg_worker c') = cw_port (cfg_worker c)
    \<and> cw_read_buffer_size (cfg_worker c') = cw_read_buffer_size (cfg_worker c)"
  using assms by auto

lemma store_string_dynamic:
  assumes "t \<in> {Url_target, Auth_code_target}"
  shows "\<exists>c'. store_string t s c = Some c' \<and> cfg_amqp c' = cfg_amqp c \<and> cfg_diag c' = cfg_diag c
    \<and> cw_port (cfg_worker c') = cw_port (cfg_worker c)
    \<and> cw_read_buffer_size (cfg_worker c') = cw_read_buffer_size (cfg_worker c)"
  using assms by auto

text \<open>What an update must give for \<open>c\<close>: unchanged unless it reports a change, and then the stored
  member and the listeners called.\<close>

definition update_ok ::
    "config_dynamic_linker \<Rightarrow> bytes \<Rightarrow> bytes \<Rightarrow> config_supervisor \<Rightarrow> config_supervisor \<Rightarrow> update_result \<Rightarrow> bool" where
  "update_ok l name raw c c' r = (case r of
       Changed t fired \<Rightarrow> fired = map (\<lambda>src. (src, t)) (config_listeners l)
         \<and> ((name, True, t) \<in> set (string_entries l) \<and> store_string t raw c = Some c'
            \<or> (name, True, t) \<in> set (int_entries l) \<and> (\<exists>i. stoi raw = Some i \<and> store_int t i c = Some c'))
     | _ \<Rightarrow> c' = c)"

text \<open>Updates. Whatever the name and the value, an update of the supervisor's configuration stores
  through no null pointer; it changes at most the member the name is registered for, only to the value (a
  number being the one the text begins with), and calls every listener once with that member; the
  options of the broker, of the profiler, the port and the read buffer never change.\<close>

theorem update_changes_one_option:
  "\<exists>c' r. update_config (link_config\<lparr>config_listeners := ls\<rparr>) name raw c = Some (c', r)
    \<and> update_ok (link_config\<lparr>config_listeners := ls\<rparr>) name raw c c' r
    \<and> cfg_amqp c' = cfg_amqp c \<and> cfg_diag c' = cfg_diag c
    \<and> cw_port (cfg_worker c') = cw_port (cfg_worker c)
    \<and> cw_read_buffer_size (cfg_worker c') = cw_read_buffer_size (cfg_worker c)"
proof -
  let ?l = "link_config\<lparr>config_listeners := ls\<rparr>"
  note sound = link_config_sound [unfolded sound_entries_def list_all_iff]
  show ?thesis
  proof (cases "map_of (string_entries link_config) name")
    case (Some e)
    obtain d t where e: "e = (d, t)" by (cases e)
    with Some have mem: "(name, d, t) \<in> set (string_entries link_config)" by (simp add: map_of_SomeD)
    show ?thesis
    proof (cases d)
      case True
      with sound mem have "t \<in> {Url_target, Auth_code_target}" by fastforce
      from store_string_dynamic [OF this, of raw c] mem True show ?thesis
        by (auto simp: update_config_def Some e update_ok_def fire_config_changed_def)
    qed (simp add: update_config_def Some e update_ok_def)
  next
    case None
    show ?thesis
    proof (cases "map_of (int_entries link_config) name")
      case (Some e)
      obtain d t where e: "e = (d, t)" by (cases e)
      with Some have mem: "(name, d, t) \<in> set (int_entries link_config)" by (simp add: map_of_SomeD)
      show ?thesis
      proof (cases "d \<and> stoi raw \<noteq> None")
        case True
        then obtain i where i: "stoi raw = Some i" and d by blast
        with sound mem have "t \<in> {Interval_target, Timeout_target, Worker_timeout_target, Check_interval_target,
            Min_check_interval_target, Penalty_target, New_tasks_target, Message_ttl_target, Popularity_target}"
          by fastforce
        from store_int_dynamic [OF this, of i c] mem \<open>d\<close> show ?thesis
          by (auto simp: update_config_def None Some e i update_ok_def fire_config_changed_def)
      qed (auto simp: update_config_def None Some e update_ok_def)
    qed (simp add: update_config_def None update_ok_def)
  qed
qed

text \<open>Every name of the description is registered, and no other.\<close>

theorem every_option_registered:
  "set (map fst (int_entries link_config) @ map fst (string_entries link_config))
     = set (map (ascii \<circ> fst) create_description_sv)"
  by (auto simp: link_config_entries create_description_sv_def)

end
