(* ===== verification/Command_Handler.thy ===== *)
theory Command_Handler
  imports Config_Props
begin

text \<open>
  The console of the supervisor: the commands of src/shared/command_handler.h and
  src/supervisor/command_handler_sv.h, the handling of a line, and the loop of
  src/supervisor/main.cpp. The grammar is written in the combinators of a parser library, and the
  names of the log levels are the logging library's: both are arguments, \<open>grammar\<close> giving the commands
  of a line and the part of it that it did not consume.
\<close>

datatype log_level = Level_trace | Level_debug | Level_info | Level_warn | Level_err | Level_critical | Level_off

datatype command = Cmd_level bytes | Cmd_set bytes bytes | Cmd_exit | Cmd_refresh_room_list

record console =
  co_config :: config_supervisor
  co_linker :: config_dynamic_linker
  co_level :: log_level
  co_fired :: "(nat \<times> config_target) list"

definition handle_level :: "(bytes \<Rightarrow> log_level) \<Rightarrow> bytes \<Rightarrow> console \<Rightarrow> console" where
  "handle_level from_str target_level co =
     (let level = from_str target_level in
      if level = Level_off \<and> target_level \<noteq> ascii ''off'' then co else co\<lparr>co_level := level\<rparr>)"

definition handle_set :: "bytes \<Rightarrow> bytes \<Rightarrow> console \<Rightarrow> console option" where
  "handle_set name raw co =
     map_option (\<lambda>(c, r). co\<lparr>co_config := c,
         co_fired := co_fired co @ (case r of Changed t fired \<Rightarrow> fired | _ \<Rightarrow> [])\<rparr>)
       (update_config (co_linker co) name raw (co_config co))"

text \<open>A command gives the new state and whether it throws the request to exit.\<close>

fun visit_command :: "(bytes \<Rightarrow> log_level) \<Rightarrow> command \<Rightarrow> console \<Rightarrow> (console \<times> bool) option" where
  "visit_command from_str (Cmd_level l) co = Some (handle_level from_str l co, False)"
| "visit_command from_str (Cmd_set name raw) co = map_option (\<lambda>co. (co, False)) (handle_set name raw co)"
| "visit_command from_str Cmd_exit co = Some (co, True)"
| "visit_command from_str Cmd_refresh_room_list co = Some (co, False)"

fun visit_commands :: "(bytes \<Rightarrow> log_level) \<Rightarrow> command list \<Rightarrow> console \<Rightarrow> (console \<times> bool) option" where
  "visit_commands from_str [] co = Some (co, False)"
| "visit_commands from_str (c # cs) co = (case visit_command from_str c co of
       None \<Rightarrow> None
     | Some (co, quit) \<Rightarrow> if quit then Some (co, True) else visit_commands from_str cs co)"

definition handle_command_sv ::
    "(bytes \<Rightarrow> (command list \<times> bytes) option) \<Rightarrow> (bytes \<Rightarrow> log_level) \<Rightarrow> bytes \<Rightarrow> console
      \<Rightarrow> (console \<times> bool) option" where
  "handle_command_sv grammar from_str input co = (case grammar input of
       None \<Rightarrow> Some (co, False)
     | Some (commands, rest) \<Rightarrow>
         if rest \<noteq> [] then Some (co, False) else visit_commands from_str commands co)"

text \<open>The loop over the lines typed; it ends with the request to exit.\<close>

fun console_loop ::
    "(bytes \<Rightarrow> (command list \<times> bytes) option) \<Rightarrow> (bytes \<Rightarrow> log_level) \<Rightarrow> bytes list \<Rightarrow> console
      \<Rightarrow> (console \<times> bool) option" where
  "console_loop grammar from_str [] co = Some (co, False)"
| "console_loop grammar from_str (line # lines) co = (case handle_command_sv grammar from_str line co of
       None \<Rightarrow> None
     | Some (co, quit) \<Rightarrow> if quit then Some (co, True) else console_loop grammar from_str lines co)"

section \<open>What commands keep\<close>

text \<open>The options that only a restart changes.\<close>

definition fixed_options :: "config_supervisor \<Rightarrow> config_amqp \<times> config_diag \<times> int \<times> nat" where
  "fixed_options c = (cfg_amqp c, cfg_diag c, cw_port (cfg_worker c), cw_read_buffer_size (cfg_worker c))"

definition linked :: "console \<Rightarrow> bool" where
  "linked co \<longleftrightarrow> (\<exists>ls. co_linker co = link_config\<lparr>config_listeners := ls\<rparr>)"

lemma update_config_fixed:
  assumes "sound_entries l"
  shows "\<exists>c' r. update_config l name raw c = Some (c', r) \<and> fixed_options c' = fixed_options c"
proof (cases "map_of (string_entries l) name")
  case (Some e)
  obtain d t where e: "e = (d, t)" by (cases e)
  with Some have "(name, d, t) \<in> set (string_entries l)" by (simp add: map_of_SomeD)
  with assms have "d \<Longrightarrow> t \<in> {Url_target, Auth_code_target}" by (fastforce simp: sound_entries_def list_all_iff)
  with store_string_dynamic [of t raw c] show ?thesis
    by (cases d) (auto simp: update_config_def Some e fixed_options_def)
next
  case None
  show ?thesis
  proof (cases "map_of (int_entries l) name")
    case (Some e)
    obtain d t where e: "e = (d, t)" by (cases e)
    with Some have "(name, d, t) \<in> set (int_entries l)" by (simp add: map_of_SomeD)
    with assms have "d \<Longrightarrow> t \<in> {Interval_target, Timeout_target, Worker_timeout_target, Check_interval_target,
        Min_check_interval_target, Penalty_target, New_tasks_target, Message_ttl_target, Popularity_target}"
      by (fastforce simp: sound_entries_def list_all_iff)
    with store_int_dynamic [of t _ c] show ?thesis
      by (cases d; cases "stoi raw") (auto simp: update_config_def None Some e fixed_options_def)
  qed (simp add: update_config_def None)
qed

lemma visit_command_keeps:
  assumes "sound_entries (co_linker co)"
  shows "\<exists>co'. visit_command from_str c co = Some (co', c = Cmd_exit) \<and> co_linker co' = co_linker co
    \<and> fixed_options (co_config co') = fixed_options (co_config co)"
proof (cases c)
  case (Cmd_set name raw)
  with update_config_fixed [OF assms, of name raw "co_config co"] show ?thesis
    by (auto simp: handle_set_def)
qed (auto simp: handle_level_def Let_def)

text \<open>Running commands stops at the first \<open>exit\<close>.\<close>

lemma visit_commands_keeps:
  assumes "sound_entries (co_linker co)"
  shows "\<exists>co'. visit_commands from_str cs co = Some (co', Cmd_exit \<in> set cs) \<and> co_linker co' = co_linker co
    \<and> fixed_options (co_config co') = fixed_options (co_config co)
    \<and> visit_commands from_str (takeWhile (\<lambda>c. c \<noteq> Cmd_exit) cs) co = Some (co', False)"
  using assms
proof (induction cs arbitrary: co)
  case (Cons c cs)
  from visit_command_keeps [OF Cons.prems] obtain co1 where co1:
      "visit_command from_str c co = Some (co1, c = Cmd_exit)" "co_linker co1 = co_linker co"
      "fixed_options (co_config co1) = fixed_options (co_config co)" by blast
  show ?case
  proof (cases "c = Cmd_exit")
    case False
    from Cons.IH [of co1] Cons.prems co1(2) obtain co2 where
        "visit_commands from_str cs co1 = Some (co2, Cmd_exit \<in> set cs)" "co_linker co2 = co_linker co1"
        "fixed_options (co_config co2) = fixed_options (co_config co1)"
        "visit_commands from_str (takeWhile (\<lambda>c. c \<noteq> Cmd_exit) cs) co1 = Some (co2, False)" by auto
    with co1 False show ?thesis by auto
  qed (use co1 in auto)
qed auto

text \<open>C36 A line of the console. A line the grammar does not take whole has no effect; otherwise its
  commands run in order up to the first \<open>exit\<close>, those behind it do not run, and the request to exit
  is raised exactly when there is one. No line stores through a null pointer or changes an option that
  needs a restart.\<close>

theorem console_line:
  assumes "linked co"
  shows "\<exists>co' quit. handle_command_sv grammar from_str input co = Some (co', quit)
    \<and> fixed_options (co_config co') = fixed_options (co_config co)
    \<and> (case grammar input of
         Some (commands, []) \<Rightarrow> quit = (Cmd_exit \<in> set commands)
           \<and> visit_commands from_str (takeWhile (\<lambda>c. c \<noteq> Cmd_exit) commands) co = Some (co', False)
       | _ \<Rightarrow> co' = co \<and> \<not> quit)"
proof -
  have "sound_entries (co_linker co)"
    using assms link_config_sound by (auto simp: linked_def sound_entries_def)
  from visit_commands_keeps [OF this] show ?thesis
    by (fastforce simp: handle_command_sv_def split: option.split list.split prod.split)
qed

definition demo_grammar :: "bytes \<Rightarrow> (command list \<times> bytes) option" where
  "demo_grammar input = (if input = [1] then Some ([Cmd_level [5], Cmd_exit, Cmd_level [6]], []) else None)"

definition demo_console :: console where
  "demo_console = \<lparr>co_config = the (fill_config (defaults create_description_sv)), co_linker = link_config,
     co_level = Level_info, co_fired = []\<rparr>"

theorem console_line_witness:
  "\<exists>co'. handle_command_sv demo_grammar (\<lambda>l. if l = [5] then Level_err else Level_debug) [1] demo_console = Some (co', True)
    \<and> co_level co' = Level_err"
proof -
  let ?f = "\<lambda>l :: bytes. if l = [5] then Level_err else Level_debug"
  have "linked demo_console"
    unfolding linked_def demo_console_def by (rule exI [of _ "config_listeners link_config"]) simp
  from console_line [OF this, of demo_grammar ?f "[1]"] obtain co' quit where
      run: "handle_command_sv demo_grammar ?f [1] demo_console = Some (co', quit)"
      and q: "quit" "visit_commands ?f [Cmd_level [5]] demo_console = Some (co', False)"
    by (auto simp: demo_grammar_def)
  from q(2) have "co_level co' = Level_err" by (auto simp: handle_level_def)
  with run q(1) show ?thesis by auto
qed

end
