(* ===== verification/Startup.thy ===== *)
theory Startup
  imports Command_Handler
begin

text \<open>
  How the two programs start and what their main threads do: the parsing of the options
  (src/shared/config.cpp), \<open>main\<close> of both programs, and the TLS contexts the worker loads before
  it. The log file and the profiler that the supervisor sets up are left out, and the worker is the one of a Unix system.
  The option library is the record \<open>options_library\<close>: what it returns for a command line or a file, or the
  exception it throws; a main loop is given by its state after \<open>n\<close> iterations.
\<close>

section \<open>The options\<close>

datatype option_fault = Unknown_option | Other_fault

record ('p, 'm) options_library =
  parse_command_line :: "bytes list \<Rightarrow> options_description \<Rightarrow> option_fault + 'p"
  parse_config_file :: "bytes \<Rightarrow> options_description \<Rightarrow> option_fault + 'p"
  store_options :: "'p \<Rightarrow> 'm \<Rightarrow> option_fault + 'm"
  no_options :: 'm
  option_count :: "'m \<Rightarrow> string \<Rightarrow> nat"
  option_values :: "'m \<Rightarrow> variables_map"

datatype 'm parse_result = Options 'm | Exits int | Uncaught

text \<open>The file is absent, cannot be opened, or has a content.\<close>

datatype config_file = No_file | Unreadable_file | Config_file bytes

definition store_all ::
    "('p, 'm) options_library \<Rightarrow> options_description \<Rightarrow> bytes list \<Rightarrow> config_file \<Rightarrow> option_fault + 'm" where
  "store_all lib desc argv file =
     (case parse_command_line lib argv desc of Inl f \<Rightarrow> Inl f
      | Inr p \<Rightarrow> (case store_options lib p (no_options lib) of Inl f \<Rightarrow> Inl f
        | Inr m \<Rightarrow> (case file of
            Config_file content \<Rightarrow>
              (case parse_config_file lib content desc of Inl f \<Rightarrow> Inl f | Inr q \<Rightarrow> store_options lib q m)
          | _ \<Rightarrow> Inr m)))"

definition parse_options ::
    "('p, 'm) options_library \<Rightarrow> options_description \<Rightarrow> bytes list \<Rightarrow> config_file \<Rightarrow> 'm parse_result" where
  "parse_options lib desc argv file =
     (case store_all lib desc argv file of
        Inl Unknown_option \<Rightarrow> Exits (-1)
      | Inl Other_fault \<Rightarrow> Uncaught
      | Inr result \<Rightarrow>
          if option_count lib result ''help'' \<noteq> 0 then Exits (-1)
          else if option_count lib result ''version'' \<noteq> 0 then Exits (-1)
          else Options result)"

section \<open>The main programs\<close>

datatype 'c main_outcome = Main_exits int | Main_dies | Main_joins 'c | Main_running 'c | Main_ends 'c

text \<open>\<open>getline\<close> and \<open>>>\<close> leave their fresh string empty when the input has ended.\<close>

fun next_input :: "bytes list \<Rightarrow> bytes \<times> bytes list" where
  "next_input [] = ([], [])"
| "next_input (line # lines) = (line, lines)"

fun console_iterations ::
    "(bytes \<Rightarrow> (command list \<times> bytes) option) \<Rightarrow> (bytes \<Rightarrow> log_level) \<Rightarrow> nat \<Rightarrow> bytes list \<Rightarrow> console
      \<Rightarrow> (console \<times> bool) option" where
  "console_iterations grammar from_str 0 lines co = Some (co, False)"
| "console_iterations grammar from_str (Suc n) lines co =
     (case next_input lines of (input, lines) \<Rightarrow>
        (case handle_command_sv grammar from_str input co of
           None \<Rightarrow> None
         | Some (co, quit) \<Rightarrow> if quit then Some (co, True) else console_iterations grammar from_str n lines co))"

text \<open>The objects the supervisor creates have registered the listeners \<open>ls\<close> when the loop starts.\<close>

definition supervisor_main ::
    "('p, 'm) options_library \<Rightarrow> bytes list \<Rightarrow> config_file \<Rightarrow> bool \<Rightarrow> (bytes \<Rightarrow> (command list \<times> bytes) option)
      \<Rightarrow> (bytes \<Rightarrow> log_level) \<Rightarrow> (log_level \<Rightarrow> log_level) \<Rightarrow> nat list \<Rightarrow> nat \<Rightarrow> bytes list \<Rightarrow> console main_outcome" where
  "supervisor_main lib argv file tty grammar from_str env_levels ls n lines =
     (case parse_options lib create_description_sv argv file of
        Exits c \<Rightarrow> Main_exits c
      | Uncaught \<Rightarrow> Main_dies
      | Options raw_config \<Rightarrow> (case fill_config (option_values lib raw_config) of
          None \<Rightarrow> Main_dies
        | Some config \<Rightarrow>
            (let co = \<lparr>co_config = config, co_linker = fold register_listener ls link_config,
                 co_level = env_levels Level_info, co_fired = []\<rparr> in
             if \<not> tty then Main_joins co
             else (case console_iterations grammar from_str n lines co of
                 None \<Rightarrow> Main_dies
               | Some (co, quit) \<Rightarrow> if quit then Main_ends co else Main_running co))))"

text \<open>The worker's two static TLS contexts are loaded before its \<open>main\<close>; a failure is thrown out of a
  static initialiser.\<close>

definition configure_ssl_context :: "bool \<Rightarrow> bool option" where
  "configure_ssl_context cacert_loads = (if cacert_loads then Some True else None)"

fun worker_iterations :: "(bytes \<Rightarrow> log_level) \<Rightarrow> nat \<Rightarrow> bytes list \<Rightarrow> log_level \<Rightarrow> log_level" where
  "worker_iterations from_str 0 words level = level"
| "worker_iterations from_str (Suc n) words level =
     (case next_input words of (command, words) \<Rightarrow> worker_iterations from_str n words (from_str command))"

definition worker_main ::
    "('p, 'm) options_library \<Rightarrow> bool \<Rightarrow> bool \<Rightarrow> bytes list \<Rightarrow> config_file \<Rightarrow> bool \<Rightarrow> (bytes \<Rightarrow> log_level)
      \<Rightarrow> (log_level \<Rightarrow> log_level) \<Rightarrow> nat \<Rightarrow> bytes list \<Rightarrow> log_level main_outcome" where
  "worker_main lib cacert_loads cacert_loads' argv file tty from_str env_levels n words =
     (if configure_ssl_context cacert_loads = None \<or> configure_ssl_context cacert_loads' = None then Main_dies
      else (case parse_options lib create_description_worker argv file of
          Exits c \<Rightarrow> Main_exits c
        | Uncaught \<Rightarrow> Main_dies
        | Options global_config \<Rightarrow>
            (let level = env_levels Level_info in
             if \<not> tty then Main_joins level else Main_running (worker_iterations from_str n words level))))"

end
