(* ===== verification/Startup_Props.thy ===== *)
theory Startup_Props
  imports Startup
begin

text \<open>
  The properties of the start and of the main threads: the command line decides, and the main loop
  does not notice the end of its input.
\<close>

section \<open>The option library\<close>

text \<open>
  What the documentation of the library says of one \<open>store\<close>, for any set of parsed options and any map: "stores in
  \<open>m\<close> all options that are defined in \<open>options\<close>; if \<open>m\<close> already has a non-defaulted value of an option, that
  value is not changed, even if \<open>options\<close> specify some value"; an option of the description without a value gets its
  default and is marked so; values are of the type described. \<open>given\<close> is what parsed options specify, \<open>defaulted\<close> the mark.
\<close>

definition store_option ::
    "option_value option \<Rightarrow> bool \<Rightarrow> option_value option \<Rightarrow> option_value option \<Rightarrow> option_value option \<times> bool" where
  "store_option old was_defaulted specified fallback =
     (if old \<noteq> None \<and> \<not> was_defaulted then (old, False)
      else if specified \<noteq> None then (specified, False)
      else if old \<noteq> None then (old, True)
      else (fallback, True))"

definition parsed_by :: "('p, 'm) options_library \<Rightarrow> options_description \<Rightarrow> 'p \<Rightarrow> bool" where
  "parsed_by lib desc p \<longleftrightarrow>
     (\<exists>argv. parse_command_line lib argv desc = Inr p) \<or> (\<exists>content. parse_config_file lib content desc = Inr p)"

definition options_documented ::
    "('p, 'm) options_library \<Rightarrow> options_description \<Rightarrow> ('p \<Rightarrow> string \<Rightarrow> option_value option)
      \<Rightarrow> ('m \<Rightarrow> string \<Rightarrow> bool) \<Rightarrow> bool" where
  "options_documented lib desc given defaulted \<longleftrightarrow>
     (\<forall>n. option_values lib (no_options lib) n = None)
     \<and> (\<forall>p m m' n. parsed_by lib desc p \<longrightarrow> store_options lib p m = Inr m' \<longrightarrow>
         (\<forall>x d. given p n = Some x \<longrightarrow> map_of desc n = Some d \<longrightarrow> same_type x d)
         \<and> (let r = store_option (option_values lib m n) (defaulted m n) (given p n) (map_of desc n) in
             option_values lib m' n = fst r \<and> (fst r \<noteq> None \<longrightarrow> defaulted m' n = snd r)))"

text \<open>The value an option of the description ends with.\<close>

definition chosen_value :: "option_value option \<Rightarrow> option_value option \<Rightarrow> option_value \<Rightarrow> option_value" where
  "chosen_value on_line in_file fallback =
     (case on_line of Some x \<Rightarrow> x | None \<Rightarrow> (case in_file of Some x \<Rightarrow> x | None \<Rightarrow> fallback))"

fun file_gives ::
    "('p, 'm) options_library \<Rightarrow> options_description \<Rightarrow> ('p \<Rightarrow> string \<Rightarrow> option_value option) \<Rightarrow> config_file
      \<Rightarrow> string \<Rightarrow> option_value option" where
  "file_gives lib desc given (Config_file content) n =
     (case parse_config_file lib content desc of Inl f \<Rightarrow> None | Inr q \<Rightarrow> given q n)"
| "file_gives lib desc given _ n = None"

lemma same_type_refl: "same_type x x"
  by (cases x) simp_all

lemma store_documented:
  assumes "options_documented lib desc given defaulted" and "parsed_by lib desc p" and "store_options lib p m = Inr m'"
  shows "option_values lib m' n = fst (store_option (option_values lib m n) (defaulted m n) (given p n) (map_of desc n))"
    and "option_values lib m' n \<noteq> None \<Longrightarrow>
      defaulted m' n = snd (store_option (option_values lib m n) (defaulted m n) (given p n) (map_of desc n))"
    and "given p n = Some x \<Longrightarrow> map_of desc n = Some d \<Longrightarrow> same_type x d"
proof -
  from assms have "\<forall>x d. given p n = Some x \<longrightarrow> map_of desc n = Some d \<longrightarrow> same_type x d"
      and "let r = store_option (option_values lib m n) (defaulted m n) (given p n) (map_of desc n) in
        option_values lib m' n = fst r \<and> (fst r \<noteq> None \<longrightarrow> defaulted m' n = snd r)" for x d
    unfolding options_documented_def by blast+
  then show "option_values lib m' n = fst (store_option (option_values lib m n) (defaulted m n) (given p n) (map_of desc n))"
    "option_values lib m' n \<noteq> None \<Longrightarrow>
      defaulted m' n = snd (store_option (option_values lib m n) (defaulted m n) (given p n) (map_of desc n))"
    "given p n = Some x \<Longrightarrow> map_of desc n = Some d \<Longrightarrow> same_type x d"
    by (simp_all add: Let_def)
qed

lemma store_all_values:
  assumes "options_documented lib desc given defaulted" and "store_all lib desc argv file = Inr m"
  shows "\<exists>p. parse_command_line lib argv desc = Inr p
    \<and> (\<forall>n d. map_of desc n = Some d \<longrightarrow>
        option_values lib m n = Some (chosen_value (given p n) (file_gives lib desc given file n) d)
        \<and> same_type (chosen_value (given p n) (file_gives lib desc given file n) d) d)"
proof -
  obtain p m1 where p: "parse_command_line lib argv desc = Inr p" "store_options lib p (no_options lib) = Inr m1"
    using assms(2) by (auto simp: store_all_def split: sum.splits)
  then have "parsed_by lib desc p" by (auto simp: parsed_by_def)
  note line = store_documented [OF assms(1) this p(2)]
  have fresh: "option_values lib (no_options lib) n = None" for n using assms(1) by (simp add: options_documented_def)
  show ?thesis
  proof (cases "\<exists>content. file = Config_file content")
    case True
    then obtain content q where is_file: "file = Config_file content" and q: "parse_config_file lib content desc = Inr q"
        "store_options lib q m1 = Inr m"
      using assms(2) p by (auto simp: store_all_def split: sum.splits)
    then have "parsed_by lib desc q" by (auto simp: parsed_by_def)
    note second = store_documented [OF assms(1) this q(2)]
    have "option_values lib m n = Some (chosen_value (given p n) (given q n) d)
        \<and> same_type (chosen_value (given p n) (given q n) d) d" if d: "map_of desc n = Some d" for n d
      using line [of n] second [of n] d fresh [of n]
      by (cases "given p n"; cases "given q n") (auto simp: store_option_def chosen_value_def same_type_refl)
    with p(1) q(1) show ?thesis by (simp add: is_file)
  next
    case False
    then have "file_gives lib desc given file n = None" "m = m1" for n
      using assms(2) p by (cases "file"; auto simp: store_all_def)+
    moreover have "option_values lib m1 n = Some (chosen_value (given p n) None d)
        \<and> same_type (chosen_value (given p n) None d) d" if d: "map_of desc n = Some d" for n d
      using line [of n] d fresh [of n]
      by (cases "given p n") (auto simp: store_option_def chosen_value_def same_type_refl)
    ultimately show ?thesis using p(1) by simp
  qed
qed

lemma store_all_stored:
  assumes "options_documented lib desc given defaulted" and "store_all lib desc argv file = Inr m"
    and "distinct (map fst desc)"
  shows "stored desc (option_values lib m)"
proof -
  from store_all_values [OF assms(1,2)] have "\<exists>v. option_values lib m n = Some v \<and> same_type v d"
    if "map_of desc n = Some d" for n d
    using that by blast
  with assms(3) show ?thesis by (fastforce simp: stored_def list_all_iff split: option.split)
qed

lemma parse_options_store:
  "parse_options lib desc argv file = Options m \<Longrightarrow> store_all lib desc argv file = Inr m"
  by (auto simp: parse_options_def split: sum.splits option_fault.splits if_splits)

lemma distinct_options: "distinct (map fst create_description_sv)"
  by code_simp

text \<open>C38 The command line decides. When the supervisor gets past its options, its configuration can be filled
  without a failing cast, and every option of the description has in it the value given on the command line; if none is given
  there, the one in the configuration file; and if none is given there either, its default.\<close>

theorem command_line_first:
  assumes "options_documented lib create_description_sv given defaulted"
    and "parse_options lib create_description_sv argv file = Options m"
  shows "\<exists>c p. fill_config (option_values lib m) = Some c \<and> parse_command_line lib argv create_description_sv = Inr p
    \<and> (\<forall>n d. (n, d) \<in> set create_description_sv \<longrightarrow>
        (n, chosen_value (given p n) (file_gives lib create_description_sv given file n) d) \<in> set (options_of c))"
proof -
  note store = parse_options_store [OF assms(2)]
  from store_all_values [OF assms(1) store] obtain p where p: "parse_command_line lib argv create_description_sv = Inr p"
      and v: "\<And>n d. map_of create_description_sv n = Some d \<Longrightarrow> option_values lib m n
        = Some (chosen_value (given p n) (file_gives lib create_description_sv given file n) d)" by blast
  from filled_options [OF store_all_stored [OF assms(1) store distinct_options]] obtain c where
      c: "fill_config (option_values lib m) = Some c" "list_all (\<lambda>(n, v). option_values lib m n = Some v) (options_of c)"
        "map fst (options_of c) = map fst create_description_sv" by blast
  have "(n, chosen_value (given p n) (file_gives lib create_description_sv given file n) d) \<in> set (options_of c)"
    if d: "(n, d) \<in> set create_description_sv" for n d
  proof -
    have "n \<in> fst ` set (options_of c)" using d c(3) by (metis fst_conv image_eqI list.set_map)
    then obtain x where x: "(n, x) \<in> set (options_of c)" by auto
    with c(2) v [of n d] d distinct_options show ?thesis by (auto simp: list_all_iff)
  qed
  with c(1) p show ?thesis by blast
qed

text \<open>A library whose \<open>store\<close> is as documented, on which the command line gives the port and the file gives it too
  and the broker's.\<close>

definition demo_store ::
    "options_description \<Rightarrow> variables_map \<Rightarrow> (string \<Rightarrow> (option_value \<times> bool) option) \<Rightarrow> (string \<Rightarrow> (option_value \<times> bool) option)" where
  "demo_store desc p m n =
     (case store_option (map_option fst (m n)) (case m n of Some (x, mark) \<Rightarrow> mark | None \<Rightarrow> True) (p n) (map_of desc n) of
        (v, mark) \<Rightarrow> map_option (\<lambda>x. (x, mark)) v)"

definition demo_library :: "(variables_map, string \<Rightarrow> (option_value \<times> bool) option) options_library" where
  "demo_library = \<lparr>parse_command_line = \<lambda>argv desc. Inr [''worker-port'' \<mapsto> Opt_int (int (length argv))],
     parse_config_file = \<lambda>content desc. Inr [''worker-port'' \<mapsto> Opt_int 9, ''amqp-port'' \<mapsto> Opt_int 8],
     store_options = \<lambda>p m. Inr (demo_store create_description_sv p m),
     no_options = Map.empty, option_count = \<lambda>m n. 0, option_values = \<lambda>m n. map_option fst (m n)\<rparr>"

definition demo_mark :: "(string \<Rightarrow> (option_value \<times> bool) option) \<Rightarrow> string \<Rightarrow> bool" where
  "demo_mark m n = (case m n of Some (x, mark) \<Rightarrow> mark | None \<Rightarrow> True)"

lemma demo_documented: "options_documented demo_library create_description_sv (\<lambda>p. p) demo_mark"
proof -
  have ports: "map_of create_description_sv ''worker-port'' = Some (Opt_int 2434)"
    "map_of create_description_sv ''amqp-port'' = Some (Opt_int 5672)" by code_simp+
  have typed: "same_type x d"
    if "parsed_by demo_library create_description_sv p" "p n = Some x" "map_of create_description_sv n = Some d" for p n x d
    using that ports by (auto simp: parsed_by_def demo_library_def split: if_splits)
  have "map_option fst (demo_store create_description_sv p m n) = fst r
      \<and> (fst r \<noteq> None \<longrightarrow> demo_mark (demo_store create_description_sv p m) n = snd r)"
    if "r = store_option (map_option fst (m n)) (demo_mark m n) (p n) (map_of create_description_sv n)" for p m n r
    using that [unfolded demo_mark_def]
    by (cases "fst r") (auto simp: demo_store_def demo_mark_def case_prod_beta option.map_comp comp_def)
  with typed show ?thesis by (auto simp: options_documented_def demo_library_def)
qed

theorem command_line_first_witness:
  "\<exists>m c. parse_options demo_library create_description_sv [[1], [2]] (Config_file []) = Options m
    \<and> fill_config (option_values demo_library m) = Some c \<and> (''worker-port'', Opt_int 2) \<in> set (options_of c)
    \<and> (''amqp-port'', Opt_int 8) \<in> set (options_of c) \<and> (''profiler-port'', Opt_int 7216) \<in> set (options_of c)"
proof -
  obtain m where m: "parse_options demo_library create_description_sv [[1], [2]] (Config_file []) = Options m"
    by (simp add: parse_options_def store_all_def demo_library_def)
  have described: "(''worker-port'', Opt_int 2434) \<in> set create_description_sv"
    "(''amqp-port'', Opt_int 5672) \<in> set create_description_sv" "(''profiler-port'', Opt_int 7216) \<in> set create_description_sv"
    by (simp_all add: create_description_sv_def)
  obtain c p where c: "fill_config (option_values demo_library m) = Some c"
      "parse_command_line demo_library [[1], [2]] create_description_sv = Inr p"
      "\<And>n d. (n, d) \<in> set create_description_sv \<Longrightarrow>
        (n, chosen_value (p n) (file_gives demo_library create_description_sv (\<lambda>p. p) (Config_file []) n) d) \<in> set (options_of c)"
    using command_line_first [OF demo_documented m] by blast
  from c(2) have "p = [''worker-port'' \<mapsto> Opt_int 2]" by (simp add: demo_library_def)
  with c(3) [OF described(1)] c(3) [OF described(2)] c(3) [OF described(3)] m c(1) show ?thesis
    by (simp add: chosen_value_def demo_library_def)
qed

section \<open>The end of the input\<close>

lemma register_listeners:
  "\<exists>ks. fold register_listener ls (link_config\<lparr>config_listeners := ks0\<rparr>) = link_config\<lparr>config_listeners := ks\<rparr>"
proof (induction ls arbitrary: ks0)
  case (Cons l ls)
  have "\<exists>ks. register_listener l (link_config\<lparr>config_listeners := ks0\<rparr>) = link_config\<lparr>config_listeners := ks\<rparr>"
    by (auto simp: register_listener_def)
  with Cons.IH show ?case by auto
qed auto

definition never_quits :: "(bytes \<Rightarrow> (command list \<times> bytes) option) \<Rightarrow> bytes \<Rightarrow> bool" where
  "never_quits grammar line \<longleftrightarrow>
     (case grammar line of Some (cs, rest) \<Rightarrow> rest = [] \<longrightarrow> Cmd_exit \<notin> set cs | None \<Rightarrow> True)"

lemma line_keeps_linked:
  assumes "linked co" and "never_quits grammar line"
  shows "\<exists>co'. handle_command_sv grammar from_str line co = Some (co', False) \<and> linked co'"
proof -
  have "sound_entries (co_linker co)"
    using assms link_config_sound by (auto simp: linked_def sound_entries_def)
  note run = visit_commands_keeps [OF this, of from_str]
  show ?thesis
  proof (cases "\<exists>cs. grammar line = Some (cs, [])")
    case True
    then obtain cs where cs: "grammar line = Some (cs, [])" by blast
    with assms(2) have "Cmd_exit \<notin> set cs" by (simp add: never_quits_def)
    with run [of cs] assms(1) cs show ?thesis by (auto simp: handle_command_sv_def linked_def)
  next
    case False
    with assms(1) show ?thesis by (auto simp: handle_command_sv_def split: option.split)
  qed
qed

lemma ended_input:
  assumes "grammar [] = None \<or> (\<exists>cs r. grammar [] = Some (cs, r) \<and> r \<noteq> [])"
  shows "console_iterations grammar from_str n [] co = Some (co, False)"
  by (induction n) (use assms in \<open>auto simp: handle_command_sv_def\<close>)

lemma lines_then_nothing:
  assumes "grammar [] = None \<or> (\<exists>cs r. grammar [] = Some (cs, r) \<and> r \<noteq> [])" and "linked co"
    and "list_all (never_quits grammar) lines"
  shows "\<exists>co'. \<forall>n. console_iterations grammar from_str (length lines + n) lines co = Some (co', False)"
  using assms(2,3)
proof (induction lines arbitrary: co)
  case Nil
  with ended_input [of grammar, OF assms(1)] show ?case by simp
next
  case (Cons line lines)
  then obtain co1 where "handle_command_sv grammar from_str line co = Some (co1, False)" "linked co1"
    using line_keeps_linked by fastforce
  with Cons show ?case by simp
qed

text \<open>C39 The end of the input. On a terminal, when no line typed contains an accepted \<open>exit\<close> and the grammar
  rejects the empty line, the supervisor's main thread does not stop at the end of the input: it reads
  empty lines and rejects them for ever, in the state the lines have left.\<close>

theorem end_of_input_spins:
  assumes "options_documented lib create_description_sv given defaulted"
    and "parse_options lib create_description_sv argv file = Options m"
    and "grammar [] = None \<or> (\<exists>cs r. grammar [] = Some (cs, r) \<and> r \<noteq> [])"
    and "list_all (never_quits grammar) lines"
  shows "\<exists>co. \<forall>n \<ge> length lines.
    supervisor_main lib argv file True grammar from_str env_levels ls n lines = Main_running co"
proof -
  have "stored create_description_sv (option_values lib m)"
    by (rule store_all_stored [OF assms(1) parse_options_store [OF assms(2)] distinct_options])
  from filled_options [OF this] obtain c where c: "fill_config (option_values lib m) = Some c" by blast
  let ?co = "\<lparr>co_config = c, co_linker = fold register_listener ls link_config,
    co_level = env_levels Level_info, co_fired = []\<rparr>"
  have "link_config\<lparr>config_listeners := config_listeners link_config\<rparr> = link_config" by simp
  with register_listeners [of ls "config_listeners link_config"] have "linked ?co" by (simp add: linked_def)
  from lines_then_nothing [OF assms(3) this assms(4), of from_str] obtain co where
      "\<And>n. console_iterations grammar from_str (length lines + n) lines ?co = Some (co, False)" by blast
  then have "console_iterations grammar from_str n lines ?co = Some (co, False)" if "n \<ge> length lines" for n
    using that by (metis le_add_diff_inverse)
  then show ?thesis by (auto simp: supervisor_main_def assms(2) c Let_def)
qed

theorem end_of_input_spins_witness:
  "\<exists>co. \<forall>n \<ge> 1. supervisor_main demo_library [] No_file True (\<lambda>input. if input = [1] then Some ([Cmd_level [5]], []) else None)
    (\<lambda>_. Level_debug) (\<lambda>l. l) [] n [[1]] = Main_running co"
proof -
  let ?g = "\<lambda>input :: bytes. if input = [1] then Some ([Cmd_level [5]], [] :: bytes) else None"
  obtain m where m: "parse_options demo_library create_description_sv [] No_file = Options m"
    by (simp add: parse_options_def store_all_def demo_library_def)
  have "list_all (never_quits ?g) [[1]]" by (simp add: never_quits_def)
  from end_of_input_spins [OF demo_documented m _ this, of "\<lambda>_. Level_debug" "\<lambda>l. l" "[]"] show ?thesis by simp
qed

text \<open>The worker's loop: after the last word every iteration sets the level of the empty name, which is
  "off" for a library that knows no such level.\<close>

theorem worker_input_ends:
  assumes "length words < n"
  shows "worker_iterations from_str n words level = from_str []"
  using assms
proof (induction n arbitrary: words level)
  case (Suc n)
  have empty: "worker_iterations from_str k [] (from_str []) = from_str []" for k by (induction k) simp_all
  show ?case by (cases words) (use Suc in \<open>auto simp: empty\<close>)
qed simp

end
