(* ===== verification/Close_Race.thy ===== *)
theory Close_Race
  imports Rooms_Props
begin

text \<open>
  The interleaving of \<open>close_all_connections\<close> with the other threads
  (src/worker/bilibili_connection_manager.cpp). The lambda that closes all rooms runs on a thread
  of the pool without the mutex, while the link's thread opens and closes rooms and the other threads of the
  pool complete operations, each under the mutex. Its loop is split where another
  thread can come between: the test of \<open>empty()\<close> and the use of \<open>begin()\<close>. The interleavings here are
  some of the possible ones; the calls under the mutex and \<open>close\<close> are single steps.
\<close>

datatype closer = Closer_tests | Closer_takes | Closer_ends | Closer_breaks

inductive race_step ::
    "'m packet_env \<Rightarrow> ws_options \<Rightarrow> closer \<times> 'm room_manager \<Rightarrow> closer \<times> 'm room_manager \<Rightarrow> bool"
  for env opts where
  race_some: "rm_connections st \<noteq> [] \<Longrightarrow> race_step env opts (Closer_tests, st) (Closer_takes, st)"
| race_none: "rm_connections st = [] \<Longrightarrow> race_step env opts (Closer_tests, st) (Closer_ends, st)"
| race_close: "rm_connections st = (r, i) # cs \<Longrightarrow>
    race_step env opts (Closer_takes, st) (Closer_tests, close_object i st)"
| race_begin_of_empty: "rm_connections st = [] \<Longrightarrow> race_step env opts (Closer_takes, st) (Closer_breaks, st)"
| race_open: "race_step env opts (p, st) (p, open_connection room_id st)"
| race_unassign: "race_step env opts (p, st) (p, close_connection room_id st)"
| race_complete: "(i, a) \<in> set (rm_pending st) \<Longrightarrow> completes a ev \<Longrightarrow> complete env opts i a ev st = Ran (st', out)
    \<Longrightarrow> race_step env opts (p, st) (p, st')"
| race_drop_fetch: "(i, Fetch_config) \<in> set (rm_pending st) \<Longrightarrow> race_step env opts (p, st) (p, drop_fetch i st)"

text \<open>The rooms stay consistent under every interleaving, whatever the closer does.\<close>

lemma race_step_ok: "race_step env opts x y \<Longrightarrow> rm_ok (snd x) \<Longrightarrow> rm_ok (snd y)"
  by (induction rule: race_step.induct)
    (auto simp: close_object_ok open_connection_ok close_connection_ok drop_fetch_ok intro: complete_ok)

interpretation race: invariant_system "\<lambda>x. x = (Closer_tests, new_room_manager)" "race_step env opts"
    "\<lambda>x. rm_ok (snd x)" for env opts
proof
  have "rm_ok new_room_manager" by (simp add: rm_ok_def rm_inv_def all_referenced_def new_room_manager_def)
  then show "x = (Closer_tests, new_room_manager) \<Longrightarrow> rm_ok (snd x)" for x :: "closer \<times> 'a room_manager" by simp
qed (rule race_step_ok)

text \<open>Alone, the closer never uses \<open>begin()\<close> of an empty map.\<close>

inductive alone_step :: "closer \<times> 'm room_manager \<Rightarrow> closer \<times> 'm room_manager \<Rightarrow> bool" where
  alone_some: "rm_connections st \<noteq> [] \<Longrightarrow> alone_step (Closer_tests, st) (Closer_takes, st)"
| alone_none: "rm_connections st = [] \<Longrightarrow> alone_step (Closer_tests, st) (Closer_ends, st)"
| alone_close: "rm_connections st = (r, i) # cs \<Longrightarrow> alone_step (Closer_takes, st) (Closer_tests, close_object i st)"
| alone_break: "rm_connections st = [] \<Longrightarrow> alone_step (Closer_takes, st) (Closer_breaks, st)"

definition closer_safe :: "closer \<times> 'm room_manager \<Rightarrow> bool" where
  "closer_safe x \<longleftrightarrow> fst x \<noteq> Closer_breaks \<and> (fst x = Closer_takes \<longrightarrow> rm_connections (snd x) \<noteq> [])"

interpretation alone: invariant_system "\<lambda>x. \<exists>st. x = (Closer_tests, st)" alone_step closer_safe
  by unfold_locales (auto simp: closer_safe_def elim!: alone_step.cases)

text \<open>C40 The race of closing all rooms. Without other threads the loop never uses the first entry of an empty
  map; but in every reachable state with a single open room there is an interleaving in which it does:
  the loop sees that room, the link's thread closes it under the mutex, and the loop goes on.\<close>

theorem close_all_races:
  assumes "reach (\<lambda>x. x = (Closer_tests, new_room_manager)) (race_step env opts) (Closer_tests, st)"
    and "keys (rm_connections st) = [r]"
  shows "(\<exists>st'. (race_step env opts)\<^sup>*\<^sup>* (Closer_tests, st) (Closer_breaks, st'))
    \<and> (\<forall>st'. \<not> alone_step\<^sup>*\<^sup>* (Closer_tests, st) (Closer_breaks, st'))"
proof
  let ?st = "close_connection r st"
  have "rm_ok st" using race.inv_reach [OF assms(1)] by simp
  from close_connection_keys [OF this, of r] have "set (keys (rm_connections ?st)) = {}"
    by (simp only: assms(2)) simp
  then have closed: "rm_connections ?st = []" by simp
  have some: "rm_connections st \<noteq> []" using assms(2) by auto
  have "(race_step env opts)\<^sup>*\<^sup>* (Closer_tests, st) (Closer_takes, st)" by (intro r_into_rtranclp race_some some)
  also have "(race_step env opts)\<^sup>*\<^sup>* (Closer_takes, st) (Closer_takes, ?st)" by (intro r_into_rtranclp race_unassign)
  also have "(race_step env opts)\<^sup>*\<^sup>* (Closer_takes, ?st) (Closer_breaks, ?st)" by (intro r_into_rtranclp race_begin_of_empty closed)
  finally show "\<exists>st'. (race_step env opts)\<^sup>*\<^sup>* (Closer_tests, st) (Closer_breaks, st')" by blast
  have "closer_safe (Closer_tests, st)" by (simp add: closer_safe_def)
  then have "closer_safe (Closer_breaks, st')" if "alone_step\<^sup>*\<^sup>* (Closer_tests, st) (Closer_breaks, st')" for st'
    by (rule alone.inv_steps [OF that])
  then show "\<forall>st'. \<not> alone_step\<^sup>*\<^sup>* (Closer_tests, st) (Closer_breaks, st')"
    by (auto simp: closer_safe_def)
qed

theorem close_all_races_witness:
  "\<exists>st'. (race_step demo_site_env demo_opts)\<^sup>*\<^sup>* (Closer_tests, one_room) (Closer_breaks, st')"
proof -
  have start: "reach (\<lambda>x. x = (Closer_tests, new_room_manager)) (race_step demo_site_env demo_opts) (Closer_tests, one_room)"
    unfolding one_room_def by (rule reach_step, rule reach_start, rule refl, rule race_open)
  have "keys (rm_connections one_room) = [7]" by (simp add: one_room_eq)
  from close_all_races [OF start this] show ?thesis by (rule conjunct1)
qed

end
