(* ===== verification/Http_Updater.thy ===== *)
theory Http_Updater
  imports Live_Config Config_Options
begin

text \<open>
  The updaters that fetch a document at intervals, src/shared/http_interval_updater.cpp, with the two
  clients of it: the room list of the supervisor (src/supervisor/room_list_updater.cpp) and the
  chat-server token of the worker (src/worker/bilibili_token_updater.cpp), which nothing
  creates. The HTTP library and the JSON parser are arguments and events: a transfer hands the
  body over in chunks and ends with or without an error.
\<close>

section \<open>http_interval_updater\<close>

definition CURL_MAX_SIZE :: nat where "CURL_MAX_SIZE = 4 * 1024 * 1024"

text \<open>The virtual methods of a client; a null string is \<open>None\<close>.\<close>

record updater_request =
  on_request_url :: bytes
  on_request_method :: bytes
  on_request_payload :: "bytes option"
  on_request_content_type :: "bytes option"
  on_user_agent :: bytes
  on_request_accept :: "bytes option"
  on_request_referer :: "bytes option"
  on_update_interval_sec :: int
  on_timeout_sec :: int

datatype curl_option = Curl_timeout int | Curl_cookielist bytes | Curl_url bytes | Curl_customrequest bytes
  | Curl_postfields bytes | Curl_httpheader "bytes list" | Curl_referer bytes | Curl_accept_encoding bytes
  | Curl_writefunction

text \<open>The options set before every transfer. A payload without a content type would build a string
  from a null pointer, \<open>None\<close>.\<close>

definition setup_curl :: "updater_request \<Rightarrow> curl_option list option" where
  "setup_curl r =
     (case (case on_request_payload r of
          None \<Rightarrow> Some []
        | Some p \<Rightarrow> map_option (\<lambda>t. [ascii ''Content-Type:'' @ t]) (on_request_content_type r)) of
        None \<Rightarrow> None
      | Some content_type \<Rightarrow> Some (
          [Curl_timeout (on_timeout_sec r), Curl_cookielist (ascii ''ALL''),
           Curl_url (on_request_url r), Curl_customrequest (on_request_method r)]
          @ (case on_request_payload r of None \<Rightarrow> [] | Some p \<Rightarrow> [Curl_postfields p])
          @ [Curl_httpheader ([ascii ''Expect:''] @ content_type
               @ (case on_request_accept r of None \<Rightarrow> [] | Some a \<Rightarrow> [ascii ''Accept:'' @ a]))]
          @ (case on_request_referer r of None \<Rightarrow> [] | Some a \<Rightarrow> [Curl_referer a])
          @ [Curl_accept_encoding (ascii ''gzip, deflate, br''), Curl_writefunction]))"

text \<open>The callback gets a chunk; fewer bytes taken than it had fail the transfer.\<close>

definition receive_content_length :: "bytes \<Rightarrow> bytes \<Rightarrow> nat \<times> bytes" where
  "receive_content_length buf output =
     (let real_size = length buf in
      if CURL_MAX_SIZE \<le> length output + real_size then (0, output) else (real_size, output @ buf))"

fun receive_chunks :: "bytes \<Rightarrow> bytes list \<Rightarrow> bytes option" where
  "receive_chunks output [] = Some output"
| "receive_chunks output (c # cs) = (case receive_content_length c output of (n, output) \<Rightarrow>
     if n \<noteq> length c then None else receive_chunks output cs)"

text \<open>\<open>refresh\<close>: \<open>None\<close> when \<open>on_updated\<close> is not called, else the text it is called with.\<close>

definition refresh :: "bool \<Rightarrow> bool \<Rightarrow> nat \<Rightarrow> bytes list \<Rightarrow> bytes option" where
  "refresh have_curl transfer_ok status_code chunks =
     (if \<not> have_curl then None
      else case receive_chunks [] chunks of
          None \<Rightarrow> None
        | Some output \<Rightarrow> if \<not> transfer_ok then None else Some output)"

record updater =
  up_timer :: "int option"
  up_updates :: "bytes list"

definition updater_init :: updater where
  "updater_init = \<lparr>up_timer = Some 0, up_updates = []\<rparr>"

definition updater_reschedule_timer :: "updater_request \<Rightarrow> updater \<Rightarrow> updater" where
  "updater_reschedule_timer r u = u\<lparr>up_timer := Some (on_update_interval_sec r)\<rparr>"

definition updater_on_timer_tick ::
    "updater_request \<Rightarrow> bool \<Rightarrow> bool \<Rightarrow> bool \<Rightarrow> nat \<Rightarrow> bytes list \<Rightarrow> updater \<Rightarrow> updater" where
  "updater_on_timer_tick r err have_curl transfer_ok status_code chunks u =
     (let u = u\<lparr>up_timer := None\<rparr> in
      if err then u
      else updater_reschedule_timer r (case refresh have_curl transfer_ok status_code chunks of
          None \<Rightarrow> u | Some body \<Rightarrow> u\<lparr>up_updates := up_updates u @ [body]\<rparr>))"

section \<open>The room list\<close>

text \<open>
  What becomes of one element: skipped, an id, or, when \<open>liveInfo\<close> has no \<open>roomId\<close>, a read past
  the end of its members, because the missing member is looked for with the end of another object.
\<close>

datatype room_element = Skipped | Room_id int | Past_the_end

definition room_of_element :: "json \<Rightarrow> room_element" where
  "room_of_element element =
     (if \<not> is_object element then Skipped
      else case member_with element ''liveInfo'' is_object of
          None \<Rightarrow> Skipped
        | Some live_info \<Rightarrow> (case find_member live_info ''roomId'' of
              Some (Some v) \<Rightarrow> if is_int v then Room_id (num v) else Skipped
            | _ \<Rightarrow> Past_the_end))"

fun room_ids_of :: "json list \<Rightarrow> int list option" where
  "room_ids_of [] = Some []"
| "room_ids_of (e # es) = (case room_of_element e of
       Past_the_end \<Rightarrow> None
     | Skipped \<Rightarrow> room_ids_of es
     | Room_id i \<Rightarrow> map_option ((#) i) (room_ids_of es))"

datatype room_list_outcome = Ignored | Update_room_lists "int list" | Undefined_read

definition room_list_on_updated :: "(bytes \<Rightarrow> json option) \<Rightarrow> bytes \<Rightarrow> room_list_outcome" where
  "room_list_on_updated parse body =
     (case parse (c_str body) of
        None \<Rightarrow> Ignored
      | Some document \<Rightarrow>
          if \<not> is_object document then Ignored
          else (case member_with document ''data'' is_object of
              None \<Rightarrow> Ignored
            | Some data \<Rightarrow> (case member_with data ''allBilibiliInfo'' (is_array_of 0) of
                  None \<Rightarrow> Ignored
                | Some info \<Rightarrow> (case room_ids_of (elems info) of
                      None \<Rightarrow> Undefined_read | Some ids \<Rightarrow> Update_room_lists ids))))"

definition vtuber_info_request :: "bytes \<Rightarrow> config_supervisor \<Rightarrow> updater_request" where
  "vtuber_info_request version c =
     \<lparr>on_request_url = rlu_url (cfg_room_list_updater c), on_request_method = ascii ''POST'',
      on_request_payload = Some ([10] @ ascii ''{\"query\":\"{allBilibiliInfo{liveInfo{roomId}}}\"}'' @ [10]),
      on_request_content_type = Some (ascii ''application/json''),
      on_user_agent = ascii ''vNerve Bilibili Live Receptor'' @ version,
      on_request_accept = Some (ascii ''application/json''), on_request_referer = None,
      on_update_interval_sec = wrap_i32 (rlu_interval_min (cfg_room_list_updater c) * 60),
      on_timeout_sec = rlu_timeout_sec (cfg_room_list_updater c)\<rparr>"

section \<open>The token\<close>

definition new_token_updater :: "variables_map \<Rightarrow> updater_request option" where
  "new_token_updater config =
     do { timeout \<leftarrow> as_int config ''chat-config-timeout-sec''; interval \<leftarrow> as_int config ''chat-config-interval-sec'';
          url \<leftarrow> as_string config ''chat-config-url''; user_agent \<leftarrow> as_string config ''chat-config-user-agent'';
          referer \<leftarrow> as_string config ''chat-config-referer'';
          Some \<lparr>on_request_url = url, on_request_method = ascii ''GET'', on_request_payload = None,
            on_request_content_type = None, on_user_agent = user_agent,
            on_request_accept = Some (ascii ''application/json''), on_request_referer = Some referer,
            on_update_interval_sec = interval, on_timeout_sec = timeout\<rparr> }"

text \<open>The callback's host, port and token.\<close>

definition token_on_updated :: "(bytes \<Rightarrow> json option) \<Rightarrow> bytes \<Rightarrow> (bytes \<times> int \<times> bytes) option" where
  "token_on_updated parse body =
     do { document \<leftarrow> parse (c_str body);
          code \<leftarrow> (if is_object document then member_with document ''code'' is_int else None);
          data \<leftarrow> (if num code \<noteq> 0 then None else member_with document ''data'' is_object);
          token \<leftarrow> member_with data ''token'' is_string;
          servers \<leftarrow> member_with data ''host_server_list'' (is_array_of 0);
          server \<leftarrow> (case elems servers of [] \<Rightarrow> None | s # _ \<Rightarrow> Some s);
          host \<leftarrow> (if is_object server then member_with server ''host'' is_string else None);
          port \<leftarrow> member_with server ''port'' is_int;
          Some (str host, num port, str token) }"

end
