(* ===== verification/Http_Props.thy ===== *)
theory Http_Props
  imports Http_Updater
begin

text \<open>
  The properties of the updaters: the size limit of a transfer, the rooms read from a response, and
  what the requests leave out.
\<close>

lemma receive_chunks_eq:
  assumes "[] \<notin> set cs" and "length buf < CURL_MAX_SIZE"
  shows "receive_chunks buf cs = (if length (buf @ concat cs) < CURL_MAX_SIZE then Some (buf @ concat cs) else None)"
  using assms
proof (induction cs arbitrary: buf)
  case (Cons c cs)
  then show ?case by (auto simp: receive_content_length_def Let_def)
qed simp

text \<open>The size limit. A transfer that the library completes calls \<open>on_updated\<close> with the whole body,
  in whatever chunks it came and whatever the status code, as long as the body is shorter than
  4 MB; a longer body is never delivered, not even in part.\<close>

theorem transfer_limit:
  assumes "[] \<notin> set chunks"
  shows "refresh True True status chunks = (if length (concat chunks) < CURL_MAX_SIZE then Some (concat chunks) else None)
    \<and> refresh True False status chunks = None"
  using receive_chunks_eq [OF assms, of "[]"]
  by (auto simp: refresh_def CURL_MAX_SIZE_def split: option.splits)

theorem transfer_limit_witness:
  "refresh True True 404 [[1, 2], [3]] = Some [1, 2, 3]"
  using transfer_limit [of "[[1, 2], [3]]" 404] by (simp add: CURL_MAX_SIZE_def)

text \<open>The specification of a response, in terms of JSON values only: the list it holds, the room an element of the
  list gives, and an element with a \<open>liveInfo\<close> object that has no \<open>roomId\<close>.\<close>

definition lists_rooms :: "json \<Rightarrow> json list \<Rightarrow> bool" where
  "lists_rooms document es \<longleftrightarrow>
     (\<exists>data. member_is document ''data'' data \<and> member_is data ''allBilibiliInfo'' (JArr es))"

definition gives_room :: "json \<Rightarrow> int \<Rightarrow> bool" where
  "gives_room e room \<longleftrightarrow> (\<exists>live. member_is e ''liveInfo'' live \<and> member_is live ''roomId'' (JInt room))
     \<and> - (2 ^ 31) \<le> room \<and> room < 2 ^ 31"

definition lacks_room_id :: "json \<Rightarrow> bool" where
  "lacks_room_id e \<longleftrightarrow> (\<exists>ms. member_is e ''liveInfo'' (JObj ms) \<and> map_of ms (ascii ''roomId'') = None)"

lemma is_object_eq: "is_object v \<longleftrightarrow> (\<exists>ms. v = JObj ms)"
  by (cases v) auto

lemma room_of_live_info:
  assumes "member_is e ''liveInfo'' (JObj ms)"
  shows "room_of_element e = (case map_of ms (ascii ''roomId'') of
      None \<Rightarrow> Past_the_end | Some v \<Rightarrow> if is_int v then Room_id (num v) else Skipped)"
proof -
  have "member_with e ''liveInfo'' is_object = Some (JObj ms)" using assms by (simp add: member_with_is)
  with member_is_object [OF assms] show ?thesis
    by (auto simp: room_of_element_def find_member_def split: option.split)
qed

lemma room_of_other:
  assumes "\<not> (\<exists>ms. member_is e ''liveInfo'' (JObj ms))"
  shows "room_of_element e = Skipped"
proof -
  have "member_with e ''liveInfo'' is_object \<noteq> Some live" for live
    using assms by (auto simp: member_with_is is_object_eq)
  then show ?thesis by (simp add: room_of_element_def split: option.split)
qed

lemma room_of_element_past: "room_of_element e = Past_the_end \<longleftrightarrow> lacks_room_id e"
proof (cases "\<exists>ms. member_is e ''liveInfo'' (JObj ms)")
  case True
  then obtain ms where ms: "member_is e ''liveInfo'' (JObj ms)" by blast
  then have "lacks_room_id e \<longleftrightarrow> map_of ms (ascii ''roomId'') = None"
    by (auto simp: lacks_room_id_def member_is_def)
  then show ?thesis by (auto simp: room_of_live_info [OF ms] split: option.splits)
qed (auto simp: room_of_other lacks_room_id_def)

lemma room_of_element_room: "room_of_element e = Room_id i \<longleftrightarrow> gives_room e i"
proof (cases "\<exists>ms. member_is e ''liveInfo'' (JObj ms)")
  case True
  then obtain ms where ms: "member_is e ''liveInfo'' (JObj ms)" by blast
  then have "gives_room e i \<longleftrightarrow> map_of ms (ascii ''roomId'') = Some (JInt i) \<and> - (2 ^ 31) \<le> i \<and> i < 2 ^ 31"
    by (auto simp: gives_room_def member_is_def)
  then show ?thesis
    by (auto simp: room_of_live_info [OF ms] is_int_eq split: option.splits)
next
  case False
  then show ?thesis by (auto simp: room_of_other gives_room_def) (auto simp: member_is_def)
qed

lemma room_ids_of_elements:
  "case room_ids_of es of
     None \<Rightarrow> \<exists>e. e \<in> set es \<and> lacks_room_id e
   | Some ids \<Rightarrow> \<not> (\<exists>e. e \<in> set es \<and> lacks_room_id e) \<and> list_all2 gives_room (filter (\<lambda>e. \<exists>i. gives_room e i) es) ids"
proof (induction es)
  case (Cons e es)
  note element = room_of_element_past [of e] room_of_element_room [of e]
  show ?case
  proof (cases "room_of_element e")
    case Skipped
    with element have "\<not> lacks_room_id e" "\<not> gives_room e i" for i by auto
    with Skipped Cons show ?thesis by (auto split: option.splits)
  next
    case (Room_id i)
    with element have "\<not> lacks_room_id e" "gives_room e j \<longleftrightarrow> i = j" for j by auto
    with Room_id Cons show ?thesis by (auto split: option.splits)
  next
    case Past_the_end
    with element show ?thesis by auto
  qed
qed simp

text \<open>C37 The room list. From a response that holds the list \<open>data.allBilibiliInfo\<close> the
  scheduler gets, in order, the \<open>roomId\<close> of every element whose \<open>liveInfo\<close> has an integer one of the size of an
  \<open>int\<close>, and nothing for elements of any other shape, unless some element has a \<open>liveInfo\<close> object without \<open>roomId\<close>: then
  memory behind that object is read. Any other response is ignored.\<close>

theorem room_list_parsed:
  assumes "parse (c_str body) = Some document"
  shows "if \<exists>es. lists_rooms document es
    then \<exists>es. lists_rooms document es
      \<and> (if \<exists>e. e \<in> set es \<and> lacks_room_id e then room_list_on_updated parse body = Undefined_read
         else \<exists>ids. room_list_on_updated parse body = Update_room_lists ids
           \<and> list_all2 gives_room (filter (\<lambda>e. \<exists>room. gives_room e room) es) ids)
    else room_list_on_updated parse body = Ignored"
proof (cases "\<exists>es. lists_rooms document es")
  case True
  then obtain es data where es: "lists_rooms document es" and data: "member_is document ''data'' data"
      "member_is data ''allBilibiliInfo'' (JArr es)" by (auto simp: lists_rooms_def)
  have "is_object document" "member_with document ''data'' is_object = Some data"
      "member_with data ''allBilibiliInfo'' (is_array_of 0) = Some (JArr es)"
    using data by (simp_all add: member_with_is is_array_of_def member_is_object)
  with assms have "room_list_on_updated parse body =
      (case room_ids_of es of None \<Rightarrow> Undefined_read | Some ids \<Rightarrow> Update_room_lists ids)"
    by (simp add: room_list_on_updated_def)
  with es True room_ids_of_elements [of es] show ?thesis
    by (cases "room_ids_of es") (auto intro!: exI [of _ es])
next
  case False
  have "\<not> (member_with document ''data'' is_object = Some data
      \<and> member_with data ''allBilibiliInfo'' (is_array_of 0) = Some info)" for data info
    using False by (cases info) (auto simp: member_with_is is_array_of_def lists_rooms_def)
  with False assms show ?thesis by (auto simp: room_list_on_updated_def split: option.split)
qed

definition demo_rooms_document :: "json list \<Rightarrow> json" where
  "demo_rooms_document es = JObj [(ascii ''data'', JObj [(ascii ''allBilibiliInfo'', JArr es)])]"

definition demo_room :: "int \<Rightarrow> json" where
  "demo_room i = JObj [(ascii ''liveInfo'', JObj [(ascii ''roomId'', JInt i)])]"

theorem room_list_parsed_witness:
  "room_list_on_updated (\<lambda>_. Some (demo_rooms_document [demo_room 5, JNull, demo_room 3])) [] = Update_room_lists [5, 3]
   \<and> room_list_on_updated (\<lambda>_. Some (demo_rooms_document [JObj [(ascii ''liveInfo'', JObj [])]])) [] = Undefined_read"
proof -
  let ?lacking = "JObj [(ascii ''liveInfo'', JObj [])]"
  have lists: "lists_rooms (demo_rooms_document es) es' \<longleftrightarrow> es' = es" for es es'
    by (auto simp: lists_rooms_def demo_rooms_document_def member_is_def)
  have lacks: "\<not> lacks_room_id (demo_room i)" "\<not> lacks_room_id JNull" "lacks_room_id ?lacking" for i
    by (auto simp: lacks_room_id_def demo_room_def member_is_def)
  have gives: "gives_room (demo_room i) j \<longleftrightarrow> j = i \<and> - (2 ^ 31) \<le> i \<and> i < 2 ^ 31" "\<not> gives_room JNull j" for i j
    by (auto simp: gives_room_def demo_room_def member_is_def)
  have rooms: "\<not> (\<exists>e. e \<in> set [demo_room 5, JNull, demo_room 3] \<and> lacks_room_id e)"
      "filter (\<lambda>e. \<exists>room. gives_room e room) [demo_room 5, JNull, demo_room 3] = [demo_room 5, demo_room 3]"
    using lacks by (auto simp: gives)
  have "\<exists>ids. room_list_on_updated (\<lambda>_. Some (demo_rooms_document [demo_room 5, JNull, demo_room 3])) [] = Update_room_lists ids
      \<and> list_all2 gives_room [demo_room 5, demo_room 3] ids"
    using room_list_parsed [of "\<lambda>_. Some (demo_rooms_document [demo_room 5, JNull, demo_room 3])" "[]", OF refl]
    by (simp only: lists rooms simp_thms if_False if_True)
  moreover have "room_list_on_updated (\<lambda>_. Some (demo_rooms_document [?lacking])) [] = Undefined_read"
    using room_list_parsed [of "\<lambda>_. Some (demo_rooms_document [?lacking])" "[]", OF refl]
    by (simp add: lists lacks)
  ultimately show ?thesis by (auto simp: gives list_all2_Cons1)
qed

text \<open>The user agent of a client is never given to the library.\<close>

theorem user_agent_never_sent: "setup_curl (r\<lparr>on_user_agent := ua\<rparr>) = setup_curl r"
  by (cases "on_request_payload r"; cases "on_request_content_type r"; cases "on_request_accept r";
      cases "on_request_referer r") (simp_all add: setup_curl_def)

text \<open>No options of the worker construct the token updater: it casts the list of user agents to a string.\<close>

theorem token_updater_unusable:
  assumes "stored create_description_worker vm"
  shows "new_token_updater vm = None"
proof -
  obtain v where v: "vm ''chat-config-user-agent'' = Some v"
      and "same_type v (Opt_strings [ascii ''Mozilla/5.0 (Windows NT 10.0; Win64; x64) AppleWebKit/537.36 (KHTML, like Gecko) Chrome/83.0.4103.97 Safari/537.36''])"
    using assms by (auto simp: stored_def create_description_worker_def split: option.splits)
  then have "as_string vm ''chat-config-user-agent'' = None" by (cases v) (simp_all add: as_string_def)
  then show ?thesis by (simp add: new_token_updater_def bind_eq_None_conv)
qed

end
