(* ===== verification/System.thy ===== *)
theory System
  imports Supervisor_Props Worker_Props
begin

text \<open>
  The two programs together: what the supervisor writes to the socket of one worker while it runs, and
  what the worker makes of these bytes. \<open>served\<close> is the contract between them: the packets written
  are operations that turn the rooms the worker had into the rooms it has, and no room is opened twice.
\<close>


section \<open>What a worker is sent\<close>

text \<open>The writes of the supervisor to one socket; \<open>own_socket\<close>: exactly the session of worker \<open>i\<close> has it.\<close>

fun sent_to :: "nat \<Rightarrow> conn_action list \<Rightarrow> bytes list" where
  "sent_to sock [] = []"
| "sent_to sock (Write_socket n p # as) = (if n = sock then [p] else []) @ sent_to sock as"
| "sent_to sock (a # as) = sent_to sock as"

definition own_socket :: "identifier_t \<Rightarrow> nat \<Rightarrow> connections \<Rightarrow> bool" where
  "own_socket i sock c \<longleftrightarrow>
     map fst (filter (\<lambda>(j, k). se_socket (cn_objects c ! k) = Some sock) (cn_sockets c)) = [i]"

lemma sent_to_append [simp]: "sent_to sock (xs @ ys) = sent_to sock xs @ sent_to sock ys"
  by (induction sock xs rule: sent_to.induct) auto

lemma own_socket_iff:
  assumes "conn_ok c" and "own_socket i sock c" and "map_of (cn_sockets c) j = Some k"
  shows "se_socket (cn_objects c ! k) = Some sock \<longleftrightarrow> j = i"
proof -
  let ?own = "filter (\<lambda>(j, k). se_socket (cn_objects c ! k) = Some sock) (cn_sockets c)"
  have own: "map fst ?own = [i]" using assms(2) by (simp add: own_socket_def)
  have entry: "(j, k) \<in> set (cn_sockets c)" using assms(3) by (rule map_of_SomeD)
  show ?thesis
  proof
    assume "se_socket (cn_objects c ! k) = Some sock"
    with entry have "j \<in> fst ` set ?own" by force
    then show "j = i" by (simp only: own list.set_map [symmetric]) simp
  next
    assume "j = i"
    then have "j \<in> set (map fst ?own)" by (simp only: own) simp
    then obtain k' where k': "(j, k') \<in> set (cn_sockets c)" "se_socket (cn_objects c ! k') = Some sock" by auto
    then have "k' = k" using assms(1) entry by (auto simp: conn_ok_def dest: eq_key_imp_eq_value)
    with k'(2) show "se_socket (cn_objects c ! k) = Some sock" by simp
  qed
qed

lemma own_socket_key: "own_socket i sock c \<Longrightarrow> i \<in> set (keys (cn_sockets c))"
proof -
  assume "own_socket i sock c"
  then have "i \<in> set (map fst (filter (\<lambda>(j, k). se_socket (cn_objects c ! k) = Some sock) (cn_sockets c)))"
    by (simp add: own_socket_def)
  then show ?thesis by auto
qed

lemma own_socket_known: "own_socket i sock c \<Longrightarrow> \<exists>k. map_of (cn_sockets c) i = Some k"
  by (rule keys_map_of [OF own_socket_key])

lemma sent_to_worker:
  assumes "conn_ok c" and "own_socket i sock c"
  shows "sent_to sock (send_message j p c) = (if j = i then [p] else [])"
proof (cases "map_of (cn_sockets c) j")
  case None
  with own_socket_known [OF assms(2)] show ?thesis by (auto simp: send_message_def)
next
  case (Some k)
  with conn_ok_object [OF assms(1)] conn_ok_lookup [OF assms(1) Some]
  obtain n where n: "se_socket (cn_objects c ! k) = Some n" by auto
  with own_socket_iff [OF assms Some] show ?thesis
    by (auto simp: send_message_def Some worker_session_send_def)
qed

lemma own_socket_erase: "j \<noteq> i \<Longrightarrow> own_socket i sock c \<Longrightarrow>
    own_socket i sock (c\<lparr>cn_sockets := erase_key j (cn_sockets c)\<rparr>)"
proof -
  assume "j \<noteq> i" and own: "own_socket i sock c"
  let ?P = "\<lambda>(j, k). se_socket (cn_objects c ! k) = Some sock"
  have "map fst (filter ?P (erase_key j m)) = filter (\<lambda>k. k \<noteq> j) (map fst (filter ?P m))" for m
    by (induction m) (auto simp: erase_key_def)
  with own \<open>j \<noteq> i\<close> show ?thesis by (simp add: own_socket_def)
qed

text \<open>One step of the calls out of the scheduler.\<close>

lemma perform_conns:
  assumes "conn_ok (sv_conns v)" and "perform env e v = Some u"
  shows "sv_conns u = (case e of Disconnect_worker j \<Rightarrow>
      (sv_conns v)\<lparr>cn_sockets := erase_key j (cn_sockets (sv_conns v))\<rparr> | _ \<Rightarrow> sv_conns v)"
    and "tasks (sv_sched u) = tasks (sv_sched v)"
  using assms by (cases e; auto simp: disconnect_worker_eq on_worker_data_def on_diagnostic_data_def
      Let_def case_prod_beta)+

lemma perform_conn_ok:
  assumes "conn_ok (sv_conns v)" and "perform env e v = Some u"
  shows "conn_ok (sv_conns u)"
    and "set (keys (cn_sockets (sv_conns u))) \<subseteq> set (keys (cn_sockets (sv_conns v)))"
proof -
  note step = perform_conns(1) [OF assms]
  show "conn_ok (sv_conns u)" using assms(1) by (cases e) (simp_all add: step erase_socket_ok)
  show "set (keys (cn_sockets (sv_conns u))) \<subseteq> set (keys (cn_sockets (sv_conns v)))"
    by (cases e) (auto simp: step)
qed

lemma perform_all_keys:
  "conn_ok (sv_conns v) \<Longrightarrow> perform_all env es v = Some u \<Longrightarrow>
    set (keys (cn_sockets (sv_conns u))) \<subseteq> set (keys (cn_sockets (sv_conns v)))"
proof (induction es arbitrary: v)
  case (Cons e es)
  then obtain w where w: "perform env e v = Some w" "perform_all env es w = Some u"
    by (auto simp: bind_eq_Some_conv)
  from Cons.IH [OF perform_conn_ok(1) [OF Cons.prems(1) w(1)] w(2)] perform_conn_ok(2) [OF Cons.prems(1) w(1)]
  show ?case by (rule subset_trans)
qed simp

abbreviation packets_of :: "(nat \<Rightarrow> byte) \<Rightarrow> room_operation list \<Rightarrow> bytes list \<Rightarrow> bool" where
  "packets_of mem \<equiv> list_all2 (\<lambda>op p. generate_operation 4 mem op = Some p)"

lemma perform_sends:
  assumes "conn_ok (sv_conns v)" and "own_socket i sock (sv_conns v)" and "sv_ulong env = 4"
    and "perform env e v = Some u"
  shows "\<exists>xs. sv_actions u = sv_actions v @ xs \<and> packets_of (sv_memory env) (operations_for i [e]) (sent_to sock xs)"
proof -
  note sent = sent_to_worker [OF assms(1,2)]
  have send: "\<exists>xs. sv_actions u = sv_actions v @ xs \<and> packets_of (sv_memory env) (operations_for i [e]) (sent_to sock xs)"
    if "u = v\<lparr>sv_actions := sv_actions v @ send_message j p (sv_conns v)\<rparr>"
      "operations_for i [e] = (if j = i then [op] else [])" "generate_operation 4 (sv_memory env) op = Some p" for j p op
    using that sent [of j p] by (intro exI [of _ "send_message j p (sv_conns v)"]) simp
  have quiet: "\<exists>xs. sv_actions u = sv_actions v @ xs \<and> packets_of (sv_memory env) (operations_for i [e]) (sent_to sock xs)"
    if "sv_actions u = sv_actions v" "operations_for i [e] = []"
    using that by (intro exI [of _ "[]"]) simp
  show ?thesis
  proof (cases e)
    case (Send_assign j r)
    with assms(3,4) obtain p where "generate_assign_packet 4 (sv_memory env) r = Some p"
      "u = v\<lparr>sv_actions := sv_actions v @ send_message j p (sv_conns v)\<rparr>" by auto
    then show ?thesis by (intro send [of j p "Open_connection r"]) (simp_all add: Send_assign generate_operation_def)
  next
    case (Send_unassign j r)
    with assms(3,4) obtain p where "generate_unassign_packet 4 (sv_memory env) r = Some p"
      "u = v\<lparr>sv_actions := sv_actions v @ send_message j p (sv_conns v)\<rparr>" by auto
    then show ?thesis by (intro send [of j p "Close_connection r"]) (simp_all add: Send_unassign generate_operation_def)
  next
    case (Disconnect_worker j)
    with assms(1,4) show ?thesis by (intro quiet) (auto simp: disconnect_worker_eq)
  qed (use assms(4) in \<open>auto intro!: quiet simp: on_worker_data_def on_diagnostic_data_def Let_def case_prod_beta\<close>)
qed

lemma perform_all_sends:
  assumes "conn_ok (sv_conns v)" and "own_socket i sock (sv_conns v)" and "sv_ulong env = 4"
    and "perform_all env es v = Some u" and "own_socket i sock (sv_conns u)"
  shows "Disconnect_worker i \<notin> set es \<and> tasks (sv_sched u) = tasks (sv_sched v)
    \<and> (\<exists>xs. sv_actions u = sv_actions v @ xs \<and> packets_of (sv_memory env) (operations_for i es) (sent_to sock xs))"
  using assms
proof (induction es arbitrary: v)
  case (Cons e es)
  from Cons.prems(4) obtain w where w: "perform env e v = Some w" "perform_all env es w = Some u"
    by (auto simp: bind_eq_Some_conv)
  note ok = perform_conn_ok(1) [OF Cons.prems(1) w(1)] and step = perform_conns [OF Cons.prems(1) w(1)]
  have "i \<in> set (keys (cn_sockets (sv_conns w)))"
    by (rule subsetD [OF perform_all_keys [OF ok w(2)] own_socket_key [OF Cons.prems(5)]])
  then have not: "e \<noteq> Disconnect_worker i" using step(1) by auto
  then have own: "own_socket i sock (sv_conns w)"
    using step(1) Cons.prems(2) own_socket_erase by (cases e) auto
  obtain xs where xs: "sv_actions w = sv_actions v @ xs"
      "packets_of (sv_memory env) (operations_for i [e]) (sent_to sock xs)"
    using perform_sends [OF Cons.prems(1-3) w(1)] by blast
  from Cons.IH [OF ok own Cons.prems(3) w(2) Cons.prems(5)] obtain ys where
      rest: "Disconnect_worker i \<notin> set es" "tasks (sv_sched u) = tasks (sv_sched w)"
      and ys: "sv_actions u = sv_actions w @ ys" "packets_of (sv_memory env) (operations_for i es) (sent_to sock ys)"
    by blast
  have "operations_for i (e # es) = operations_for i [e] @ operations_for i es"
    using operations_for_append [of i "[e]" es] by simp
  with xs ys have "packets_of (sv_memory env) (operations_for i (e # es)) (sent_to sock (xs @ ys))"
    by (simp add: list_all2_appendI)
  with rest not step(2) xs(1) ys(1) show ?case by auto
qed simp

text \<open>\<open>served\<close>: the packets written to the socket are those of operations that turn the rooms the worker
  has in \<open>v\<close> into those it has in \<open>u\<close>.\<close>

definition served :: "(nat \<Rightarrow> byte) \<Rightarrow> identifier_t \<Rightarrow> nat \<Rightarrow> supervisor \<Rightarrow> supervisor \<Rightarrow> bool" where
  "served mem i sock v u \<longleftrightarrow> (\<exists>xs ops. sv_actions u = sv_actions v @ xs \<and> packets_of mem ops (sent_to sock xs)
     \<and> rooms_of i (sv_sched u) = fold apply_operation ops (rooms_of i (sv_sched v))
     \<and> fresh_opens ops (rooms_of i (sv_sched v)))"

lemma served_trans:
  assumes "served mem i sock v u" and "served mem i sock u w"
  shows "served mem i sock v w"
proof -
  obtain xs ops ys ops' where
    "sv_actions u = sv_actions v @ xs" "packets_of mem ops (sent_to sock xs)"
    "rooms_of i (sv_sched u) = fold apply_operation ops (rooms_of i (sv_sched v))"
    "fresh_opens ops (rooms_of i (sv_sched v))"
    "sv_actions w = sv_actions u @ ys" "packets_of mem ops' (sent_to sock ys)"
    "rooms_of i (sv_sched w) = fold apply_operation ops' (rooms_of i (sv_sched u))"
    "fresh_opens ops' (rooms_of i (sv_sched u))"
    using assms unfolding served_def by blast
  then show ?thesis unfolding served_def
    by (intro exI [of _ "xs @ ys"] exI [of _ "ops @ ops'"]) (simp add: list_all2_appendI)
qed

lemma served_silent:
  "sv_actions u = sv_actions v @ xs \<Longrightarrow> sent_to sock xs = [] \<Longrightarrow> rooms_of i (sv_sched u) = rooms_of i (sv_sched v)
    \<Longrightarrow> served mem i sock v u"
  unfolding served_def by (intro exI [of _ xs] exI [of _ "[]"]) simp

lemma sched_call_served:
  assumes "containers_ok (sv_sched_env env)" and "sv_ulong env = 4" and "supervisor_inv v"
    and "sched_call env ev v = Some u" and "quiet_for i ev (sv_sched v)"
    and "own_socket i sock (sv_conns v)" and "own_socket i sock (sv_conns u)"
  shows "served (sv_memory env) i sock v u"
proof -
  obtain s where s: "handle_event (sv_sched_env env) ev (sv_sched v) = Some s"
    and all: "perform_all env (drop (length (outputs (sv_sched v))) (outputs s)) (v\<lparr>sv_sched := s\<rparr>) = Some u"
    using assms(4) by (auto simp: sched_call_def split: option.splits)
  have inv: "sched_inv (sv_sched v)" "conn_ok (sv_conns (v\<lparr>sv_sched := s\<rparr>))"
    using assms(3) by (simp_all add: supervisor_inv_def)
  from informs_event [OF assms(1) inv(1) s assms(5)] obtain new where new: "outputs s = outputs (sv_sched v) @ new"
      "Disconnect_worker i \<notin> set new \<Longrightarrow> rooms_of i s = fold apply_operation (operations_for i new) (rooms_of i (sv_sched v))
        \<and> fresh_opens (operations_for i new) (rooms_of i (sv_sched v))"
    unfolding informs_def by blast
  with all have all: "perform_all env new (v\<lparr>sv_sched := s\<rparr>) = Some u" by simp
  have "own_socket i sock (sv_conns (v\<lparr>sv_sched := s\<rparr>))" using assms(6) by simp
  from perform_all_sends [OF inv(2) this assms(2) all assms(7)]
  obtain xs where "Disconnect_worker i \<notin> set new" "tasks (sv_sched u) = tasks s"
      "sv_actions u = sv_actions v @ xs" "packets_of (sv_memory env) (operations_for i new) (sent_to sock xs)" by auto
  with new(2) show ?thesis unfolding served_def
    by (intro exI [of _ xs] exI [of _ "operations_for i new"]) (simp add: rooms_of_def)
qed

text \<open>The events of the process that are quiet for a worker. Messages and disconnections are requested
  by the scheduler only.\<close>

fun quiet_event :: "identifier_t \<Rightarrow> supervisor_event \<Rightarrow> supervisor \<Rightarrow> bool" where
  "quiet_event i (Network (Session_message k msg)) v \<longleftrightarrow>
     quiet_for i (Worker_buffer (se_identifier (cn_objects (sv_conns v) ! k)) msg) (sv_sched v)"
| "quiet_event i (Network (Send_request j msg)) v \<longleftrightarrow> False"
| "quiet_event i (Network (Disconnect_request j notify)) v \<longleftrightarrow> False"
| "quiet_event i ev v \<longleftrightarrow> True"

lemma served_write:
  "served mem i sock v u \<Longrightarrow> sent_to sock [a] = [] \<Longrightarrow> served mem i sock v (u\<lparr>sv_actions := sv_actions u @ [a]\<rparr>)"
  by (rule served_trans, assumption, rule served_silent [of _ _ "[a]"]) simp_all

lemma callbacks_end [simp]: "Option.bind x (callbacks env []) = x"
  by (cases x) simp_all

lemma accepted_served:
  assumes "on_accept cfg rand err c0 = Some (c, xs)" and "callbacks env xs (v\<lparr>sv_conns := c\<rparr>) = Some u"
    and "i \<in> set (keys (cn_sockets c0))"
  shows "served mem i sock v u"
proof (cases "\<exists>n j. xs = [conn_action.Start_read n, New_worker_handler j, Start_accept]")
  case True
  then obtain n j where xs: "xs = [conn_action.Start_read n, New_worker_handler j, Start_accept]" by blast
  with assms(1) obtain m where "draw_identifier rand (cn_sockets c0) (cn_draws c0) = Some (j, m)"
    by (auto simp: on_accept_def start_accept_def Let_def split: accept_result.splits option.splits if_splits)
  from draw_identifier_fresh [OF this] assms(3) have "j \<noteq> i" by auto
  moreover have "u = v\<lparr>sv_conns := c, sv_actions := sv_actions v @ [conn_action.Start_read n, Start_accept],
      sv_sched := handle_new_worker (sv_sched_env env) j (sv_sched v)\<rparr>"
    using assms(2) by (auto simp: xs sched_call_def new_worker_silent)
  ultimately show ?thesis
    by (intro served_silent [of _ _ "[conn_action.Start_read n, Start_accept]"]) (simp_all add: new_worker_silent)
next
  case False
  with assms(1) have "xs = [] \<or> xs = [Start_accept] \<or> (\<exists>n. xs = [conn_action.Close_socket n])"
    by (auto simp: on_accept_def start_accept_def Let_def split: accept_result.splits option.splits if_splits)
  with assms(2) have "u = v\<lparr>sv_conns := c, sv_actions := sv_actions v @ xs\<rparr> \<and> sent_to sock xs = []" by auto
  then show ?thesis by (intro served_silent [of _ _ xs]) simp_all
qed

lemma supervisor_step_served:
  assumes ok: "containers_ok (sv_sched_env env)" "sv_ulong env = 4" "supervisor_inv v"
    and step: "supervisor_step env ev v = Some u" and quiet: "quiet_event i ev v"
    and own: "own_socket i sock (sv_conns v)" "own_socket i sock (sv_conns u)"
  shows "served (sv_memory env) i sock v u"
proof (cases ev)
  case (Network e)
  then obtain c xs where conn: "conn_step (sv_conn_config env) (sv_rand env) e (sv_conns v) = Some (c, xs)"
    and cb: "callbacks env xs (v\<lparr>sv_conns := c\<rparr>) = Some u"
    using step by (auto split: option.splits)
  show ?thesis
  proof (cases e)
    case (Session_message k msg)
    with conn quiet cb sched_call_served [OF ok _ _ own] show ?thesis
      by (auto simp: Network split: if_splits intro: served_silent [of _ _ "[]"])
  next
    case (Timer ec)
    show ?thesis
    proof (cases "ec = Timer_aborted")
      case True
      with Timer conn cb show ?thesis by (auto simp: on_timer_tick_def intro: served_silent [of _ _ "[]"])
    next
      case False
      then have "xs = [Tick_handler, Arm_timer (cc_min_check_interval_msec (sv_conn_config env))]" "c = sv_conns v"
        using Timer conn by (cases ec; simp add: on_timer_tick_def reschedule_timer_def)+
      with cb obtain w where w: "sched_call env Server_tick v = Some w"
          "u = w\<lparr>sv_actions := sv_actions w @ [Arm_timer (cc_min_check_interval_msec (sv_conn_config env))]\<rparr>"
        by (auto simp: bind_eq_Some_conv)
      with sched_call_served [OF ok w(1) _ own(1)] own(2) have "served (sv_memory env) i sock v w" by simp
      then show ?thesis unfolding w(2) by (rule served_write) simp
    qed
  next
    case (Accepted err)
    show ?thesis
    proof (cases "cn_accepting (sv_conns v)")
      case True
      with Accepted conn have "on_accept (sv_conn_config env) (sv_rand env) err (sv_conns v) = Some (c, xs)" by simp
      from accepted_served [OF this cb own_socket_key [OF own(1)]] show ?thesis .
    qed (use Accepted conn cb in \<open>auto intro: served_silent [of _ _ "[]"]\<close>)
  next
    case (Session_lost k)
    with conn cb session_lost_eq [of "sv_conns v"] ok(3) show ?thesis
      by (auto simp: supervisor_inv_def simp del: conn_step.simps(3) intro: served_silent [of _ _ "[]"])
  qed (use quiet in \<open>auto simp: Network\<close>)
next
  case (Vtuber_list ids)
  with step sched_call_served [OF ok _ _ own, of "Room_list ids"] show ?thesis by simp
next
  case Auth_code_update
  with step sched_call_served [OF ok _ _ own, of Auth_code_changed] show ?thesis by simp
qed

text \<open>A run in which the worker keeps its socket and every event is quiet for it.\<close>

fun undisturbed :: "supervisor_env \<Rightarrow> identifier_t \<Rightarrow> nat \<Rightarrow> supervisor_event list \<Rightarrow> supervisor \<Rightarrow> bool" where
  "undisturbed env i sock [] v \<longleftrightarrow> own_socket i sock (sv_conns v)"
| "undisturbed env i sock (e # es) v \<longleftrightarrow> own_socket i sock (sv_conns v) \<and> quiet_event i e v
     \<and> (case supervisor_step env e v of None \<Rightarrow> True | Some u \<Rightarrow> undisturbed env i sock es u)"

lemma undisturbed_own: "undisturbed env i sock es v \<Longrightarrow> own_socket i sock (sv_conns v)"
  by (cases es) simp_all

lemma run_served:
  assumes "containers_ok (sv_sched_env env)" and "sv_ulong env = 4" and "supervisor_inv v"
    and "run_supervisor env es v = Some u" and "undisturbed env i sock es v"
  shows "served (sv_memory env) i sock v u"
  using assms(3-)
proof (induction es arbitrary: v)
  case Nil
  then show ?case by (auto intro: served_silent [of _ _ "[]"])
next
  case (Cons e es)
  from Cons.prems(2) obtain w where w: "supervisor_step env e v = Some w" "run_supervisor env es w = Some u"
    by (auto simp: bind_eq_Some_conv)
  have quiet: "quiet_event i e v" "own_socket i sock (sv_conns v)" "undisturbed env i sock es w"
    using Cons.prems(3) w(1) by simp_all
  note step = supervisor_step_served [OF assms(1,2) Cons.prems(1) w(1) quiet(1,2) undisturbed_own [OF quiet(3)]]
  from Cons.IH [OF supervisor_step_inv [OF assms(1) Cons.prems(1) w(1)] w(2) quiet(3)]
  show ?case by (rule served_trans [OF step])
qed

section \<open>What the worker makes of it\<close>

definition room_operation_call :: "room_operation \<Rightarrow> 'm room_manager \<Rightarrow> 'm room_manager" where
  "room_operation_call op = (case op of Open_connection r \<Rightarrow> open_connection (sint r)
     | Close_connection r \<Rightarrow> close_connection (sint r))"

definition open_rooms :: "'m room_manager \<Rightarrow> int set" where
  "open_rooms st = set (keys (rm_connections st))"

lemma room_operation_rooms:
  assumes "rm_ok st" and "open_rooms st = sint ` A" and "fresh_opens [op] A"
  shows "rm_ok (room_operation_call op st) \<and> open_rooms (room_operation_call op st) = sint ` apply_operation op A"
proof (cases op)
  case (Open_connection r)
  with assms(2,3) have "sint r \<notin> set (keys (rm_connections st))"
    by (auto simp: open_rooms_def dest: signed_word_eqI)
  from open_connection_keys [OF this] assms(1,2) show ?thesis
    by (simp add: room_operation_call_def Open_connection open_connection_ok open_rooms_def)
next
  case (Close_connection r)
  have "sint ` A - {sint r} = sint ` (A - {r})" by (auto dest: signed_word_eqI)
  with close_connection_keys [OF assms(1), of "sint r"] assms(1,2) show ?thesis
    by (simp add: room_operation_call_def Close_connection close_connection_ok open_rooms_def)
qed

lemma room_operations_rooms:
  assumes "rm_ok st" and "open_rooms st = sint ` A" and "fresh_opens ops A"
  shows "open_rooms (fold room_operation_call ops st) = sint ` fold apply_operation ops A"
  using assms
proof (induction ops arbitrary: st A)
  case (Cons op ops)
  have "fresh_opens [op] A" "fresh_opens ops (apply_operation op A)"
    using fresh_opens_append [of "[op]" ops A] Cons.prems(3) by simp_all
  with room_operation_rooms [OF Cons.prems(1,2)] Cons.IH show ?case by simp
qed simp

section \<open>A session from its first packet\<close>

definition demo_session :: "supervisor_event list" where
  "demo_session = [Network (Session_message 0 demo_payload), Vtuber_list [7], Network (Timer Timer_expired)]"

definition demo_stream :: bytes where
  "demo_stream = [0, 0, 0, 5, 1, 0, 0, 0, 7] @ [0, 0, 0, 5, 1, 0, 0, 0, 9] @ [0, 0, 0, 5, 2, 0, 0, 0, 9]"

definition demo_v6 :: supervisor where
  "demo_v6 = the (run_supervisor demo_supervisor_env [Vtuber_list [7], Network (Timer Timer_expired)] demo_v3)"

lemma demo_session_end:
  "run_supervisor demo_supervisor_env [Vtuber_list [7], Network (Timer Timer_expired)] demo_v3 = Some demo_v6"
  "concat (sent_to 3 (drop 4 (sv_actions demo_v6))) = demo_stream"
  "rooms_of 1 (sv_sched demo_v6) = {7}"
  unfolding demo_v6_def by code_simp+

lemma demo_session_run: "run_supervisor demo_supervisor_env demo_session demo_v2 = Some demo_v6"
  using demo_session_end(1) by (simp add: demo_session_def demo_step3 del: supervisor_step.simps)

lemma demo_session_quiet: "undisturbed demo_supervisor_env 1 3 demo_session demo_v2"
proof -
  have "undisturbed demo_supervisor_env 1 3 [Vtuber_list [7], Network (Timer Timer_expired)] demo_v3"
    by code_simp
  moreover have "own_socket 1 3 (sv_conns demo_v2)" "quiet_event 1 (Network (Session_message 0 demo_payload)) demo_v2"
    by code_simp+
  ultimately show ?thesis by (simp add: demo_session_def demo_step3 del: supervisor_step.simps quiet_event.simps)
qed

lemma demo_v2_reach: "reach supervisor_start supervisor_rel demo_v2"
proof (rule run_supervisor_reach [OF _ demo_supervisor_reach])
  show "containers_ok (sv_sched_env demo_supervisor_env)"
    by (simp add: demo_supervisor_env_def demo_containers)
  show "run_supervisor demo_supervisor_env [Vtuber_list [7, 9], Network (conn_event.Accepted (Accept_ok 3 True))] demo_supervisor = Some demo_v2"
    by (simp only: run_supervisor.simps demo_step1 demo_step2 bind.simps)
qed

end
