(* ===== verification/Reports.thy ===== *)
theory Reports
  imports System
begin

text \<open>
  The way back: what the supervisor does with the reports of a worker's rooms. \<open>published\<close> is its
  specification over a list of reports: those of the worker's own rooms whose checksum is new go to
  the broker. The last section is a worker with a room that reads from a chat server.
\<close>

section \<open>From the reports to the broker\<close>

text \<open>The supervisor's specification: of the reports of a worker that has the rooms \<open>A\<close>, those of its rooms
  are published whose checksum, as the supervisor reads it, was not seen before.\<close>

fun published :: "endian \<Rightarrow> room_id set \<Rightarrow> checksum set \<Rightarrow> borrowed_message room_output list
    \<Rightarrow> (checksum \<times> bytes \<times> bytes) list" where
  "published e A seen [] = []"
| "published e A seen (Failed_room r # xs) = published e A seen xs"
| "published e A seen (Data_of_room r m # xs) =
     (let c = host_view e (bm_crc32 m) in
      if word_of_int r \<notin> A \<or> c \<in> seen then published e A seen xs
      else (c, takeWhile (\<lambda>b. b \<noteq> 0) (bm_routing_key m), bm_body m) # published e A (insert c seen) xs)"

fun checked_data :: "borrowed_message room_output \<Rightarrow> bool" where
  "checked_data (Failed_room r) \<longleftrightarrow> False"
| "checked_data (Data_of_room r m) \<longleftrightarrow> length (bm_routing_key m) = 32 \<and> bm_crc32 m \<noteq> 0"

definition seen_checksums :: "supervisor \<Rightarrow> checksum set" where
  "seen_checksums v = set (map de_value (sv_dedup v))"

lemma data_payload_read:
  assumes "length (bm_routing_key m) = 32"
  shows "payload_op_code (report_payload (Data_of_room r m)) = worker_data_code"
    "payload_room_id (report_payload (Data_of_room r m)) = word_of_int r"
    "payload_crc32 e (report_payload (Data_of_room r m)) = host_view e (bm_crc32 m)"
    "payload_routing_key (report_payload (Data_of_room r m)) = takeWhile (\<lambda>b. b \<noteq> 0) (bm_routing_key m)"
    "payload_data (report_payload (Data_of_room r m)) = bm_body m"
    "length (report_payload (Data_of_room r m)) = 41 + length (bm_body m)"
proof -
  have key: "drop 9 (report_payload (Data_of_room r m)) = bm_routing_key m @ bm_body m" by simp
  show "payload_routing_key (report_payload (Data_of_room r m)) = takeWhile (\<lambda>b. b \<noteq> 0) (bm_routing_key m)"
    unfolding payload_routing_key_def key by (simp only: routing_key_max_size_def take_strnlen [OF assms])
qed (simp_all add: payload_op_code_def payload_room_id_def payload_crc32_def load_host32_put payload_data_def
    proto_lengths wire_simps assms)

lemma find_task_rooms: "find_task i r s = None \<longleftrightarrow> r \<notin> rooms_of i s"
  by (auto simp: find_task_def find_None_iff rooms_of_def)

lemma data_buffer:
  assumes "i \<in> set (keys (workers s))" and "length (bm_routing_key m) = 32" and "bm_crc32 m \<noteq> 0"
  shows "\<exists>t. handle_buffer env i (report_payload (Data_of_room r m)) s = t
    \<and> outputs t = outputs s @ (if word_of_int r \<in> rooms_of i s
        then [Worker_data (host_view (host_endian env) (bm_crc32 m)) (takeWhile (\<lambda>b. b \<noteq> 0) (bm_routing_key m)) (bm_body m)]
        else [])
    \<and> keys (workers t) = keys (workers s) \<and> rooms_of i t = rooms_of i s"
proof -
  let ?p = "report_payload (Data_of_room r m)"
  let ?now = "fst (read_clock env s)"
  define s1 where "s1 = upd_worker i (\<lambda>w. w\<lparr>ws_last_received := ?now\<rparr>) (snd (read_clock env s))"
  obtain w where "map_of (workers s) i = Some w" using keys_map_of [OF assms(1)] by blast
  then have eq: "handle_buffer env i ?p s = handle_worker_data env i ?p ?now s1"
    by (simp add: handle_buffer_def Let_def case_prod_beta s1_def data_payload_read [OF assms(2)] proto_lengths op_codes
        del: report_payload.simps)
  have s1: "outputs s1 = outputs s" "keys (workers s1) = keys (workers s)" "rooms_of i s1 = rooms_of i s"
    by (simp_all add: s1_def rooms_of_def)
  have touched: "rooms_of i (s\<lparr>tasks := map (\<lambda>t. if rt_identifier t = j \<and> rt_room_id t = q
      then t\<lparr>rt_last_received := now\<rparr> else t) (tasks s)\<rparr>) = rooms_of i s" for j q now s
    using rooms_of_touched [of i "(j, q)" now s] by (simp add: touch_task_def [abs_def])
  show ?thesis unfolding eq
    by (rule exI, rule conjI, rule refl)
      (simp add: handle_worker_data_def Let_def data_payload_read [OF assms(2)] proto_lengths find_task_rooms
        s1 assms(3) host_view_zero forward_data_def touched del: report_payload.simps)
qed


lemma forwarded_posted:
  assumes "c \<noteq> 0"
  shows "sv_posted (on_worker_data env c key body v) =
      sv_posted v @ (if c \<in> seen_checksums v then [] else [(c, key, body)])"
    and "seen_checksums (on_worker_data env c key body v) = insert c (seen_checksums v)"
    and "sv_conns (on_worker_data env c key body v) = sv_conns v"
    and "tasks (sv_sched (on_worker_data env c key body v)) = tasks (sv_sched v)"
    and "workers (sv_sched (on_worker_data env c key body v)) = workers (sv_sched v)"
  using assms by (auto simp: on_worker_data_def check_and_add_def seen_checksums_def Let_def case_prod_beta)

text \<open>One report through the supervisor.\<close>

lemma report_step:
  assumes "k < length (cn_objects (sv_conns v))" and "se_identifier (cn_objects (sv_conns v) ! k) = i"
    and "i \<in> set (keys (workers (sv_sched v)))" and "checked_data x"
  shows "\<exists>u. supervisor_step env (Network (Session_message k (report_payload x))) v = Some u
    \<and> sv_conns u = sv_conns v \<and> keys (workers (sv_sched u)) = keys (workers (sv_sched v))
    \<and> rooms_of i (sv_sched u) = rooms_of i (sv_sched v)
    \<and> (\<forall>xs. sv_posted u @ published (host_endian (sv_sched_env env)) (rooms_of i (sv_sched v)) (seen_checksums u) xs
        = sv_posted v @ published (host_endian (sv_sched_env env)) (rooms_of i (sv_sched v)) (seen_checksums v) (x # xs))"
proof -
  obtain r m where x: "x = Data_of_room r m" using assms(4) by (cases x) auto
  with assms(4) have m: "length (bm_routing_key m) = 32" "bm_crc32 m \<noteq> 0" by simp_all
  let ?e = "host_endian (sv_sched_env env)" and ?key = "takeWhile (\<lambda>b. b \<noteq> 0) (bm_routing_key m)"
  let ?c = "host_view ?e (bm_crc32 m)"
  obtain t where t: "handle_buffer (sv_sched_env env) i (report_payload x) (sv_sched v) = t"
      "outputs t = outputs (sv_sched v) @ (if word_of_int r \<in> rooms_of i (sv_sched v) then [Worker_data ?c ?key (bm_body m)] else [])"
      "keys (workers t) = keys (workers (sv_sched v))" "rooms_of i t = rooms_of i (sv_sched v)"
    using data_buffer [OF assms(3) m, of "sv_sched_env env" r] x by blast
  let ?u = "if word_of_int r \<in> rooms_of i (sv_sched v)
    then on_worker_data env ?c ?key (bm_body m) (v\<lparr>sv_sched := t\<rparr>) else v\<lparr>sv_sched := t\<rparr>"
  have step: "supervisor_step env (Network (Session_message k (report_payload x))) v = Some ?u"
    using assms(1,2) t(1,2) by (simp add: sched_call_def)
  have c: "?c \<noteq> 0" using m(2) by (simp add: host_view_zero)
  note posted = forwarded_posted [OF c, of env ?key "bm_body m" "v\<lparr>sv_sched := t\<rparr>"]
  have "rooms_of i (sv_sched ?u) = rooms_of i (sv_sched v)" using t(4) posted(4) by (simp add: rooms_of_def)
  moreover have "seen_checksums (v\<lparr>sv_sched := t\<rparr>) = seen_checksums v" by (simp add: seen_checksums_def)
  ultimately show ?thesis using t(3) posted step
    by (intro exI [of _ ?u]) (auto simp: x Let_def insert_absorb)
qed

lemma reports_run:
  assumes "k < length (cn_objects (sv_conns v))" and "se_identifier (cn_objects (sv_conns v) ! k) = i"
    and "i \<in> set (keys (workers (sv_sched v)))" and "list_all checked_data xs"
  shows "\<exists>u. run_supervisor env (map (\<lambda>x. Network (Session_message k (report_payload x))) xs) v = Some u
    \<and> sv_posted u = sv_posted v @
        published (host_endian (sv_sched_env env)) (rooms_of i (sv_sched v)) (seen_checksums v) xs"
  using assms
proof (induction xs arbitrary: v)
  case (Cons x xs)
  from report_step [OF Cons.prems(1-3), of x env] Cons.prems(4) obtain w where w:
      "supervisor_step env (Network (Session_message k (report_payload x))) v = Some w" "sv_conns w = sv_conns v"
      "keys (workers (sv_sched w)) = keys (workers (sv_sched v))" "rooms_of i (sv_sched w) = rooms_of i (sv_sched v)"
      "sv_posted w @ published (host_endian (sv_sched_env env)) (rooms_of i (sv_sched v)) (seen_checksums w) xs
        = sv_posted v @ published (host_endian (sv_sched_env env)) (rooms_of i (sv_sched v)) (seen_checksums v) (x # xs)"
    by auto
  from Cons.IH [of w] Cons.prems w(2-4) obtain u where
      "run_supervisor env (map (\<lambda>x. Network (Session_message k (report_payload x))) xs) w = Some u"
      "sv_posted u = sv_posted w @ published (host_endian (sv_sched_env env)) (rooms_of i (sv_sched w)) (seen_checksums w) xs"
    by auto
  with w(1,4,5) show ?case by (auto simp del: supervisor_step.simps)
qed simp


lemma checked_full: "checked_data x \<Longrightarrow> full_key x"
  by (cases x) simp_all

section \<open>A room that reports\<close>

definition demo_json_packet :: bytes where
  "demo_json_packet = header_bytes \<lparr>packet_length = 18, header_length = 16, protocol_version = 0,
     op_code = json_message, sequence_id = 0\<rparr> @ [123, 125]"

fun quiet_completions :: "(borrowed_message site_action \<times> ws_event) list \<Rightarrow> borrowed_message room_manager
    \<Rightarrow> borrowed_message room_manager option" where
  "quiet_completions [] st = Some st"
| "quiet_completions ((a, ev) # es) st =
     (if (0, a) \<in> set (rm_pending st) \<and> completes a ev
      then (case complete demo_site demo_opts 0 a ev st of Ran (st', []) \<Rightarrow> quiet_completions es st' | _ \<Rightarrow> None)
      else None)"

lemma quiet_completions_reach:
  assumes "demo_reach wk" and "quiet_completions es (wk_rooms wk) = Some st"
  shows "demo_reach (wk\<lparr>wk_rooms := st\<rparr>)"
  using assms
proof (induction es arbitrary: wk)
  case Nil
  then have "wk\<lparr>wk_rooms := st\<rparr> = wk" by (cases wk) simp
  with Nil.prems(1) show ?case by (simp only:)
next
  case (Cons e es)
  obtain a ev where e: "e = (a, ev)" by (cases e)
  from Cons.prems(2) obtain st' where step: "(0, a) \<in> set (rm_pending (wk_rooms wk))" "completes a ev"
      "complete demo_site demo_opts 0 a ev (wk_rooms wk) = Ran (st', [])" "quiet_completions es st' = Some st"
    by (auto simp: e split: if_splits ran.splits list.splits)
  have "worker_room_event demo_site demo_opts (\<lambda>_. 0) 0 a ev wk = Ran (wk\<lparr>wk_rooms := st'\<rparr>, [])"
    using step(3) by (simp add: worker_room_event_def)
  from Cons.IH [OF reach_step [OF Cons.prems(1) wk_room_step [OF step(1,2) this]]] step(4) show ?case by simp
qed

definition demo_join :: bytes where
  "demo_join = generate_join_room_packet 7 2 [116]"

definition demo_completions :: "(borrowed_message site_action \<times> ws_event) list" where
  "demo_completions =
     [(Fetch_config, Config_fetched \<lparr>lc_host = [104], lc_port = 443, lc_token = [116], lc_user_agent = [97]\<rparr>),
      (Resolve [104] (decimal_int 443), Resolved Io_ok), (Connect_socket, Connected Io_ok), (Ssl_handshake, Ssl_done Io_ok),
      (Ws_handshake (ascii '':'' @ decimal_int 443) [], Handshake_done Io_ok)]"

definition demo_reading :: "borrowed_message room_manager" where
  "demo_reading = \<lparr>rm_connections = [(7, 0)],
     rm_objects = [(0, \<lparr>ws_room = 7, ws_token = [116], ws_user_agent = Some [97], ws_closed = False\<rparr>)],
     rm_pending = [(0, Start_read 0 0), (0, Send_packet demo_join)], rm_next = 1\<rparr>"

lemma demo_completed:
  "quiet_completions demo_completions (wk_rooms (run_operation (Open_connection 7) Worker_Props.demo_connected)) = Some demo_reading"
  unfolding new_room_opened by code_simp

lemma demo_reports:
  "complete demo_site demo_opts 0 (Start_read 0 0) (Ws_message Io_ok demo_json_packet) demo_reading =
     Ran (demo_reading\<lparr>rm_pending := [(0, Send_packet demo_join), (0, Start_read 0 0)]\<rparr>, [Data_of_room 7 sample_message])"
  by code_simp

definition demo_report_stream :: bytes where
  "demo_report_stream = simple_frame (report_payload (Data_of_room 7 sample_message))"

lemma demo_v3_reach: "reach supervisor_start supervisor_rel demo_v3"
proof (rule run_supervisor_reach [OF _ demo_v2_reach])
  show "containers_ok (sv_sched_env demo_supervisor_env)"
    by (simp add: demo_supervisor_env_def demo_containers)
  show "run_supervisor demo_supervisor_env [Network (Session_message 0 demo_payload)] demo_v2 = Some demo_v3"
    by (simp only: run_supervisor.simps demo_step3 bind.simps)
qed

lemma demo_reporting:
  "\<exists>wk wk' out b. demo_reach wk \<and> link_socket (wk_link wk) = Some 0 \<and> wk_rooms wk = demo_reading
     \<and> worker_room_event demo_site demo_opts (\<lambda>_. 0) 0 (Start_read 0 0) (Ws_message Io_ok demo_json_packet) wk = Ran (wk', out)
     \<and> wq_posted (link_writes (wk_link wk')) = wq_posted (link_writes (wk_link wk)) @ [(0, b, demo_report_stream)]"
proof -
  obtain w where w: "demo_reach w" "link_socket (wk_link w) = Some 0"
      "wk_rooms w = wk_rooms (run_operation (Open_connection 7) Worker_Props.demo_connected)"
    using demo_assigned by blast
  let ?wk = "w\<lparr>wk_rooms := demo_reading\<rparr>"
  have reach: "demo_reach ?wk" by (rule quiet_completions_reach [OF w(1), of demo_completions]) (simp only: w(3) demo_completed)
  have full: "list_all full_key [Data_of_room 7 sample_message]" by code_simp
  have socket: "link_socket (wk_link ?wk) = Some 0" using w(2) by simp
  have "\<exists>st. complete demo_site demo_opts 0 (Start_read 0 0) (Ws_message Io_ok demo_json_packet) (wk_rooms ?wk)
      = Ran (st, [Data_of_room 7 sample_message])" using demo_reports by simp
  then obtain st where "complete demo_site demo_opts 0 (Start_read 0 0) (Ws_message Io_ok demo_json_packet) (wk_rooms ?wk)
      = Ran (st, [Data_of_room 7 sample_message])" by blast
  from worker_reports [OF reach socket this full] obtain wk' where wk':
      "worker_room_event demo_site demo_opts (\<lambda>_. 0) 0 (Start_read 0 0) (Ws_message Io_ok demo_json_packet) ?wk =
        Ran (wk', map (\<lambda>b. Link_write (Buffer_posted b)) (report_buffers (wk_next_buffer ?wk) [Data_of_room 7 sample_message]))"
      "wq_posted (link_writes (wk_link wk')) = wq_posted (link_writes (wk_link ?wk))
        @ map (Pair 0) (report_buffers (wk_next_buffer ?wk) [Data_of_room 7 sample_message])" by blast
  have "map (Pair (0 :: nat)) (report_buffers (wk_next_buffer ?wk) [Data_of_room 7 sample_message])
      = [(0, wk_next_buffer ?wk, demo_report_stream)]"
    by (simp add: report_buffers_def demo_report_stream_def)
  with wk'(2) have "wq_posted (link_writes (wk_link wk')) = wq_posted (link_writes (wk_link ?wk))
      @ [(0, wk_next_buffer ?wk, demo_report_stream)]" by (simp only:)
  moreover have "wk_rooms ?wk = demo_reading" by simp
  ultimately show ?thesis using reach socket wk'(1) by blast
qed

end
