(* ===== verification/Spec2Isabelle.thy ===== *)
theory Spec2Isabelle
  imports Simple_Proto_Props Proto_Packets_Props Sched_Props Supervisor_Props Bili_Props Bili_Json_Props
    Rooms_Props Worker_Props Amqp_Props Startup_Props Close_Race Http_Props Reports
begin

text \<open>
  Verification of the vNerve Bilibili live receptor (C++, \<^verbatim>\<open>src/src\<close>).

  The program is two processes. One supervisor keeps the list of rooms of a live-streaming site,
  distributes the rooms over the workers that are connected to it, drops the duplicates among
  the messages they forward and publishes the rest on a message broker. A worker holds one connection
  to a chat server of the site for every room it was assigned, translates the site's packets to
  messages and sends these to the supervisor. The two talk in packets with a 4-byte length over TCP.

  \<^bold>\<open>Reading the model.\<close> A class is a \<open>record\<close> of its fields, a method or completion handler a function
  on that record which returns the new record and what it asks of others (the outputs, in
  order). What asio, a library or the other process does later is an event; an operation in progress is part
  of the state where its handler keeps objects alive. A thread runs one handler at a time, so a
  process is a step relation over events. \<open>None\<close>, or \<open>Crashed\<close> and \<open>Spins\<close> of the type \<open>ran\<close>, are
  what the program cannot survive: a store outside its buffer, a null pointer, an uncaught
  exception, a loop that does not end. Hash maps are association lists in the order their
  iterator visits them.

  \<^bold>\<open>The theories\<close>, bottom up.

  \<^item> \<open>Prelude\<close>: bytes, 32- and 64-bit wrap-around, association lists (\<open>modify\<close>, \<open>erase_key\<close>), the
    transition systems (\<open>reach\<close>, locale \<open>invariant_system\<close>) and the collections of hints.
  \<^item> \<open>Wire\<close>, \<open>Text_Format\<close>, \<open>Framing\<close>: network and host order, stores into buffers, C strings, the decimal
    conversions; the contracts \<open>codec\<close> and \<open>framing\<close>, the latter the specification of both
    stream readers.
  \<^item> \<open>Simple_Proto\<close>, \<open>Proto_Packets\<close> (shared/simple_worker_proto, shared/simple_worker_proto_handler,
    the two simple_worker_proto_generator): the reader of length-prefixed messages, the packets and
    their readers. \<open>Simple_Proto_Props\<close>, \<open>Proto_Packets_Props\<close>: reassembly of any chunks, round trips
    between generator and reader, the stores past the end.
  \<^item> \<open>Write_Helper\<close> (shared/asio_socket_write_helper): the write queue with the lambdas posted and the
    writes in flight; order, single ownership of buffers.
  \<^item> \<open>Sched_Types\<close>, \<open>Sched_Ops\<close>, \<open>Sched_Check\<close>, \<open>Sched_Events\<close> (supervisor/worker_scheduler): the tasks,
    rooms and workers, every operation, the scheduling pass, the entry points. \<open>Sched_Inv\<close>,
    \<open>Sched_Pass\<close>, \<open>Sched_Contract\<close>, \<open>Sched_Sync\<close>, \<open>Sched_Limits\<close>, \<open>Sched_Rooms\<close>: the invariant; the
    contract of a pass's phases (locales \<open>unassigning\<close> to \<open>scheduling\<close>) with its interpretations:
    invariants, exact counters, agreement of tasks and messages, bounds of a pass; and the scheduler as one
    worker sees it. \<open>Sched_Props\<close>: its properties.
  \<^item> \<open>Conn_Manager\<close>, \<open>Dedup\<close>, \<open>Supervisor\<close> (supervisor/worker_connection_manager, deduplicate_context,
    global_context): the sessions, the checksum record, and the process they make with the
    scheduler. \<open>Supervisor_Props\<close>: its properties.
  \<^item> \<open>Amqp_Client\<close> (supervisor/amqp_client), \<open>Http_Updater\<close> (shared/http_interval_updater with its two
    clients), \<open>Config_Options\<close> (the options of both programs), \<open>Command_Handler\<close> (the console), \<open>Startup\<close>
    (shared/config.cpp and \<open>main\<close> of both programs), each with its properties.
  \<^item> \<open>Bili_Packet\<close>, \<open>Bili_Stream\<close>, \<open>Bili_Conn_Tcp\<close>, \<open>Bili_Conn_Ws\<close> (worker/bili_packet, bili_conn_plain_tcp,
    bili_conn_ws): the site's packets and the two kinds of connection; the locale
    \<open>frame_handler\<close> relates the buffer loop to the packets handled one by one. \<open>Bili_Props\<close>.
  \<^item> \<open>Bili_Json\<close>, \<open>Bili_Commands\<close>, \<open>Bili_Serialize\<close>, \<open>Bili_Fresh\<close> (worker/bili_json): the translation of the
    site's documents; every command handler, the reused message object. \<open>Bili_Json_Props\<close>.
  \<^item> \<open>Live_Config\<close>, \<open>Bili_Manager\<close> (worker/bilibili_live_config, bilibili_connection_manager): the fetch of
    a chat server, whose handlers give the operations and callbacks they make in any number, and the shared,
    counted life of the connections; a fetch that calls nobody back is the step \<open>drop_fetch\<close>.
    \<open>Rooms_Props\<close>; \<open>Close_Race\<close>: the closing of all rooms interleaved with the other threads, where a call
    under the mutex is one step.
  \<^item> \<open>Sv_Connection\<close>, \<open>Worker\<close> (worker/supervisor_connection, supervisor_session, global_context): the link to
    the supervisor and the process of the worker. \<open>Worker_Props\<close>.
  \<^item> \<open>System\<close>, \<open>Reports\<close>: both processes, in either direction; the two properties over both of them
    are below.

  \<^bold>\<open>What is assumed.\<close> Not under src/, and so arguments of the definitions, are: the AMQP library, zlib, the
    JSON and URI parsers, the CRC, the HTTP library and the option parser (of whose \<open>store\<close> the documented rule is
    the hypothesis \<open>options_documented\<close>), the grammar's parser library, the iteration order of the hash maps (any order in which an insertion adds an entry and keeps the rest:
    locale \<open>placing\<close>), the clock (any sequence of readings) and the random generator. In the
    link (\<open>Sv_Connection\<close>) the posted lambdas and aborted handlers of a socket run before a
    connect started later completes (\<open>settled\<close>): asio runs ready handlers in the order
    they became ready. An \<open>unsigned long\<close> has 4 or 8 bytes and is a parameter; write queues stay below
    \<open>2^31\<close> buffers.

  \<^bold>\<open>Loops.\<close> Recursion is structural or has a measure. Three loops of the program need not end and are
    partial functions with \<open>None\<close> for not returning: the packet loop (\<open>packet_loop\<close>; it returns when
    every length covers a header), the drawing of identifiers (\<open>draw_identifier\<close>; it returns when some
    later draw is free), and closing all rooms (\<open>close_all_connections\<close>; it returns in every reachable
    state). The loops of \<open>main\<close> have no end; they are given by their state after \<open>n\<close> iterations, for all
    \<open>n\<close>. No fuel is used.

  \<^bold>\<open>Not modelled.\<close> The profiler (its macros are commented out), the crash dumps, log sink and main-program
    branches of Windows, the hash functors and typedefs of robin_hood_ext.h and type.h, logging, the
    meaning of the console's grammar (an expression of the parser library, whose combinators give it
    its meaning, down to which parts of a quoted string reach the command), and the bytes protobuf writes for a message or the diagnostics (generated
    code; a message is the list of its setter calls). A packet a session of the supervisor sends is written to its
    socket in order; the queue in between is \<open>Write_Helper\<close>, not composed with it again. The threads of a worker run one
    handler at a time, except in \<open>Close_Race\<close>; other data races are outside the model, as are destructors at
    the end of a process. The vendored headers are third-party code.
\<close>

section \<open>From the supervisor's tasks to the worker's rooms\<close>

text \<open>C1 Rooms follow tasks. Let a connected worker's open rooms be the rooms of its tasks, both programs
  in states they can reach and the widths those of a 32-bit \<open>unsigned long\<close>. Whatever the supervisor
  then does - accepting workers, their messages, room lists, timer ticks with whole scheduling passes -
  while the worker keeps its socket, reports no failed room and announces itself only while it has no task,
  the bytes written to its socket, received in whatever chunks that fit the reader, leave the worker
  with exactly the rooms of its tasks open.\<close>

theorem rooms_follow_tasks:
  assumes "reach supervisor_start supervisor_rel v" and "containers_ok (sv_sched_env env)" and "sv_ulong env = 4"
    and "run_supervisor env evs v = Some v'" and "undisturbed env i sock evs v"
    and "reach (\<lambda>wk. wk = new_worker buf t) (wk_step penv wopts mem opts) wk"
    and "link_socket (wk_link wk) = Some s"
    and "handler_ok (link_proto (wk_link wk))" and "buffered (link_proto (wk_link wk)) = []"
    and "9 \<le> read_buffer_size (link_proto (wk_link wk))" and "read_buffer_size (link_proto (wk_link wk)) < 2 ^ 32"
    and "concat cs = concat (sent_to sock (drop (length (sv_actions v)) (sv_actions v')))"
    and "chunks_fit (link_proto (wk_link wk)) cs"
    and "open_rooms (wk_rooms wk) = sint ` rooms_of i (sv_sched v)"
  shows "\<exists>wk'. worker_link_events mem opts (map (\<lambda>c. Read_completes s (Received c)) cs) wk = Ran wk'
    \<and> open_rooms (wk_rooms wk') = sint ` rooms_of i (sv_sched v')"
proof -
  from run_served [OF assms(2,3) supervisor.inv_reach [OF assms(1)] assms(4,5)]
  obtain xs ops where sv: "sv_actions v' = sv_actions v @ xs" "packets_of (sv_memory env) ops (sent_to sock xs)"
      "rooms_of i (sv_sched v') = fold apply_operation ops (rooms_of i (sv_sched v))"
      "fresh_opens ops (rooms_of i (sv_sched v))"
    unfolding served_def by blast
  with assms(12) have "concat cs = concat (sent_to sock xs)" by simp
  from worker_executes [OF assms(6-11) sv(2) this assms(13)] obtain wk' where wk':
      "worker_link_events mem opts (map (\<lambda>c. Read_completes s (Received c)) cs) wk = Ran wk'"
      "wk_rooms wk' = fold room_operation_call ops (wk_rooms wk)"
    unfolding room_operation_call_def by blast
  have "wk_ok wk" by (rule process.inv_reach [OF assms(6)])
  then have "rm_ok (wk_rooms wk)" by (simp add: wk_ok_def)
  from room_operations_rooms [OF this assms(14) sv(4)] wk' sv(3) show ?thesis by auto
qed



theorem rooms_follow_tasks_witness:
  "\<exists>wk'. worker_link_events (\<lambda>_. 0) demo_options (map (\<lambda>c. Read_completes 0 (Received c))
      [take 14 demo_stream, take 6 (drop 14 demo_stream), drop 20 demo_stream]) Worker_Props.demo_connected = Ran wk'
    \<and> open_rooms (wk_rooms wk') = sint ` {7 :: room_id}"
proof -
  let ?wk = Worker_Props.demo_connected and ?cs = "[take 14 demo_stream, take 6 (drop 14 demo_stream), drop 20 demo_stream]"
  let ?h = "(new_proto_handler (replicate 16 0) None)\<lparr>ph_socket := Some 0\<rparr>"
  have fits: "chunks_fit ?h ?cs" by code_simp
  have ok: "handler_ok ?h" by (simp add: handler_ok_def new_proto_handler_def buffered_def parse_stuck)
  have empty: "buffered ?h = []" by (simp add: buffered_def new_proto_handler_def)
  have size: "read_buffer_size ?h = 16" by (simp add: new_proto_handler_def)
  have sent: "concat ?cs = concat (sent_to 3 (drop (length (sv_actions demo_v2)) (sv_actions demo_v6)))"
  proof -
    have "concat ?cs = demo_stream" "length (sv_actions demo_v2) = 4" by code_simp+
    then show ?thesis by (simp only: demo_session_end(2))
  qed
  have env: "containers_ok (sv_sched_env demo_supervisor_env)" "sv_ulong demo_supervisor_env = 4"
    by (simp_all add: demo_supervisor_env_def demo_containers)
  have "open_rooms (wk_rooms ?wk) = sint ` rooms_of 1 (sv_sched demo_v2)"
    by (simp add: open_rooms_def new_room_manager_def rooms_of_def demo_v2_def
        Sched_Props.demo_connected_def empty_sched_def)
  from rooms_follow_tasks [OF demo_v2_reach env demo_session_run demo_session_quiet demo_connected_reach demo_socket
      _ _ _ _ sent _ this] fits
  show ?thesis by (simp only: demo_proto ok empty size demo_session_end(3)) simp
qed
section \<open>From the worker's rooms to the broker\<close>

text \<open>C2 From a room to the broker. When an operation of a room completes in a connected worker and reports
  messages with checksums, the packets that go to the write queue, received by the
  supervisor in whatever chunks that fit its reader, make it publish exactly these messages, in order
  and with their text of routing key and body, less those of rooms that are not the worker's and those whose
  checksum it has seen before.\<close>

theorem reports_reach_broker:
  assumes "reach (\<lambda>wk. wk = new_worker buf t) (wk_step penv wopts mem opts) wk"
    and "link_socket (wk_link wk) = Some s"
    and "complete penv wopts j a ev (wk_rooms wk) = Ran (st, reports)" and "list_all checked_data reports"
    and "worker_room_event penv wopts mem j a ev wk = Ran (wk', out)"
    and "reach supervisor_start supervisor_rel v"
    and "map_of (cn_sockets (sv_conns v)) i = Some k" and "i \<in> set (keys (workers (sv_sched v)))"
    and "handler_ok h" and "buffered h = []" and "read_buffer_size h < 2 ^ 32"
    and "list_all (\<lambda>x. length (report_payload x) + 4 \<le> read_buffer_size h) reports"
    and "concat cs = concat (map (snd \<circ> snd) (drop (length (wq_posted (link_writes (wk_link wk))))
      (wq_posted (link_writes (wk_link wk')))))"
    and "chunks_fit h cs"
  shows "\<exists>h' msgs v'. receive_all h cs = (h', map Message msgs)
    \<and> run_supervisor env (map (\<lambda>m. Network (Session_message k m)) msgs) v = Some v'
    \<and> sv_posted v' = sv_posted v @
        published (host_endian (sv_sched_env env)) (rooms_of i (sv_sched v)) (seen_checksums v) reports"
proof -
  have full: "list_all full_key reports"
    using assms(4) by (auto simp: list_all_iff intro: checked_full)
  let ?bufs = "report_buffers (wk_next_buffer wk) reports"
  from worker_reports [OF assms(1-3) full] assms(5) have
      "wq_posted (link_writes (wk_link wk')) = wq_posted (link_writes (wk_link wk)) @ map (Pair s) ?bufs"
      "map snd ?bufs = map (simple_frame \<circ> report_payload) reports" by auto
  then have stream: "concat cs = concat (map simple_frame (map report_payload reports))"
    using assms(13) by (simp add: comp_def)
  have "length p + 4 \<le> read_buffer_size h" if "p \<in> set (map report_payload reports)" for p
    using assms(12) that by (auto simp: list_all_iff)
  note parse = concat_frames_parse [of "map report_payload reports", OF this assms(11)]
  obtain h' ms where run: "receive_all h cs = (h', ms)" by fastforce
  have ms: "ms = map Message (map report_payload reports)"
    using receive_all_parse [OF assms(9,14) _ run] parse by (simp add: assms(10) stream comp_def)
  have "conn_ok (sv_conns v)" using supervisor.inv_reach [OF assms(6)] by (simp add: supervisor_inv_def)
  from conn_ok_lookup [OF this assms(7)] have k: "k < length (cn_objects (sv_conns v))"
      "se_identifier (cn_objects (sv_conns v) ! k) = i" by simp_all
  from reports_run [OF k assms(8,4), of env] obtain u where
      "run_supervisor env (map (\<lambda>m. Network (Session_message k m)) (map report_payload reports)) v = Some u"
      "sv_posted u = sv_posted v @
        published (host_endian (sv_sched_env env)) (rooms_of i (sv_sched v)) (seen_checksums v) reports"
    by (auto simp: comp_def)
  with run ms show ?thesis by blast
qed

theorem reports_reach_broker_witness:
  "\<exists>v'. run_supervisor demo_supervisor_env
      [Network (Session_message 0 (report_payload (Data_of_room 7 sample_message)))] demo_v3 = Some v'
    \<and> sv_posted v' = [(0x02010000, [98, 108, 118], [1, 2])]"
proof -
  let ?h = "new_proto_handler (replicate 64 0) (Some 3)" and ?x = "Data_of_room 7 sample_message"
  let ?cs = "[take 20 demo_report_stream, drop 20 demo_report_stream]"
  obtain wk wk' out b where wk: "demo_reach wk" "link_socket (wk_link wk) = Some 0" "wk_rooms wk = demo_reading"
      "worker_room_event demo_site demo_opts (\<lambda>_. 0) 0 (site_action.Start_read 0 0) (Ws_message Io_ok demo_json_packet) wk = Ran (wk', out)"
      "wq_posted (link_writes (wk_link wk')) = wq_posted (link_writes (wk_link wk)) @ [(0, b, demo_report_stream)]"
    using demo_reporting by blast
  have checked: "list_all checked_data [?x]" by code_simp
  have sizes: "list_all (\<lambda>x. length (report_payload x) + 4 \<le> read_buffer_size ?h) [?x]" by code_simp
  have fits: "chunks_fit ?h ?cs" by code_simp
  have bytes: "concat ?cs = concat (map (snd \<circ> snd) (drop (length (wq_posted (link_writes (wk_link wk))))
      (wq_posted (link_writes (wk_link wk')))))" by (simp add: wk(5))
  have session: "map_of (cn_sockets (sv_conns demo_v3)) 1 = Some 0" "1 \<in> set (keys (workers (sv_sched demo_v3)))"
    by code_simp+
  have empty: "buffered ?h = []" by (simp add: buffered_def new_proto_handler_def)
  have size: "read_buffer_size ?h < 2 ^ 32" by (simp add: new_proto_handler_def)
  from reports_reach_broker [OF wk(1,2) demo_reports [folded wk(3)] checked wk(4) demo_v3_reach session
      new_proto_handler_ok empty size sizes bytes fits, of demo_supervisor_env]
  obtain h' msgs v' where v': "receive_all ?h ?cs = (h', map Message msgs)"
      "run_supervisor demo_supervisor_env (map (\<lambda>m. Network (Session_message 0 m)) msgs) demo_v3 = Some v'"
      "sv_posted v' = sv_posted demo_v3 @ published (host_endian (sv_sched_env demo_supervisor_env))
        (rooms_of 1 (sv_sched demo_v3)) (seen_checksums demo_v3) [?x]" by blast
  have "snd (receive_all ?h ?cs) = [Message (report_payload ?x)]" by code_simp
  with v'(1) have "map Message msgs = map Message [report_payload ?x]" by simp
  then have msgs: "msgs = [report_payload ?x]" by (cases msgs) auto
  have "sv_posted demo_v3 @ published (host_endian (sv_sched_env demo_supervisor_env))
        (rooms_of 1 (sv_sched demo_v3)) (seen_checksums demo_v3) [?x] = [(0x02010000, [98, 108, 118], [1, 2])]"
    by code_simp
  with v'(2,3) msgs show ?thesis by auto
qed

end
